(* ===== verification/Prelude.thy ===== *)
theory Prelude
  imports Main "HOL-Library.State_Monad" "HOL-Library.Word"
begin

text \<open>
  Shared vocabulary of the development: the collections of rewrite rules the component
  theories extend, the shape of fallible results, and the generic facts on lists, sums and
  the state monad that the component proofs rest on.
\<close>

named_theorems run_simps \<open>evaluation of the system-call layer on a concrete world\<close>
named_theorems hist_simps \<open>what an operation appends to the call history\<close>
named_theorems go_defs \<open>definitions of the small Go library functions\<close>

type_synonym 'a or_err = "string + 'a"

text \<open>
  A Go function returning only an \<open>error\<close> is modelled by an \<open>option\<close>: \<open>None\<close> is \<open>nil\<close>.
\<close>

abbreviation nil_err :: "'e option" where
  "nil_err \<equiv> None"

subsection \<open>State monad\<close>

lemma run_bind_pair:
  "run_state m s = (a, s') \<Longrightarrow> run_state (State_Monad.bind m f) s = run_state (f a) s'"
  by simp

lemma run_if [simp]:
  "run_state (if b then m else n) s = (if b then run_state m s else run_state n s)"
  by simp

lemma run_case_option [simp]:
  "run_state (case x of None \<Rightarrow> m | Some a \<Rightarrow> f a) s =
    (case x of None \<Rightarrow> run_state m s | Some a \<Rightarrow> run_state (f a) s)"
  by (cases x) simp_all

lemma run_case_sum [simp]:
  "run_state (case x of Inl e \<Rightarrow> m e | Inr a \<Rightarrow> f a) s =
    (case x of Inl e \<Rightarrow> run_state (m e) s | Inr a \<Rightarrow> run_state (f a) s)"
  by (cases x) simp_all

lemma run_case_prod [simp]:
  "run_state (case p of (a, b) \<Rightarrow> f a b) s = (case p of (a, b) \<Rightarrow> run_state (f a b) s)"
  by (cases p) simp

lemma run_case_list [simp]:
  "run_state (case xs of [] \<Rightarrow> m | y # ys \<Rightarrow> f y ys) s =
    (case xs of [] \<Rightarrow> run_state m s | y # ys \<Rightarrow> run_state (f y ys) s)"
  by (cases xs) simp_all

subsection \<open>Lists\<close>

lemma takeWhile_all: "(\<And>x. x \<in> set xs \<Longrightarrow> P x) \<Longrightarrow> takeWhile P xs = xs"
  by (simp add: takeWhile_eq_all_conv)

lemma dropWhile_none: "xs \<noteq> [] \<Longrightarrow> \<not> P (hd xs) \<Longrightarrow> dropWhile P xs = xs"
  by (cases xs) simp_all

lemma in_set_dropWhileD: "x \<in> set (dropWhile P xs) \<Longrightarrow> x \<in> set xs"
  by (metis dropWhile_eq_drop in_set_dropD)

lemma hd_dropWhile_not: "dropWhile P xs \<noteq> [] \<Longrightarrow> \<not> P (hd (dropWhile P xs))"
  by (rule hd_dropWhile)

lemma filter_length_le_Suc: "length (filter P (xs @ [x])) \<le> Suc (length (filter P xs))"
  by simp

lemma append_same_length_inj:
  "length a = length c \<Longrightarrow> a @ b = c @ d \<longleftrightarrow> a = c \<and> b = d"
  by simp

end
