(* ===== verification/Go_Strings.thy ===== *)
theory Go_Strings
  imports Prelude
begin

text \<open>
  The parts of Go's \<^verbatim>\<open>strings\<close>, \<^verbatim>\<open>fmt\<close>, \<^verbatim>\<open>strconv\<close> and \<^verbatim>\<open>bufio\<close> packages the program uses.
  A Go string is a sequence of bytes, a \<^typ>\<open>string\<close>. White space is Unicode white space,
  recognised by its UTF-8 encoding; no such encoding occurs inside another rune, so scanning
  byte by byte finds the same white space as Go's rune by rune scan.
\<close>

subsection \<open>Decimal numbers\<close>

definition digit_char :: "nat \<Rightarrow> char" where
  "digit_char d = char_of (48 + d)"

definition is_digit :: "char \<Rightarrow> bool" where
  "is_digit c \<longleftrightarrow> 48 \<le> (of_char c :: nat) \<and> (of_char c :: nat) \<le> 57"

definition digit_val :: "char \<Rightarrow> nat" where
  "digit_val c = of_char c - 48"

fun fmt_nat :: "nat \<Rightarrow> string" where
  "fmt_nat n = (if n < 10 then [digit_char n] else fmt_nat (n div 10) @ [digit_char (n mod 10)])"

declare fmt_nat.simps [simp del]

text \<open>The verb \<^verbatim>\<open>%d\<close>.\<close>

definition fmt_d :: "int \<Rightarrow> string" where
  "fmt_d i = (if i < 0 then ''-'' @ fmt_nat (nat (- i)) else fmt_nat (nat i))"

fun dec_val :: "nat \<Rightarrow> string \<Rightarrow> nat" where
  "dec_val acc [] = acc"
| "dec_val acc (c # cs) = dec_val (acc * 10 + digit_val c) cs"

lemma digit_char_props [simp]:
  assumes "d < 10"
  shows "is_digit (digit_char d)" and "digit_val (digit_char d) = d"
  using assms by (simp_all add: is_digit_def digit_val_def digit_char_def)

lemma dec_val_append: "dec_val acc (xs @ ys) = dec_val (dec_val acc xs) ys"
  by (induction xs arbitrary: acc) simp_all

lemma fmt_nat_nonempty [simp]: "fmt_nat n \<noteq> []"
  by (subst fmt_nat.simps) simp

lemma fmt_nat_digits: "c \<in> set (fmt_nat n) \<Longrightarrow> is_digit c"
proof (induction n rule: fmt_nat.induct)
  case (1 n)
  show ?case
  proof (cases "n < 10")
    case True
    with "1.prems" show ?thesis by (subst (asm) fmt_nat.simps) simp
  next
    case False
    with "1.prems" have "c \<in> set (fmt_nat (n div 10)) \<or> c = digit_char (n mod 10)"
      by (subst (asm) fmt_nat.simps) auto
    with "1.IH" [OF False] show ?thesis by auto
  qed
qed

lemma dec_val_fmt_nat [simp]: "dec_val 0 (fmt_nat n) = n"
proof (induction n rule: fmt_nat.induct)
  case (1 n)
  then show ?case
    by (cases "n < 10") (subst fmt_nat.simps, simp add: dec_val_append)+
qed

lemma fmt_nat_inj: "fmt_nat m = fmt_nat n \<Longrightarrow> m = n"
  by (metis dec_val_fmt_nat)

subsection \<open>Prefixes, suffixes and single-byte trimming\<close>

definition HasPrefix :: "string \<Rightarrow> string \<Rightarrow> bool" where
  "HasPrefix s p \<longleftrightarrow> take (length p) s = p"

definition TrimSuffix :: "string \<Rightarrow> string \<Rightarrow> string" where
  "TrimSuffix s suf =
    (if length suf \<le> length s \<and> drop (length s - length suf) s = suf
     then take (length s - length suf) s else s)"

text \<open>\<^verbatim>\<open>strings.TrimRight\<close> and \<^verbatim>\<open>strings.Trim\<close> for a cutset of one ASCII byte.\<close>

definition TrimRightByte :: "string \<Rightarrow> char \<Rightarrow> string" where
  "TrimRightByte s c = rev (dropWhile (\<lambda>x. x = c) (rev s))"

definition TrimByte :: "string \<Rightarrow> char \<Rightarrow> string" where
  "TrimByte s c = TrimRightByte (dropWhile (\<lambda>x. x = c) s) c"

lemma HasPrefix_append [simp]: "HasPrefix (p @ s) p"
  by (simp add: HasPrefix_def)

lemma HasPrefix_iff: "HasPrefix s p \<longleftrightarrow> (\<exists>t. s = p @ t)"
  by (metis HasPrefix_append HasPrefix_def append_take_drop_id)

lemma TrimSuffix_append [simp]: "TrimSuffix (s @ suf) suf = s"
  by (simp add: TrimSuffix_def)

lemma TrimRightByte_last: "TrimRightByte s c \<noteq> [] \<Longrightarrow> last (TrimRightByte s c) \<noteq> c"
  unfolding TrimRightByte_def using hd_dropWhile [of "\<lambda>x. x = c" "rev s"]
  by (simp add: last_rev)

lemma set_TrimRightByte: "set (TrimRightByte s c) \<subseteq> set s"
  by (auto simp: TrimRightByte_def dest: in_set_dropWhileD)

lemma set_TrimByte: "set (TrimByte s c) \<subseteq> set s"
  using set_TrimRightByte by (fastforce simp: TrimByte_def dest: in_set_dropWhileD)

lemma TrimRightByte_append:
  "TrimRightByte (a @ b) c = (if TrimRightByte b c = [] then TrimRightByte a c else a @ TrimRightByte b c)"
  by (simp add: TrimRightByte_def dropWhile_append)

lemma TrimRightByte_id: "s = [] \<or> last s \<noteq> c \<Longrightarrow> TrimRightByte s c = s"
  by (cases s rule: rev_cases) (auto simp: TrimRightByte_def)

lemma hd_TrimRightByte: "TrimRightByte s c \<noteq> [] \<Longrightarrow> hd (TrimRightByte s c) = hd s"
  unfolding TrimRightByte_def
  by (metis append.right_neutral append_is_Nil_conv hd_append2 rev_append rev_is_Nil_conv
      rev_rev_ident takeWhile_dropWhile_id)

lemma TrimByte_hd: "TrimByte s c \<noteq> [] \<Longrightarrow> hd (TrimByte s c) \<noteq> c"
  unfolding TrimByte_def using hd_TrimRightByte [of "dropWhile (\<lambda>x. x = c) s" c]
    hd_dropWhile [of "\<lambda>x. x = c" s]
  by (metis TrimRightByte_id append_Nil2 list.size(3))

lemma TrimByte_last: "TrimByte s c \<noteq> [] \<Longrightarrow> last (TrimByte s c) \<noteq> c"
  by (simp add: TrimByte_def TrimRightByte_last)

subsection \<open>White space: TrimSpace and Fields\<close>

definition ws_encodings :: "string list" where
  "ws_encodings =
    [[CHR 0x09], [CHR 0x0A], [CHR 0x0B], [CHR 0x0C], [CHR 0x0D], [CHR 0x20],
     [CHR 0xC2, CHR 0x85], [CHR 0xC2, CHR 0xA0], [CHR 0xE1, CHR 0x9A, CHR 0x80],
     [CHR 0xE2, CHR 0x80, CHR 0x80], [CHR 0xE2, CHR 0x80, CHR 0x81],
     [CHR 0xE2, CHR 0x80, CHR 0x82], [CHR 0xE2, CHR 0x80, CHR 0x83],
     [CHR 0xE2, CHR 0x80, CHR 0x84], [CHR 0xE2, CHR 0x80, CHR 0x85],
     [CHR 0xE2, CHR 0x80, CHR 0x86], [CHR 0xE2, CHR 0x80, CHR 0x87],
     [CHR 0xE2, CHR 0x80, CHR 0x88], [CHR 0xE2, CHR 0x80, CHR 0x89],
     [CHR 0xE2, CHR 0x80, CHR 0x8A], [CHR 0xE2, CHR 0x80, CHR 0xA8],
     [CHR 0xE2, CHR 0x80, CHR 0xA9], [CHR 0xE2, CHR 0x80, CHR 0xAF],
     [CHR 0xE2, CHR 0x81, CHR 0x9F], [CHR 0xE3, CHR 0x80, CHR 0x80]]"

text \<open>Width in bytes of the first of \<open>encs\<close> that \<open>s\<close> starts with, 0 if there is none.\<close>

fun enc_width :: "string list \<Rightarrow> string \<Rightarrow> nat" where
  "enc_width [] s = 0"
| "enc_width (e # encs) s = (if HasPrefix s e then length e else enc_width encs s)"

lemma enc_width_le: "enc_width encs s \<le> length s"
  by (induction encs s rule: enc_width.induct) (auto simp: HasPrefix_iff)

function strip_encs :: "string list \<Rightarrow> string \<Rightarrow> string" where
  "strip_encs encs s =
    (if enc_width encs s = 0 then s else strip_encs encs (drop (enc_width encs s) s))"
  by pat_completeness auto
termination
proof (relation "measure (\<lambda>(encs, s). length s)", goal_cases)
  case 1
  show ?case by simp
next
  case (2 encs s)
  with enc_width_le [of encs s] show ?case by simp
qed

declare strip_encs.simps [simp del]

definition ws_width :: "string \<Rightarrow> nat" where
  "ws_width s = enc_width ws_encodings s"

definition TrimLeftSpace :: "string \<Rightarrow> string" where
  "TrimLeftSpace s = strip_encs ws_encodings s"

definition TrimRightSpace :: "string \<Rightarrow> string" where
  "TrimRightSpace s = rev (strip_encs (map rev ws_encodings) (rev s))"

definition TrimSpace :: "string \<Rightarrow> string" where
  "TrimSpace s = TrimRightSpace (TrimLeftSpace s)"

function fields_from :: "string \<Rightarrow> string \<Rightarrow> string list" where
  "fields_from cur s =
    (case s of
       [] \<Rightarrow> if cur = [] then [] else [cur]
     | c # cs \<Rightarrow>
         if ws_width s = 0 then fields_from (cur @ [c]) cs
         else if cur = [] then fields_from [] (drop (ws_width s) s)
         else cur # fields_from [] (drop (ws_width s) s))"
  by pat_completeness auto
termination
  by (relation "measure (\<lambda>(cur, s). length s)") (auto simp: ws_width_def)

declare fields_from.simps [simp del]

definition Fields :: "string \<Rightarrow> string list" where
  "Fields s = fields_from [] s"

text \<open>No white space anywhere in a string.\<close>

fun ws_free :: "string \<Rightarrow> bool" where
  "ws_free [] = True"
| "ws_free (c # cs) = (ws_width (c # cs) = 0 \<and> ws_free cs)"

lemma strip_encs_width: "enc_width encs (strip_encs encs s) = 0"
  by (induction encs s rule: strip_encs.induct) (subst strip_encs.simps, simp)

lemma strip_encs_id: "enc_width encs s = 0 \<Longrightarrow> strip_encs encs s = s"
  by (simp add: strip_encs.simps)

lemma strip_encs_suffix: "\<exists>p. s = p @ strip_encs encs s"
proof (induction encs s rule: strip_encs.induct)
  case (1 encs s)
  show ?case
  proof (cases "enc_width encs s = 0")
    case True
    then show ?thesis by (simp add: strip_encs_id)
  next
    case False
    with "1.IH" obtain p where "drop (enc_width encs s) s = p @ strip_encs encs s"
      by (metis strip_encs.simps)
    then have "s = (take (enc_width encs s) s @ p) @ strip_encs encs s"
      by (metis append.assoc append_take_drop_id)
    then show ?thesis by blast
  qed
qed

lemma enc_width_prefix: "\<forall>e\<in>set encs. e \<noteq> [] \<Longrightarrow> enc_width encs (a @ b) = 0 \<Longrightarrow> enc_width encs a = 0"
  by (induction encs a rule: enc_width.induct)
    (auto simp: HasPrefix_iff split: if_splits)

lemma ws_encodings_nonempty: "\<forall>e\<in>set ws_encodings. e \<noteq> []"
  by (simp add: ws_encodings_def)

lemma TrimRightSpace_prefix: "\<exists>t. s = TrimRightSpace s @ t"
  unfolding TrimRightSpace_def
  by (metis rev_append rev_rev_ident strip_encs_suffix)

lemma TrimSpace_idem [simp]: "TrimSpace (TrimSpace s) = TrimSpace s"
proof -
  obtain t where t: "TrimLeftSpace s = TrimSpace s @ t"
    unfolding TrimSpace_def using TrimRightSpace_prefix by blast
  have "enc_width ws_encodings (TrimLeftSpace s) = 0"
    by (simp add: TrimLeftSpace_def strip_encs_width)
  with t have "enc_width ws_encodings (TrimSpace s) = 0"
    using enc_width_prefix [OF ws_encodings_nonempty] by metis
  then have "TrimLeftSpace (TrimSpace s) = TrimSpace s"
    by (simp add: TrimLeftSpace_def strip_encs_id)
  moreover have "TrimRightSpace (TrimSpace s) = TrimSpace s"
    by (simp add: TrimSpace_def TrimRightSpace_def strip_encs_id strip_encs_width)
  ultimately show ?thesis by (subst TrimSpace_def) simp
qed

text \<open>Trimming never removes a byte that is part of no white space.\<close>

lemma enc_width_match: "enc_width encs s \<noteq> 0 \<Longrightarrow> \<exists>e\<in>set encs. HasPrefix s e \<and> length e = enc_width encs s"
  by (induction encs) (auto split: if_splits)

lemma strip_encs_keeps:
  assumes "\<forall>e\<in>set encs. c \<notin> set e" and "c \<in> set s"
  shows "c \<in> set (strip_encs encs s)"
  using assms
proof (induction encs s rule: strip_encs.induct)
  case (1 encs s)
  show ?case
  proof (cases "enc_width encs s = 0")
    case False
    then obtain e where e: "HasPrefix s e" "length e = enc_width encs s" and no: "c \<notin> set e"
      using enc_width_match [OF False] "1.prems"(1) by blast
    then have "s = e @ drop (enc_width encs s) s" by (auto simp: HasPrefix_iff)
    with no "1.prems"(2) have "c \<in> set (drop (enc_width encs s) s)" by (metis Un_iff set_append)
    with False "1.IH" "1.prems"(1) show ?thesis by (subst strip_encs.simps) simp
  qed (use 1 in \<open>simp add: strip_encs_id\<close>)
qed

lemma TrimSpace_keeps:
  assumes "\<forall>e\<in>set ws_encodings. c \<notin> set e" and "c \<in> set s"
  shows "c \<in> set (TrimSpace s)"
  using assms strip_encs_keeps [of ws_encodings c s] strip_encs_keeps [of "map rev ws_encodings" c "rev (TrimLeftSpace s)"]
  by (simp add: TrimSpace_def TrimRightSpace_def TrimLeftSpace_def)

lemma fields_from_ws_free:
  "ws_free s \<Longrightarrow> fields_from cur s = (if cur @ s = [] then [] else [cur @ s])"
  by (induction s arbitrary: cur) (subst fields_from.simps, simp)+

lemma Fields_ws_free: "ws_free s \<Longrightarrow> Fields s = (if s = [] then [] else [s])"
  by (simp add: Fields_def fields_from_ws_free)

subsection \<open>Splitting and line scanning\<close>

fun split_byte :: "char \<Rightarrow> string \<Rightarrow> string list" where
  "split_byte c [] = [[]]"
| "split_byte c (x # xs) =
    (if x = c then [] # split_byte c xs
     else (x # hd (split_byte c xs)) # tl (split_byte c xs))"

text \<open>
  \<^verbatim>\<open>bufio.Scanner\<close> with \<^verbatim>\<open>ScanLines\<close>: newline-terminated lines without a trailing carriage
  return, a last unterminated line if it is not empty, and a silent stop at a line that does
  not fit the 64 KiB token buffer.
\<close>

definition drop_cr :: "string \<Rightarrow> string" where
  "drop_cr l = (if l \<noteq> [] \<and> last l = CHR 0x0D then butlast l else l)"

definition scan_lines :: "string \<Rightarrow> string list" where
  "scan_lines s =
    (let ls = split_byte (CHR 0x0A) s;
         ls' = (if last ls = [] then butlast ls else ls)
     in map drop_cr (takeWhile (\<lambda>l. length l < 65536) ls'))"

lemma split_byte_nonempty [simp]: "split_byte c s \<noteq> []"
  by (cases s) auto

text \<open>For evaluation, with a single recursive call.\<close>

lemma split_byte_code [code]:
  "split_byte c [] = [[]]"
  "split_byte c (x # xs) =
    (case split_byte c xs of [] \<Rightarrow> [] | y # ys \<Rightarrow> if x = c then [] # y # ys else (x # y) # ys)"
  by (simp_all split: list.splits)

lemma split_byte_no_sep: "c \<notin> set s \<Longrightarrow> split_byte c s = [s]"
  by (induction s) auto

lemma split_byte_append: "c \<notin> set a \<Longrightarrow> split_byte c (a @ c # b) = a # split_byte c b"
  by (induction a) auto

lemma split_byte_parts: "x \<in> set (split_byte c s) \<Longrightarrow> c \<notin> set x"
proof (induction s arbitrary: x)
  case (Cons y ys)
  show ?case
  proof (cases "y = c")
    case True
    with Cons show ?thesis by auto
  next
    case False
    with Cons.prems consider "x = y # hd (split_byte c ys)" | "x \<in> set (tl (split_byte c ys))"
      by auto
    then show ?thesis
    proof cases
      case 1
      moreover have "c \<notin> set (hd (split_byte c ys))"
        by (rule Cons.IH) simp
      ultimately show ?thesis using False by simp
    next
      case 2
      then show ?thesis by (meson Cons.IH list.set_sel(2) split_byte_nonempty)
    qed
  qed
qed simp

subsection \<open>Replacers\<close>

text \<open>
  \<^verbatim>\<open>strings.NewReplacer\<close>: at each position the first old string, in argument order, that
  matches is replaced; matches do not overlap. Only non-empty old strings are used.
\<close>

fun match_pair :: "(string \<times> string) list \<Rightarrow> string \<Rightarrow> (string \<times> string) option" where
  "match_pair [] s = None"
| "match_pair ((old, new) # ps) s =
    (if old \<noteq> [] \<and> HasPrefix s old then Some (old, new) else match_pair ps s)"

lemma match_pair_Some: "match_pair ps s = Some (old, new) \<Longrightarrow> old \<noteq> [] \<and> HasPrefix s old \<and> (old, new) \<in> set ps"
  by (induction ps s rule: match_pair.induct) (auto split: if_splits)

function replace_all :: "(string \<times> string) list \<Rightarrow> string \<Rightarrow> string" where
  "replace_all ps s =
    (case s of
       [] \<Rightarrow> []
     | c # cs \<Rightarrow>
         (case match_pair ps s of
            None \<Rightarrow> c # replace_all ps cs
          | Some (old, new) \<Rightarrow> new @ replace_all ps (drop (length old) s)))"
  by pat_completeness auto
termination
  by (relation "measure (\<lambda>(ps, s). length s)") (auto dest: match_pair_Some)

declare replace_all.simps [simp del]

lemma replace_all_Nil [simp]: "replace_all ps [] = []"
  by (simp add: replace_all.simps)

lemma replace_all_Cons:
  "replace_all ps (c # cs) =
    (case match_pair ps (c # cs) of
       None \<Rightarrow> c # replace_all ps cs
     | Some (old, new) \<Rightarrow> new @ replace_all ps (drop (length old) (c # cs)))"
  by (subst replace_all.simps) simp

text \<open>A replacer whose old strings are single bytes works byte by byte.\<close>

lemma replace_all_bytes:
  assumes "\<And>old new. (old, new) \<in> set ps \<Longrightarrow> length old = 1"
  shows "replace_all ps s =
    concat (map (\<lambda>c. case map_of (map (\<lambda>(old, new). (hd old, new)) ps) c of None \<Rightarrow> [c] | Some new \<Rightarrow> new) s)"
proof (induction s)
  case (Cons c cs)
  have "match_pair qs (c # cs) =
      (case map_of (map (\<lambda>(old, new). (hd old, new)) qs) c of None \<Rightarrow> None | Some new \<Rightarrow> Some ([c], new))"
    if "\<And>old new. (old, new) \<in> set qs \<Longrightarrow> length old = 1" for qs
    using that
  proof (induction qs)
    case (Cons q qs)
    obtain old new where q: "q = (old, new)" by (cases q)
    with Cons.prems [of old new] obtain d where "old = [d]"
      by (auto simp: length_Suc_conv)
    with q Cons show ?case by (auto simp: HasPrefix_def)
  qed simp
  with assms Cons.IH show ?case
    by (auto simp: replace_all_Cons split: option.splits)
qed simp

subsection \<open>Quoting and hexadecimal digits\<close>

definition hex_digit :: "nat \<Rightarrow> char" where
  "hex_digit n = (if n < 10 then char_of (48 + n) else char_of (87 + n))"

definition hex_byte :: "char \<Rightarrow> string" where
  "hex_byte c = [hex_digit (of_char c div 16), hex_digit (of_char c mod 16)]"

text \<open>
  \<^verbatim>\<open>strconv.Quote\<close>, the verb \<^verbatim>\<open>%q\<close>; bytes from 128 on are taken to be parts of printable
  runes, which Go leaves as they are. It occurs in error texts only.
\<close>

definition quote_char :: "char \<Rightarrow> string" where
  "quote_char c =
    (if c = CHR 0x22 \<or> c = CHR 0x5C then [CHR 0x5C, c]
     else if c = CHR 0x07 then [CHR 0x5C, CHR ''a'']
     else if c = CHR 0x08 then [CHR 0x5C, CHR ''b'']
     else if c = CHR 0x0C then [CHR 0x5C, CHR ''f'']
     else if c = CHR 0x0A then [CHR 0x5C, CHR ''n'']
     else if c = CHR 0x0D then [CHR 0x5C, CHR ''r'']
     else if c = CHR 0x09 then [CHR 0x5C, CHR ''t'']
     else if c = CHR 0x0B then [CHR 0x5C, CHR ''v'']
     else if (of_char c :: nat) < 32 \<or> c = CHR 0x7F then [CHR 0x5C, CHR ''x''] @ hex_byte c
     else [c])"

definition fmt_q :: "string \<Rightarrow> string" where
  "fmt_q s = [CHR 0x22] @ concat (map quote_char s) @ [CHR 0x22]"

end
