(* ===== verification/Go_Time.thy ===== *)
theory Go_Time
  imports Go_Strings
begin

text \<open>
  Go's \<^verbatim>\<open>time\<close> package as the program uses it. A \<^verbatim>\<open>time.Time\<close> is an integer number of
  nanoseconds since the Unix epoch, a \<^verbatim>\<open>time.Duration\<close> an integer in the range of int64.
  \<open>ParseDuration\<close> follows the library's loop, its uint64 arithmetic and its bounds; only the
  floating-point product for a fractional part is a parameter \<open>fmul\<close> (fraction digits as a
  number, unit, number of fraction digits).
\<close>

type_synonym go_time = int
type_synonym duration = int

abbreviation second :: duration where
  "second \<equiv> 1000000000"

abbreviation millisecond :: duration where
  "millisecond \<equiv> 1000000"

text \<open>The zero value \<^verbatim>\<open>time.Time{}\<close>: January 1 of year 1, UTC.\<close>

definition zero_time :: go_time where
  "zero_time = - 62135596800 * second"

definition Unix :: "go_time \<Rightarrow> int" where
  "Unix t = t div second"

text \<open>\<^verbatim>\<open>time.Until\<close>: the difference, saturated to int64.\<close>

definition Until :: "go_time \<Rightarrow> go_time \<Rightarrow> duration" where
  "Until t now = max (- (2 ^ 63)) (min (2 ^ 63 - 1) (t - now))"

lemma Until_pos: "now < t \<Longrightarrow> 0 < Until t now"
  by (simp add: Until_def)

lemma Until_range: "- (2 ^ 63) \<le> Until t now \<and> Until t now < 2 ^ 63"
  by (simp add: Until_def)

subsection \<open>ParseDuration\<close>

definition time_quote_char :: "char \<Rightarrow> string" where
  "time_quote_char c =
    (if (of_char c :: nat) < 32 \<or> 128 \<le> (of_char c :: nat) then [CHR 0x5C, CHR ''x''] @ hex_byte c
     else if c = CHR 0x22 \<or> c = CHR 0x5C then [CHR 0x5C, c]
     else [c])"

definition time_quote :: "string \<Rightarrow> string" where
  "time_quote s = [CHR 0x22] @ concat (map time_quote_char s) @ [CHR 0x22]"

fun leadingInt :: "nat \<Rightarrow> string \<Rightarrow> (nat \<times> string) option" where
  "leadingInt x [] = Some (x, [])"
| "leadingInt x (c # cs) =
    (if \<not> is_digit c then Some (x, c # cs)
     else if 2 ^ 63 div 10 < x then None
     else if 2 ^ 63 < x * 10 + digit_val c then None
     else leadingInt (x * 10 + digit_val c) cs)"

fun leadingFraction :: "bool \<Rightarrow> nat \<Rightarrow> nat \<Rightarrow> string \<Rightarrow> nat \<times> nat \<times> string" where
  "leadingFraction overflow x k [] = (x, k, [])"
| "leadingFraction overflow x k (c # cs) =
    (if \<not> is_digit c then (x, k, c # cs)
     else if overflow then leadingFraction True x k cs
     else if (2 ^ 63 - 1) div 10 < x then leadingFraction True x k cs
     else if 2 ^ 63 < x * 10 + digit_val c then leadingFraction True x k cs
     else leadingFraction False (x * 10 + digit_val c) (Suc k) cs)"

definition unitMap :: "(string \<times> nat) list" where
  "unitMap =
    [(''ns'', 1), (''us'', 1000), ([CHR 0xC2, CHR 0xB5, CHR ''s''], 1000),
     ([CHR 0xCE, CHR 0xBC, CHR ''s''], 1000), (''ms'', 1000000), (''s'', 1000000000),
     (''m'', 60000000000), (''h'', 3600000000000)]"

definition unit_char :: "char \<Rightarrow> bool" where
  "unit_char c \<longleftrightarrow> c \<noteq> CHR ''.'' \<and> \<not> is_digit c"

lemma leadingInt_rest: "leadingInt x s = Some (y, r) \<Longrightarrow> \<exists>p. s = p @ r \<and> (\<forall>c\<in>set p. is_digit c)"
proof (induction x s rule: leadingInt.induct)
  case (2 x c cs)
  show ?case
  proof (cases "is_digit c")
    case True
    with 2 obtain p where "cs = p @ r" "\<forall>c\<in>set p. is_digit c" by (auto split: if_splits)
    with True have "c # cs = (c # p) @ r \<and> (\<forall>c\<in>set (c # p). is_digit c)" by simp
    then show ?thesis by blast
  next
    case False
    with 2 have "c # cs = [] @ r" by simp
    then show ?thesis by fastforce
  qed
qed simp

lemma leadingFraction_rest:
  "leadingFraction ov x k s = (y, j, r) \<Longrightarrow> \<exists>p. s = p @ r \<and> (\<forall>c\<in>set p. is_digit c)"
proof (induction ov x k s rule: leadingFraction.induct)
  case (2 ov x k c cs)
  show ?case
  proof (cases "is_digit c")
    case True
    with 2 obtain p where "cs = p @ r" "\<forall>c\<in>set p. is_digit c" by (auto split: if_splits)
    with True have "c # cs = (c # p) @ r \<and> (\<forall>c\<in>set (c # p). is_digit c)" by simp
    then show ?thesis by blast
  next
    case False
    with 2 have "c # cs = [] @ r" by simp
    then show ?thesis by fastforce
  qed
qed simp

text \<open>
  One number of a duration string: its integer part, its fraction and the rest of the
  string, \<open>None\<close> where the library reports an invalid duration.
\<close>

definition lex_number :: "string \<Rightarrow> (nat \<times> nat \<times> nat \<times> string) option" where
  "lex_number s =
    (case leadingInt 0 s of
       None \<Rightarrow> None
     | Some (v, s1) \<Rightarrow>
         if s1 \<noteq> [] \<and> hd s1 = CHR ''.'' then
           (case leadingFraction False 0 0 (tl s1) of
              (f, k, s2) \<Rightarrow>
                if length s1 = length s \<and> length s2 = length (tl s1) then None
                else Some (v, f, k, s2))
         else if length s1 = length s then None
         else Some (v, 0, 0, s1))"

lemma lex_number_rest:
  assumes "lex_number s = Some (v, f, k, r)"
  shows "\<exists>p. s = p @ r \<and> (\<forall>c\<in>set p. is_digit c \<or> c = CHR ''.'')"
proof -
  from assms obtain s1 where v: "leadingInt 0 s = Some (v, s1)"
    by (auto simp: lex_number_def split: option.splits if_splits prod.splits)
  obtain p where p: "s = p @ s1" "\<forall>c\<in>set p. is_digit c"
    using leadingInt_rest [OF v] by blast
  show ?thesis
  proof (cases "s1 \<noteq> [] \<and> hd s1 = CHR ''.''")
    case True
    then obtain t where t: "s1 = CHR ''.'' # t" by (cases s1) auto
    with assms v obtain f' k' where "leadingFraction False 0 0 t = (f', k', r)"
      by (auto simp: lex_number_def split: if_splits prod.splits)
    then obtain q where "t = q @ r" "\<forall>c\<in>set q. is_digit c"
      using leadingFraction_rest by blast
    with p t have "s = (p @ CHR ''.'' # q) @ r \<and> (\<forall>c\<in>set (p @ CHR ''.'' # q). is_digit c \<or> c = CHR ''.'')"
      by auto
    then show ?thesis by blast
  next
    case False
    with assms v have "r = s1" by (auto simp: lex_number_def split: if_splits)
    with p show ?thesis by blast
  qed
qed

lemma lex_unit_shorter:
  assumes "lex_number s = Some (v, f, k, r)" and "takeWhile unit_char r \<noteq> []"
  shows "length (dropWhile unit_char r) < length s"
proof -
  obtain p where "s = p @ r" using lex_number_rest [OF assms(1)] by blast
  moreover have "length (takeWhile unit_char r) + length (dropWhile unit_char r) = length r"
    by (metis length_append takeWhile_dropWhile_id)
  ultimately show ?thesis using assms(2) by (cases "takeWhile unit_char r") auto
qed

function duration_loop :: "(nat \<Rightarrow> nat \<Rightarrow> nat \<Rightarrow> nat) \<Rightarrow> string \<Rightarrow> nat \<Rightarrow> string \<Rightarrow> nat or_err" where
  "duration_loop fmul orig d s =
    (if s = [] then Inr d
     else if \<not> (hd s = CHR ''.'' \<or> is_digit (hd s)) then Inl (''time: invalid duration '' @ time_quote orig)
     else case lex_number s of
       None \<Rightarrow> Inl (''time: invalid duration '' @ time_quote orig)
     | Some (v, f, k, r) \<Rightarrow>
         (if takeWhile unit_char r = [] then Inl (''time: missing unit in duration '' @ time_quote orig)
          else case map_of unitMap (takeWhile unit_char r) of
            None \<Rightarrow> Inl (''time: unknown unit '' @ time_quote (takeWhile unit_char r) @
              '' in duration '' @ time_quote orig)
          | Some u \<Rightarrow>
              (if 2 ^ 63 div u < v then Inl (''time: invalid duration '' @ time_quote orig)
               else if 0 < f \<and> 2 ^ 63 < (v * u + fmul f u k) mod 2 ^ 64
                 then Inl (''time: invalid duration '' @ time_quote orig)
               else if 2 ^ 63 < (d + (v * u + (if 0 < f then fmul f u k else 0)) mod 2 ^ 64) mod 2 ^ 64
                 then Inl (''time: invalid duration '' @ time_quote orig)
               else duration_loop fmul orig
                 ((d + (v * u + (if 0 < f then fmul f u k else 0)) mod 2 ^ 64) mod 2 ^ 64)
                 (dropWhile unit_char r))))"
  by pat_completeness auto
termination
proof (relation "measure (\<lambda>(fmul, orig, d, s). length s)", goal_cases)
  case 1
  show ?case by simp
next
  case (2 fmul orig d s x v y f z k r u)
  then show ?case by (auto intro: lex_unit_shorter)
qed

declare duration_loop.simps [simp del]

definition ParseDuration :: "(nat \<Rightarrow> nat \<Rightarrow> nat \<Rightarrow> nat) \<Rightarrow> string \<Rightarrow> duration or_err" where
  "ParseDuration fmul orig =
    (let neg = (orig \<noteq> [] \<and> hd orig = CHR ''-'');
         s = (if orig \<noteq> [] \<and> (hd orig = CHR ''-'' \<or> hd orig = CHR ''+'') then tl orig else orig)
     in if s = ''0'' then Inr 0
        else if s = [] then Inl (''time: invalid duration '' @ time_quote orig)
        else case duration_loop fmul orig 0 s of
          Inl e \<Rightarrow> Inl e
        | Inr d \<Rightarrow>
            if neg then Inr (- int d)
            else if 2 ^ 63 - 1 < d then Inl (''time: invalid duration '' @ time_quote orig)
            else Inr (int d))"

subsection \<open>Durations written as numbers with units\<close>

text \<open>A duration given by whole numbers of units, such as \<^verbatim>\<open>1h30m\<close>.\<close>

definition fmt_segs :: "(nat \<times> string) list \<Rightarrow> string" where
  "fmt_segs segs = concat (map (\<lambda>(n, u). fmt_nat n @ u) segs)"

definition segs_ok :: "(nat \<times> string) list \<Rightarrow> bool" where
  "segs_ok segs \<longleftrightarrow> (\<forall>(n, u)\<in>set segs. u \<in> set (map fst unitMap))"

fun segs_nanos :: "(nat \<times> string) list \<Rightarrow> nat" where
  "segs_nanos [] = 0"
| "segs_nanos ((n, u) # segs) = n * the (map_of unitMap u) + segs_nanos segs"

lemma fmt_segs_simps [simp]:
  "fmt_segs [] = []" "fmt_segs ((n, u) # segs) = fmt_nat n @ u @ fmt_segs segs"
  by (simp_all add: fmt_segs_def)

lemma segs_ok_simps [simp]:
  "segs_ok []" "segs_ok ((n, u) # segs) \<longleftrightarrow> u \<in> set (map fst unitMap) \<and> segs_ok segs"
  by (auto simp: segs_ok_def)

lemma dec_val_ge: "x \<le> dec_val x ds"
proof (induction ds arbitrary: x)
  case (Cons d ds)
  have "x \<le> x * 10 + digit_val d" by simp
  also have "\<dots> \<le> dec_val (x * 10 + digit_val d) ds" by (rule Cons.IH)
  finally show ?case by simp
qed simp

lemma leadingInt_digits:
  assumes "\<forall>c\<in>set ds. is_digit c" and "dec_val x ds \<le> 2 ^ 63" and "r = [] \<or> \<not> is_digit (hd r)"
  shows "leadingInt x (ds @ r) = Some (dec_val x ds, r)"
  using assms(1,2)
proof (induction ds arbitrary: x)
  case Nil
  with assms(3) show ?case by (cases r) auto
next
  case (Cons c cs)
  have "x * 10 + digit_val c \<le> 2 ^ 63"
    using dec_val_ge [of "x * 10 + digit_val c" cs] Cons.prems(2) by simp
  then show ?case using Cons by simp
qed

lemma unitMap_unit:
  assumes "u \<in> set (map fst unitMap)"
  shows "u \<noteq> [] \<and> (\<forall>c\<in>set u. unit_char c) \<and> (\<exists>k>0. map_of unitMap u = Some k)"
  using assms by (auto simp: unitMap_def unit_char_def is_digit_def)

lemma hd_fmt_nat_digit [simp]: "is_digit (hd (fmt_nat n))"
  using fmt_nat_digits [of "hd (fmt_nat n)" n] by simp

lemma fmt_segs_hd: "fmt_segs segs = [] \<or> is_digit (hd (fmt_segs segs))"
  by (cases segs) auto

lemma unit_scan:
  assumes "u \<in> set (map fst unitMap)" and "r = [] \<or> is_digit (hd r)"
  shows "takeWhile unit_char (u @ r) = u" and "dropWhile unit_char (u @ r) = r"
  using unitMap_unit [OF assms(1)] assms(2)
  by (cases r; auto simp: unit_char_def)+

lemma lex_number_seg:
  assumes "n \<le> 2 ^ 63" and "u \<in> set (map fst unitMap)"
  shows "lex_number (fmt_nat n @ u @ r) = Some (n, 0, 0, u @ r)"
proof -
  have u: "u \<noteq> []" "unit_char (hd u)" using unitMap_unit [OF assms(2)] by auto
  then have "leadingInt 0 (fmt_nat n @ u @ r) = Some (n, u @ r)"
    using leadingInt_digits [of "fmt_nat n" 0 "u @ r"] fmt_nat_digits assms(1)
    by (simp add: unit_char_def)
  with u show ?thesis by (simp add: lex_number_def unit_char_def)
qed

lemma duration_loop_segs:
  assumes "segs_ok segs" and "d + segs_nanos segs \<le> 2 ^ 63"
  shows "duration_loop fmul orig d (fmt_segs segs) = Inr (d + segs_nanos segs)"
  using assms
proof (induction segs arbitrary: d)
  case Nil
  show ?case by (subst duration_loop.simps) simp
next
  case (Cons seg segs)
  obtain n u where seg: "seg = (n, u)" by (cases seg)
  with Cons.prems(1) have u: "u \<in> set (map fst unitMap)" and ok: "segs_ok segs" by simp_all
  from unitMap_unit [OF u] obtain k where k: "map_of unitMap u = Some k" "0 < k" by blast
  define s where "s = fmt_nat n @ u @ fmt_segs segs"
  have total: "d + n * k + segs_nanos segs \<le> 2 ^ 63" using Cons.prems(2) seg k by simp
  have "n \<le> n * k" using k(2) by simp
  with total have n: "n \<le> 2 ^ 63" "n * k \<le> 2 ^ 63" "d + n * k \<le> 2 ^ 63" by linarith+
  then have nk: "n \<le> 2 ^ 63 div k" using k(2) by (simp add: less_eq_div_iff_mult_less_eq)
  have lex: "lex_number s = Some (n, 0, 0, u @ fmt_segs segs)"
    unfolding s_def by (rule lex_number_seg [OF n(1) u])
  have scan: "takeWhile unit_char (u @ fmt_segs segs) = u"
      "dropWhile unit_char (u @ fmt_segs segs) = fmt_segs segs"
    using unit_scan [OF u fmt_segs_hd] by auto
  have s: "s \<noteq> []" "is_digit (hd s)" by (simp_all add: s_def)
  have mods: "(d + n * k mod 2 ^ 64) mod 2 ^ 64 = d + n * k"
    using n by (simp add: mod_less)
  have "u \<noteq> []" using unitMap_unit [OF u] by simp
  with s lex scan k nk mods n have "duration_loop fmul orig d s = duration_loop fmul orig (d + n * k) (fmt_segs segs)"
    by (subst duration_loop.simps) simp
  also have "\<dots> = Inr (d + n * k + segs_nanos segs)"
    using total by (intro Cons.IH ok) simp
  finally show ?case using seg k by (simp add: s_def)
qed

lemma ParseDuration_segs:
  assumes "segs_ok segs" and "segs \<noteq> []" and "segs_nanos segs < 2 ^ 63"
  shows "ParseDuration fmul (fmt_segs segs) = Inr (int (segs_nanos segs))"
proof -
  obtain n u segs' where segs: "segs = (n, u) # segs'" by (metis assms(2) neq_Nil_conv surj_pair)
  have u: "u \<noteq> []" "unit_char (hd u)" using assms(1) segs unitMap_unit [of u] by auto
  have hd: "is_digit (hd (fmt_segs segs))" and ne: "fmt_segs segs \<noteq> []"
    by (simp_all add: segs)
  then have sign: "hd (fmt_segs segs) \<noteq> CHR ''-''" "hd (fmt_segs segs) \<noteq> CHR ''+''"
    by (auto simp: is_digit_def)
  have "length (fmt_segs segs) > 1"
    using u by (cases "fmt_nat n"; cases u) (auto simp: segs)
  then have "fmt_segs segs \<noteq> ''0''" by auto
  with ne sign duration_loop_segs [OF assms(1), of 0 fmul "fmt_segs segs"] assms(3) show ?thesis
    by (simp add: ParseDuration_def)
qed

subsection \<open>Durations contain no white space\<close>

definition ws_start :: "char \<Rightarrow> bool" where
  "ws_start c \<longleftrightarrow> c \<in> set (map hd ws_encodings)"

lemma enc_width_hd: "\<forall>e\<in>set encs. e \<noteq> [] \<Longrightarrow> c \<notin> set (map hd encs) \<Longrightarrow> enc_width encs (c # cs) = 0"
  by (induction encs) (auto simp: HasPrefix_iff Cons_eq_append_conv)

lemma ws_width_start: "\<not> ws_start c \<Longrightarrow> ws_width (c # cs) = 0"
  using enc_width_hd [OF ws_encodings_nonempty] by (simp add: ws_width_def ws_start_def)

lemma ws_free_append_safe: "\<forall>c\<in>set p. \<not> ws_start c \<Longrightarrow> ws_free r \<Longrightarrow> ws_free (p @ r)"
  by (induction p) (auto simp: ws_width_start)

lemma number_char_safe: "is_digit c \<or> c = CHR ''.'' \<or> c = CHR ''-'' \<or> c = CHR ''+'' \<Longrightarrow> \<not> ws_start c"
  by (auto simp: is_digit_def ws_start_def ws_encodings_def)

lemma ws_free_unit: "map_of unitMap u = Some k \<Longrightarrow> ws_free r \<Longrightarrow> ws_free (u @ r)"
  by (auto simp: unitMap_def ws_width_def ws_encodings_def HasPrefix_def split: if_splits)

lemma duration_loop_ws_free: "duration_loop fmul orig d s = Inr x \<Longrightarrow> ws_free s"
proof (induction s arbitrary: d rule: measure_induct_rule [where f = length])
  case (less s)
  show ?case
  proof (cases "s = []")
    case False
    from less.prems False obtain v f k r where lex: "lex_number s = Some (v, f, k, r)"
      by (subst (asm) duration_loop.simps) (auto split: if_splits option.splits)
    from less.prems False lex obtain u where
        u: "map_of unitMap (takeWhile unit_char r) = Some u" and ne: "takeWhile unit_char r \<noteq> []"
      by (subst (asm) duration_loop.simps) (auto split: if_splits option.splits)
    from less.prems False lex u obtain d' where "duration_loop fmul orig d' (dropWhile unit_char r) = Inr x"
      by (subst (asm) duration_loop.simps) (auto split: if_splits)
    then have "ws_free (dropWhile unit_char r)"
      by (rule less.IH [OF lex_unit_shorter [OF lex ne]])
    with u have "ws_free r" by (metis takeWhile_dropWhile_id ws_free_unit)
    moreover obtain p where "s = p @ r" "\<forall>c\<in>set p. is_digit c \<or> c = CHR ''.''"
      using lex_number_rest [OF lex] by blast
    ultimately show ?thesis using ws_free_append_safe number_char_safe by metis
  qed simp
qed

lemma ParseDuration_ws_free:
  assumes "ParseDuration fmul s = Inr d"
  shows "ws_free s"
proof -
  define t where "t = (if s \<noteq> [] \<and> (hd s = CHR ''-'' \<or> hd s = CHR ''+'') then tl s else s)"
  have "ws_free ''0''"
    by (simp add: ws_width_start number_char_safe is_digit_def)
  then have t: "ws_free t"
    using assms duration_loop_ws_free [of fmul s 0 t]
    by (auto simp: ParseDuration_def t_def Let_def split: if_splits sum.splits)
  show ?thesis
  proof (cases "s \<noteq> [] \<and> (hd s = CHR ''-'' \<or> hd s = CHR ''+'')")
    case True
    then have "s = hd s # t" by (simp add: t_def)
    with True t show ?thesis by (metis number_char_safe ws_free.simps(2) ws_width_start)
  next
    case False
    with t show ?thesis by (simp add: t_def)
  qed
qed

lemma ParseDuration_hd: "ParseDuration fmul s = Inr d \<Longrightarrow> s \<noteq> [] \<and> hd s \<noteq> CHR ''@''"
  by (auto simp: ParseDuration_def Let_def duration_loop.simps is_digit_def split: if_splits sum.splits)

end
