(* ===== verification/Api_Types.thy ===== *)
theory Api_Types
  imports Go_Time
begin

text \<open>
  \<^verbatim>\<open>api/v1alpha1/gpucheckpoint_types.go\<close>: the GPUCheckpoint custom resource. Go string types
  (\<^verbatim>\<open>StorageType\<close>, \<^verbatim>\<open>CheckpointPhase\<close>) stay strings, because an object read from the API server
  may carry any value, the empty one included. A pointer that may be nil is an \<open>option\<close>, an
  int64 a 64-bit word. Of the Kubernetes types (object metadata, conditions, Pods) the records
  keep the fields the program reads or writes.
\<close>

type_synonym nsname = "string \<times> string"

record ObjectMeta =
  om_Name :: string
  om_Namespace :: string
  om_Labels :: "(string \<times> string) list"
  om_UID :: string
  om_Controller :: "string option"

record Condition =
  cd_Type :: string
  cd_Status :: string
  cd_Reason :: string
  cd_Message :: string
  cd_LastTransitionTime :: go_time

record Container =
  ct_Name :: string
  ct_Limits :: "(string \<times> int) list"
  ct_Requests :: "(string \<times> int) list"

record Pod =
  pod_Name :: string
  pod_Namespace :: string
  pod_UID :: string
  pod_NodeName :: string
  pod_Labels :: "(string \<times> string) list"
  pod_Containers :: "Container list"
  pod_Phase :: string
  pod_DeletionTimestamp :: "go_time option"

subsection \<open>GPUCheckpoint\<close>

record WorkloadRef =
  wr_Kind :: string
  wr_Namespace :: string
  wr_Name :: string
  wr_Container :: string
  wr_NodeInfo :: string

definition StorageHostPath :: string where "StorageHostPath = ''hostPath''"
definition StorageMount :: string where "StorageMount = ''mount''"
definition StorageNFS :: string where "StorageNFS = ''nfs''"
definition StoragePVC :: string where "StoragePVC = ''pvc''"
definition StorageS3 :: string where "StorageS3 = ''s3''"

lemmas storage_types = StorageHostPath_def StorageMount_def StorageNFS_def StoragePVC_def StorageS3_def

record StorageSpec =
  ss_Type :: string
  ss_Path :: string
  ss_Endpoint :: string
  ss_FsType :: string
  ss_Source :: string
  ss_Options :: string
  ss_SubPath :: string
  ss_ClaimName :: string

record GPUCheckpointSpec =
  gs_WorkloadRef :: WorkloadRef
  gs_Storage :: StorageSpec
  gs_Schedule :: string
  gs_Incremental :: bool

definition PhasePending :: string where "PhasePending = ''Pending''"
definition PhaseCheckpointing :: string where "PhaseCheckpointing = ''Checkpointing''"
definition PhaseCompleted :: string where "PhaseCompleted = ''Completed''"
definition PhaseFailed :: string where "PhaseFailed = ''Failed''"

lemmas phases = PhasePending_def PhaseCheckpointing_def PhaseCompleted_def PhaseFailed_def

record GPUCheckpointStatus =
  st_Phase :: string
  st_ObservedNode :: string
  st_LastCheckpointTime :: "go_time option"
  st_CheckpointCount :: "64 word"
  st_LastCheckpointPath :: string
  st_Message :: string
  st_Conditions :: "Condition list"

record GPUCheckpoint =
  gc_Meta :: ObjectMeta
  gc_Spec :: GPUCheckpointSpec
  gc_Status :: GPUCheckpointStatus

text \<open>Errors of the API client, as far as the program tells them apart, with their text.\<close>

datatype api_error = NotFound string | AlreadyExists string | ApiError string

fun IsNotFound :: "api_error \<Rightarrow> bool" where
  "IsNotFound (NotFound m) = True"
| "IsNotFound _ = False"

fun IsAlreadyExists :: "api_error \<Rightarrow> bool" where
  "IsAlreadyExists (AlreadyExists m) = True"
| "IsAlreadyExists _ = False"

fun api_text :: "api_error \<Rightarrow> string" where
  "api_text (NotFound m) = m"
| "api_text (AlreadyExists m) = m"
| "api_text (ApiError m) = m"

text \<open>\<^verbatim>\<open>ctrl.Result\<close>: only \<^verbatim>\<open>RequeueAfter\<close> is used; 0 means no requeue.\<close>

record ctrl_Result =
  RequeueAfter :: duration

definition no_requeue :: ctrl_Result where
  "no_requeue = \<lparr>RequeueAfter = 0\<rparr>"

definition requeue_after :: "duration \<Rightarrow> ctrl_Result" where
  "requeue_after d = \<lparr>RequeueAfter = d\<rparr>"

lemma requeue_simps [simp]:
  "RequeueAfter no_requeue = 0" "RequeueAfter (requeue_after d) = d"
  by (simp_all add: no_requeue_def requeue_after_def)

text \<open>Values used by examples: an empty storage specification and status.\<close>

definition empty_storage :: StorageSpec where
  "empty_storage = \<lparr>ss_Type = [], ss_Path = [], ss_Endpoint = [], ss_FsType = [], ss_Source = [],
     ss_Options = [], ss_SubPath = [], ss_ClaimName = []\<rparr>"

definition empty_status :: GPUCheckpointStatus where
  "empty_status = \<lparr>st_Phase = [], st_ObservedNode = [], st_LastCheckpointTime = None,
     st_CheckpointCount = 0, st_LastCheckpointPath = [], st_Message = [], st_Conditions = []\<rparr>"

end
