(* ===== verification/Schedule.thy ===== *)
theory Schedule
  imports Go_Time
begin

text \<open>
  \<^verbatim>\<open>internal/agent/schedule.go\<close>: checkpoint schedules, given as a Go duration or a cron
  expression. The cron parser is the third-party package \<^verbatim>\<open>robfig/cron\<close>: a parameter that
  maps an expression to an error or to the function \<^verbatim>\<open>Schedule.Next\<close>.
\<close>

record sched_lib =
  sl_fmul :: "nat \<Rightarrow> nat \<Rightarrow> nat \<Rightarrow> nat"
  sl_cron :: "string \<Rightarrow> (go_time \<Rightarrow> go_time) or_err"

definition ParseSchedule :: "sched_lib \<Rightarrow> string \<Rightarrow> duration or_err" where
  "ParseSchedule L s = (if s = [] then Inr 0 else ParseDuration (sl_fmul L) s)"

definition looksLikeCron :: "string \<Rightarrow> bool" where
  "looksLikeCron s = (if HasPrefix s ''@'' then True else 5 \<le> length (Fields s))"

definition NextRun :: "sched_lib \<Rightarrow> string \<Rightarrow> go_time \<Rightarrow> (go_time \<times> bool) or_err" where
  "NextRun L s0 start =
    (let s = TrimSpace s0
     in if s = [] then Inr (zero_time, False)
        else if looksLikeCron s then
          (case sl_cron L s of
             Inl err \<Rightarrow> Inl err
           | Inr next \<Rightarrow> Inr (next start, True))
        else
          (case ParseDuration (sl_fmul L) s of
             Inl err \<Rightarrow> Inl err
           | Inr d \<Rightarrow> if d \<le> 0 then Inr (zero_time, False) else Inr (start + d, True)))"

definition IsOneShot :: "sched_lib \<Rightarrow> string \<Rightarrow> go_time \<Rightarrow> bool" where
  "IsOneShot L s now =
    (case NextRun L s now of
       Inl err \<Rightarrow> True
     | Inr (t, recurring) \<Rightarrow> \<not> recurring)"

subsection \<open>What a scheduler promises its client\<close>

locale schedule_law =
  fixes next_run :: "string \<Rightarrow> go_time \<Rightarrow> (go_time \<times> bool) or_err"
  assumes err_indep: "next_run s t = Inl e \<Longrightarrow> next_run s t' = Inl e"
    and rec_indep: "next_run s t = Inr (n, r) \<Longrightarrow> \<exists>n'. next_run s t' = Inr (n', r)"
begin

lemma valid_indep: "isl (next_run s t) = isl (next_run s t')"
  by (cases "next_run s t"; cases "next_run s t'") (metis err_indep sum.disc old.sum.exhaust)+

lemma recurring_at:
  assumes "next_run s t = Inr (n, r)" and "next_run s t' = Inr (n', r')"
  shows "r = r'"
  using rec_indep [OF assms(1), of t'] assms(2) by simp

end

lemma NextRun_trim: "NextRun L (TrimSpace s) t = NextRun L s t"
  by (simp add: NextRun_def)

interpretation agent_sched: schedule_law "NextRun L" for L
proof
  fix s t t' e
  assume "NextRun L s t = Inl e"
  then show "NextRun L s t' = Inl e"
    by (auto simp: NextRun_def Let_def split: if_splits sum.splits)
next
  fix s t t' n r
  assume "NextRun L s t = Inr (n, r)"
  then show "\<exists>n'. NextRun L s t' = Inr (n', r)"
    by (auto simp: NextRun_def Let_def split: if_splits sum.splits)
qed

subsection \<open>Duration schedules\<close>

lemma enc_width_zero: "\<forall>e\<in>set encs. \<not> HasPrefix s e \<Longrightarrow> enc_width encs s = 0"
  by (induction encs) auto

lemma enc_width_pos: "e \<in> set encs \<Longrightarrow> HasPrefix s e \<Longrightarrow> \<forall>e\<in>set encs. e \<noteq> [] \<Longrightarrow> 0 < enc_width encs s"
  by (induction encs) auto

lemma ws_free_drop: "ws_free (a @ b) \<Longrightarrow> ws_free b"
  by (induction a) auto

lemma ws_free_no_enc:
  assumes "ws_free s" and "s = a @ e" and "e \<in> set ws_encodings"
  shows False
proof -
  have "ws_free e" using assms(1,2) ws_free_drop by blast
  moreover have "e \<noteq> []" using assms(3) ws_encodings_nonempty by blast
  ultimately have "ws_width e = 0" by (cases e) auto
  then show False
    using enc_width_pos [OF assms(3), of e] ws_encodings_nonempty
    by (simp add: ws_width_def HasPrefix_def)
qed

lemma TrimSpace_ws_free: "ws_free s \<Longrightarrow> TrimSpace s = s"
proof -
  assume s: "ws_free s"
  then have "enc_width ws_encodings s = 0"
    by (cases s) (auto simp: ws_width_def enc_width_zero ws_encodings_def HasPrefix_def)
  then have left: "TrimLeftSpace s = s"
    by (simp add: TrimLeftSpace_def strip_encs_id)
  have "\<not> HasPrefix (rev s) (rev e)" if "e \<in> set ws_encodings" for e
  proof
    assume "HasPrefix (rev s) (rev e)"
    then obtain t where "rev s = rev e @ t" by (auto simp: HasPrefix_iff)
    then have "s = rev t @ e" by (metis rev_append rev_rev_ident)
    with s that show False by (blast intro: ws_free_no_enc)
  qed
  then have "TrimRightSpace s = s"
    by (simp add: TrimRightSpace_def strip_encs_id enc_width_zero)
  with left show ?thesis by (simp add: TrimSpace_def)
qed

lemma duration_not_cron:
  assumes "ParseDuration fmul s = Inr d"
  shows "\<not> looksLikeCron s"
proof -
  have "hd s \<noteq> CHR ''@''" "s \<noteq> []" using ParseDuration_hd [OF assms] by auto
  then have "\<not> HasPrefix s ''@''" by (cases s) (auto simp: HasPrefix_def)
  moreover have "length (Fields s) \<le> 1"
    using Fields_ws_free [OF ParseDuration_ws_free [OF assms]] by simp
  ultimately show ?thesis by (simp add: looksLikeCron_def)
qed

lemma NextRun_duration:
  assumes "ParseDuration (sl_fmul L) s = Inr d"
  shows "NextRun L s t = (if d \<le> 0 then Inr (zero_time, False) else Inr (t + d, True))"
proof -
  have "TrimSpace s = s" by (rule TrimSpace_ws_free [OF ParseDuration_ws_free [OF assms]])
  moreover have "s \<noteq> []" using ParseDuration_hd [OF assms] by simp
  ultimately show ?thesis using assms duration_not_cron [OF assms] by (simp add: NextRun_def)
qed

subsection \<open>Properties\<close>

text \<open>A scheduler without cron support and without fractional durations, for examples.\<close>

definition no_sched :: sched_lib where
  "no_sched = \<lparr>sl_fmul = (\<lambda>f scale u. 0), sl_cron = (\<lambda>s. Inl ''not a cron expression'')\<rparr>"

text \<open>A schedule written as whole numbers of units (\<^verbatim>\<open>1h30m\<close>, \<^verbatim>\<open>300s\<close>) recurs, and the next
  run after any time is exactly that many nanoseconds later.\<close>

theorem NextRun_segs:
  assumes "segs_ok segs" and "0 < segs_nanos segs" and "segs_nanos segs < 2 ^ 63"
  shows "NextRun L (fmt_segs segs) t = Inr (t + int (segs_nanos segs), True)"
proof -
  have "segs \<noteq> []" using assms(2) by auto
  from NextRun_duration [OF ParseDuration_segs [OF assms(1) this assms(3)]] show ?thesis
    using assms(2) by simp
qed

theorem NextRun_segs_witness:
  "NextRun no_sched (fmt_segs [(1, ''h''), (30, ''m'')]) 7 = Inr (7 + 5400000000000, True)"
proof -
  have n: "segs_nanos [(1, ''h''), (30, ''m'')] = 5400000000000" and ok: "segs_ok [(1, ''h''), (30, ''m'')]"
    by (simp_all add: unitMap_def)
  have "0 < segs_nanos [(1, ''h''), (30, ''m'')]" "segs_nanos [(1, ''h''), (30, ''m'')] < 2 ^ 63"
    unfolding n by simp_all
  from NextRun_segs [OF ok this] show ?thesis unfolding n by simp
qed

text \<open>C33: The cron-aware \<^verbatim>\<open>NextRun\<close> agrees with the older \<^verbatim>\<open>ParseSchedule\<close> on everything the latter
  accepts: a duration is never taken for a cron expression; a positive one recurs with that
  period, any other (empty, zero, negative) is one-shot, at every time.\<close>

theorem NextRun_ParseSchedule:
  assumes "ParseSchedule L s = Inr d"
  shows "\<not> looksLikeCron s \<and>
    NextRun L s t = (if d \<le> 0 then Inr (zero_time, False) else Inr (t + d, True)) \<and>
    IsOneShot L s t = (d \<le> 0)"
proof -
  have "\<not> looksLikeCron s \<and> NextRun L s t = (if d \<le> 0 then Inr (zero_time, False) else Inr (t + d, True))"
  proof (cases "s = []")
    case True
    moreover have "\<not> looksLikeCron []" "TrimSpace [] = []"
      by (simp_all add: looksLikeCron_def HasPrefix_def Fields_ws_free TrimSpace_ws_free)
    ultimately show ?thesis using assms by (simp add: ParseSchedule_def NextRun_def)
  next
    case False
    with assms have "ParseDuration (sl_fmul L) s = Inr d" by (simp add: ParseSchedule_def)
    from duration_not_cron [OF this] NextRun_duration [OF this] show ?thesis by simp
  qed
  then show ?thesis by (simp add: IsOneShot_def)
qed

theorem NextRun_ParseSchedule_witness:
  "ParseSchedule no_sched (fmt_segs [(5, ''m'')]) = Inr 300000000000 \<and>
    \<not> IsOneShot no_sched (fmt_segs [(5, ''m'')]) 0"
proof -
  have n: "segs_nanos [(5, ''m'')] = 300000000000" and ok: "segs_ok [(5, ''m'')]"
    by (simp_all add: unitMap_def)
  have "segs_nanos [(5, ''m'')] < 2 ^ 63" unfolding n by simp
  from ParseDuration_segs [OF ok _ this] have "ParseSchedule no_sched (fmt_segs [(5, ''m'')]) = Inr 300000000000"
    unfolding n by (simp add: ParseSchedule_def)
  with NextRun_ParseSchedule [OF this, of 0] show ?thesis by simp
qed

text \<open>Whether a schedule is one-shot does not depend on when it is asked, and blanks around it
  do not matter.\<close>

theorem IsOneShot_stable: "IsOneShot L s t = IsOneShot L s t' \<and> IsOneShot L (TrimSpace s) t = IsOneShot L s t"
proof (cases "NextRun L s t")
  case (Inl e)
  then show ?thesis using agent_sched.err_indep [OF Inl, of t'] by (simp add: IsOneShot_def NextRun_trim)
next
  case (Inr p)
  obtain n r where p: "p = (n, r)" by fastforce
  with Inr show ?thesis using agent_sched.rec_indep [OF Inr [unfolded p], of t'] by (auto simp: IsOneShot_def NextRun_trim)
qed

end
