(* ===== verification/Go_Path.thy ===== *)
theory Go_Path
  imports Go_Strings
begin

text \<open>
  \<^verbatim>\<open>filepath.Clean\<close> and \<^verbatim>\<open>filepath.Join\<close> on Unix, by path elements: empty elements and
  \<^verbatim>\<open>.\<close> are dropped, \<^verbatim>\<open>..\<close> removes the element before it, and is itself dropped at the root.
  The facts at the end give the canonical form of absolute paths, on which joining an
  element is injective.
\<close>

definition slash :: char where
  "slash = CHR ''/''"

fun join_slash :: "string list \<Rightarrow> string" where
  "join_slash [] = []"
| "join_slash [x] = x"
| "join_slash (x # y # ys) = x @ slash # join_slash (y # ys)"

fun clean_elems :: "bool \<Rightarrow> string list \<Rightarrow> string list \<Rightarrow> string list" where
  "clean_elems rooted st [] = rev st"
| "clean_elems rooted st (x # xs) =
    (if x = [] \<or> x = ''.'' then clean_elems rooted st xs
     else if x = ''..'' then
       (if st \<noteq> [] \<and> hd st \<noteq> ''..'' then clean_elems rooted (tl st) xs
        else if rooted then clean_elems rooted st xs
        else clean_elems rooted (''..'' # st) xs)
     else clean_elems rooted (x # st) xs)"

definition is_abs :: "string \<Rightarrow> bool" where
  "is_abs p \<longleftrightarrow> p \<noteq> [] \<and> hd p = slash"

definition elems :: "string \<Rightarrow> string list" where
  "elems p = clean_elems (is_abs p) [] (split_byte slash p)"

definition Clean :: "string \<Rightarrow> string" where
  "Clean p =
    (if is_abs p then slash # join_slash (elems p)
     else if elems p = [] then ''.''
     else join_slash (elems p))"

definition Join :: "string list \<Rightarrow> string" where
  "Join es =
    (let es' = dropWhile (\<lambda>e. e = []) es
     in if es' = [] then [] else Clean (join_slash es'))"

lemma is_abs_literal [simp]: "is_abs (CHR ''/'' # p)"
  by (simp add: is_abs_def slash_def)

text \<open>A proper path element: a file name.\<close>

definition path_elem :: "string \<Rightarrow> bool" where
  "path_elem x \<longleftrightarrow> x \<noteq> [] \<and> x \<noteq> ''.'' \<and> x \<noteq> ''..'' \<and> slash \<notin> set x"

lemma slash_Cons [simp]: "split_byte slash (slash # s) = [] # split_byte slash s"
  by simp

lemma split_join_slash:
  "xs \<noteq> [] \<Longrightarrow> \<forall>x\<in>set xs. slash \<notin> set x \<Longrightarrow> split_byte slash (join_slash xs) = xs"
  by (induction xs rule: join_slash.induct) (auto simp: split_byte_no_sep split_byte_append)

lemma split_byte_append_gen:
  "split_byte c (a @ c # b) = split_byte c a @ split_byte c b"
  by (induction a) auto

lemma clean_elems_proper:
  "\<forall>x\<in>set xs. path_elem x \<Longrightarrow> clean_elems r st (xs @ ys) = clean_elems r (rev xs @ st) ys"
  by (induction xs arbitrary: st) (auto simp: path_elem_def)

lemma clean_elems_append:
  assumes "\<forall>x\<in>set xs. path_elem x"
  shows "clean_elems r st (ys @ xs) = clean_elems r st ys @ xs"
proof (induction ys arbitrary: r st)
  case Nil
  show ?case using clean_elems_proper [OF assms, of r st "[]"] by simp
next
  case (Cons y ys)
  show ?case by (simp add: Cons.IH)
qed

lemma clean_elems_ok:
  assumes "\<forall>x\<in>set st. path_elem x" and "\<forall>x\<in>set xs. slash \<notin> set x"
  shows "\<forall>x\<in>set (clean_elems True st xs). path_elem x"
  using assms
proof (induction xs arbitrary: st)
  case (Cons x xs)
  have tl: "\<forall>y\<in>set (tl st). path_elem y" using Cons.prems(1) by (cases st) auto
  have xs: "\<forall>y\<in>set xs. slash \<notin> set y" using Cons.prems(2) by simp
  have push: "x \<noteq> [] \<Longrightarrow> x \<noteq> ''.'' \<Longrightarrow> x \<noteq> ''..'' \<Longrightarrow> \<forall>y\<in>set (x # st). path_elem y"
    using Cons.prems by (simp add: path_elem_def)
  show ?case
    using Cons.IH [OF tl xs] Cons.IH [OF Cons.prems(1) xs] Cons.IH [OF push xs] by simp
qed simp

lemma elems_abs_proper: "is_abs p \<Longrightarrow> \<forall>x\<in>set (elems p). path_elem x"
  unfolding elems_def using clean_elems_ok [of "[]" "split_byte slash p"]
  by (auto dest: split_byte_parts)

definition abs_path :: "string list \<Rightarrow> string" where
  "abs_path cs = slash # join_slash cs"

lemma is_abs_abs_path [simp]: "is_abs (abs_path cs)"
  by (simp add: is_abs_def abs_path_def)

lemma split_abs_path:
  "\<forall>x\<in>set cs. slash \<notin> set x \<Longrightarrow> split_byte slash (abs_path cs) = [] # (if cs = [] then [[]] else cs)"
  by (auto simp: abs_path_def split_join_slash)

lemma elems_abs_path:
  assumes "\<forall>x\<in>set cs. path_elem x"
  shows "elems (abs_path cs) = cs"
proof -
  have "\<forall>x\<in>set cs. slash \<notin> set x" using assms by (simp add: path_elem_def)
  then show ?thesis
    using clean_elems_proper [OF assms, of True "[]" "[]"]
    by (auto simp: elems_def split_abs_path)
qed

lemma Clean_abs: "is_abs p \<Longrightarrow> Clean p = abs_path (elems p)"
  by (simp add: Clean_def abs_path_def)

lemma Clean_abs_path [simp]: "\<forall>x\<in>set cs. path_elem x \<Longrightarrow> Clean (abs_path cs) = abs_path cs"
  by (simp add: Clean_abs elems_abs_path)

lemma abs_path_inj:
  assumes "\<forall>x\<in>set cs. path_elem x" and "\<forall>x\<in>set ds. path_elem x" and "abs_path cs = abs_path ds"
  shows "cs = ds"
  by (metis assms elems_abs_path)

lemma elems_append_slash:
  assumes "is_abs p" and "\<forall>x\<in>set xs. path_elem x" and "xs \<noteq> []"
  shows "elems (p @ slash # join_slash xs) = elems p @ xs"
proof -
  have abs: "is_abs (p @ slash # join_slash xs)" using assms(1) by (simp add: is_abs_def)
  have no: "\<forall>x\<in>set xs. slash \<notin> set x" using assms(2) by (simp add: path_elem_def)
  have "split_byte slash (p @ slash # join_slash xs) = split_byte slash p @ xs"
    by (simp add: split_byte_append_gen split_join_slash [OF assms(3) no])
  with abs assms(1) show ?thesis by (simp add: elems_def clean_elems_append [OF assms(2)])
qed

text \<open>Joining file names to an absolute directory.\<close>

lemma Join_abs:
  assumes "is_abs d" and "\<forall>x\<in>set xs. path_elem x" and "xs \<noteq> []"
  shows "Join (d # xs) = abs_path (elems d @ xs)"
proof -
  have "join_slash (d # xs) = d @ slash # join_slash xs" using assms(3) by (cases xs) auto
  moreover have "d \<noteq> []" using assms(1) by (auto simp: is_abs_def)
  moreover have "is_abs (d @ slash # join_slash xs)" using assms(1) by (simp add: is_abs_def)
  ultimately show ?thesis
    using Clean_abs elems_append_slash [OF assms] by (simp add: Join_def)
qed

lemma Join_abs_inj:
  assumes "is_abs d" and "path_elem x" and "path_elem y" and "Join [d, x] = Join [d, y]"
  shows "x = y"
proof -
  from assms have "abs_path (elems d @ [x]) = abs_path (elems d @ [y])"
    by (simp add: Join_abs)
  with assms have "elems d @ [x] = elems d @ [y]"
    by (intro abs_path_inj) (auto dest: elems_abs_proper)
  then show ?thesis by simp
qed

lemma is_abs_Clean: "is_abs p \<Longrightarrow> is_abs (Clean p)"
  by (simp add: Clean_abs)

lemma Clean_idem_abs: "is_abs p \<Longrightarrow> Clean (Clean p) = Clean p"
  using elems_abs_proper by (simp add: Clean_abs elems_abs_path)

subsection \<open>Cleaning is idempotent\<close>

text \<open>
  A cleaned relative path is a run of \<^verbatim>\<open>..\<close> and then file names; a cleaned absolute one has
  file names only. Both are left as they are when cleaned again.
\<close>

definition canon :: "bool \<Rightarrow> string list \<Rightarrow> bool" where
  "canon r xs \<longleftrightarrow> (\<exists>k cs. xs = replicate k ''..'' @ cs \<and> (r \<longrightarrow> k = 0) \<and> (\<forall>x\<in>set cs. path_elem x))"

lemma path_elem_not_dots [simp]: "\<not> path_elem ''..''"
  by (simp add: path_elem_def)

lemma canon_push: "canon r (rev st) \<Longrightarrow> path_elem x \<Longrightarrow> canon r (rev (x # st))"
proof -
  assume "canon r (rev st)" and x: "path_elem x"
  then obtain k cs where "rev st = replicate k ''..'' @ cs" "r \<longrightarrow> k = 0" "\<forall>y\<in>set cs. path_elem y"
    by (auto simp: canon_def)
  then have "rev (x # st) = replicate k ''..'' @ (cs @ [x]) \<and> (r \<longrightarrow> k = 0) \<and> (\<forall>y\<in>set (cs @ [x]). path_elem y)"
    using x by simp
  then show ?thesis unfolding canon_def by blast
qed

lemma canon_pop:
  assumes "canon r (rev st)" and "st \<noteq> []" and "hd st \<noteq> ''..''"
  shows "canon r (rev (tl st))"
proof -
  obtain k cs where st: "rev st = replicate k ''..'' @ cs" "r \<longrightarrow> k = 0" "\<forall>x\<in>set cs. path_elem x"
    using assms(1) by (auto simp: canon_def)
  have "hd st = last (replicate k ''..'' @ cs)" using st(1) assms(2) by (metis last_rev rev_rev_ident rev_is_Nil_conv)
  then have ne: "cs \<noteq> []" using assms(2,3) st(1)
    by (metis append_Nil2 in_set_replicate last_in_set rev_is_Nil_conv)
  have "rev (tl st) = butlast (rev st)" by (simp add: butlast_rev)
  also have "\<dots> = replicate k ''..'' @ butlast cs" using st(1) ne by (simp add: butlast_append)
  finally show ?thesis using st(2,3) unfolding canon_def by (metis in_set_butlastD)
qed

lemma canon_dots:
  assumes "canon False (rev st)" and "st = [] \<or> hd st = ''..''"
  shows "canon False (rev (''..'' # st))"
proof -
  obtain k cs where st: "rev st = replicate k ''..'' @ cs" "\<forall>x\<in>set cs. path_elem x"
    using assms(1) by (auto simp: canon_def)
  have "cs = []"
  proof (rule ccontr)
    assume "cs \<noteq> []"
    then have ne: "st \<noteq> []" using st(1) by auto
    have "hd st = last (rev st)" using ne by (simp add: last_rev)
    then have "hd st = last cs" using st(1) \<open>cs \<noteq> []\<close> by simp
    with ne \<open>cs \<noteq> []\<close> assms(2) st(2) show False by (metis last_in_set path_elem_not_dots)
  qed
  with st have "rev (''..'' # st) = replicate (Suc k) ''..'' @ []" by (simp add: replicate_append_same)
  then show ?thesis unfolding canon_def by (metis empty_iff empty_set)
qed

lemma clean_elems_canon:
  assumes "canon r (rev st)" and "\<forall>x\<in>set xs. slash \<notin> set x"
  shows "canon r (clean_elems r st xs)"
  using assms
proof (induction xs arbitrary: st)
  case (Cons x xs)
  have xs: "\<forall>y\<in>set xs. slash \<notin> set y" and x: "slash \<notin> set x" using Cons.prems(2) by auto
  consider "x = [] \<or> x = ''.''" | "x = ''..'' \<and> st \<noteq> [] \<and> hd st \<noteq> ''..''"
    | "x = ''..'' \<and> \<not> (st \<noteq> [] \<and> hd st \<noteq> ''..'')" | "path_elem x"
    using x by (auto simp: path_elem_def)
  then show ?case
  proof cases
    case 3
    then show ?thesis using Cons canon_dots xs by (cases r) auto
  next
    case 4
    then show ?thesis using Cons canon_push xs by (auto simp: path_elem_def)
  qed (use Cons canon_pop xs in auto)
qed simp

lemma clean_elems_dots: "clean_elems False (replicate j ''..'') (replicate k ''..'' @ xs) =
    clean_elems False (replicate (j + k) ''..'') xs"
proof (induction k arbitrary: j)
  case (Suc k)
  from Suc.IH [of "Suc j"] show ?case by (cases j) auto
qed simp

lemma clean_elems_of_canon: "canon r xs \<Longrightarrow> clean_elems r [] xs = xs"
proof -
  assume "canon r xs"
  then obtain k cs where xs: "xs = replicate k ''..'' @ cs" "r \<longrightarrow> k = 0" "\<forall>x\<in>set cs. path_elem x"
    by (auto simp: canon_def)
  show "clean_elems r [] xs = xs"
  proof (cases r)
    case True
    with xs show ?thesis using clean_elems_proper [OF xs(3), of r "[]" "[]"] by simp
  next
    case False
    with xs show ?thesis
      using clean_elems_dots [of 0 k cs] clean_elems_proper [OF xs(3), of False "replicate k ''..''" "[]"]
      by simp
  qed
qed

lemma canon_elems: "canon (is_abs p) (elems p)"
  unfolding elems_def by (rule clean_elems_canon) (auto simp: canon_def dest: split_byte_parts)

lemma canon_no_slash: "canon r xs \<Longrightarrow> x \<in> set xs \<Longrightarrow> slash \<notin> set x \<and> x \<noteq> []"
proof -
  assume "canon r xs" and "x \<in> set xs"
  then have "x = ''..'' \<or> path_elem x"
    unfolding canon_def by (metis UnE in_set_replicate set_append)
  then show ?thesis by (elim disjE) (simp_all add: path_elem_def slash_def)
qed

lemma is_abs_join_slash: "canon r xs \<Longrightarrow> xs \<noteq> [] \<Longrightarrow> \<not> is_abs (join_slash xs)"
proof (induction xs rule: join_slash.induct)
  case (2 x)
  then have "slash \<notin> set x" "x \<noteq> []" using canon_no_slash [of r "[x]" x] by auto
  then show ?case by (cases x) (auto simp: is_abs_def)
next
  case (3 x y ys)
  then have "slash \<notin> set x" "x \<noteq> []" using canon_no_slash [of r "x # y # ys" x] by auto
  then show ?case by (cases x) (auto simp: is_abs_def)
qed simp

lemma is_abs_Clean_iff: "is_abs (Clean p) \<longleftrightarrow> is_abs p"
  using is_abs_join_slash [OF canon_elems [of p]] by (auto simp: Clean_def is_abs_def slash_def)

lemma elems_Clean: "elems (Clean p) = elems p"
proof (cases "is_abs p")
  case True
  then show ?thesis by (simp add: Clean_abs elems_abs_path elems_abs_proper)
next
  case False
  show ?thesis
  proof (cases "elems p = []")
    case True
    moreover have "elems ''.'' = []" by (simp add: elems_def slash_def)
    ultimately show ?thesis using False by (simp add: Clean_def)
  next
    case ne: False
    have "split_byte slash (join_slash (elems p)) = elems p"
      using split_join_slash [OF ne] canon_no_slash [OF canon_elems] by blast
    with False ne show ?thesis
      using is_abs_join_slash [OF canon_elems ne] clean_elems_of_canon [OF canon_elems [of p]]
      by (simp add: Clean_def elems_def [of "join_slash _"])
  qed
qed

lemma Clean_cong: "is_abs p = is_abs q \<Longrightarrow> elems p = elems q \<Longrightarrow> Clean p = Clean q"
  by (simp add: Clean_def)

lemma Clean_idem [simp]: "Clean (Clean p) = Clean p"
  by (rule Clean_cong) (simp_all add: is_abs_Clean_iff elems_Clean)

lemma elems_slash_elem:
  "p \<noteq> [] \<Longrightarrow> path_elem x \<Longrightarrow> elems (p @ slash # x) = elems p @ [x]"
  using clean_elems_append [of "[x]" "is_abs p" "[]" "split_byte slash p"]
  by (simp add: elems_def is_abs_def split_byte_append_gen split_byte_no_sep path_elem_def)

lemma join_slash_nonempty: "xs \<noteq> [] \<Longrightarrow> [] \<notin> set xs \<Longrightarrow> join_slash xs \<noteq> []"
  by (induction xs rule: join_slash.induct) auto

lemma Clean_nonempty [simp]: "Clean p \<noteq> []"
  using join_slash_nonempty [of "elems p"] canon_no_slash [OF canon_elems, of "[]" p]
  by (auto simp: Clean_def)

lemma Clean_slash_elem: "p \<noteq> [] \<Longrightarrow> path_elem x \<Longrightarrow> Clean (Clean p @ slash # x) = Clean (p @ slash # x)"
proof (rule Clean_cong)
  assume p: "p \<noteq> []" and x: "path_elem x"
  show "elems (Clean p @ slash # x) = elems (p @ slash # x)"
    using p x by (simp add: elems_slash_elem elems_Clean)
  show "is_abs (Clean p @ slash # x) = is_abs (p @ slash # x)"
    using p is_abs_Clean_iff [of p] by (simp add: is_abs_def)
qed

lemma Join_assoc:
  assumes "path_elem x"
  shows "Join [Join [r, k], x] = Join [r, k, x]"
proof (cases "r = []")
  case True
  then show ?thesis using Clean_slash_elem [OF _ assms, of k]
    by (cases "k = []") (auto simp: Join_def)
next
  case False
  then show ?thesis using Clean_slash_elem [OF _ assms, of "r @ slash # k"]
    by (auto simp: Join_def)
qed

subsection \<open>Joining a relative path without parent references\<close>

lemma clean_elems_split:
  "clean_elems r st (xs @ ys) = clean_elems r (rev (clean_elems r st xs)) ys"
  by (induction xs arbitrary: st) auto

lemma clean_elems_no_dots:
  "''..'' \<notin> set xs \<Longrightarrow> clean_elems r st xs = rev st @ filter (\<lambda>x. x \<noteq> [] \<and> x \<noteq> ''.'') xs"
  by (induction xs arbitrary: st) auto

lemma elems_Join_inside:
  assumes "d \<noteq> []" and "''..'' \<notin> set (split_byte slash x)"
  shows "elems (Join [d, x]) = elems d @ filter (\<lambda>y. y \<noteq> [] \<and> y \<noteq> ''.'') (split_byte slash x)"
proof -
  have "elems (Join [d, x]) = elems (d @ slash # x)" using assms(1) by (simp add: Join_def elems_Clean)
  also have "\<dots> = clean_elems (is_abs d) [] (split_byte slash d @ split_byte slash x)"
    using assms(1) by (simp add: elems_def is_abs_def split_byte_append_gen)
  finally show ?thesis using assms(2) by (simp add: clean_elems_split clean_elems_no_dots elems_def)
qed

end
