(* ===== verification/Os_World.thy ===== *)
theory Os_World
  imports Api_Types Schedule Go_Path
begin

text \<open>
  What the Node Agent does to the outside world: system calls on files, sub-processes, HTTP
  requests to the kubelet and API-server requests. The world keeps the contents of files, the
  clock and the history of calls made so far. Everything that is not the agent is the
  environment \<open>env\<close>, a family of functions of the call history: which calls fail and with
  which error, what a call returns, what other processes (the hook in the Pod, the kubelet)
  do to the files between two calls, how much time passes. Every theorem over an arbitrary
  \<open>env\<close> therefore covers every failure and every interleaving at the granularity of calls.
  Four library functions whose code is not part of the program are fields of \<open>env\<close> too: the
  URL check of \<^verbatim>\<open>http.NewRequest\<close>, the certificate parser of \<^verbatim>\<open>crypto/x509\<close>, the JSON decoder
  applied to the kubelet's reply, and the cron parser. Directories are not tracked: creating one either fails, if the environment says so, or has
  no effect on file contents. The clock is read between calls, so time spent computing counts
  as time the neighbouring calls take.
\<close>

record http_request =
  hr_Method :: string
  hr_URL :: string
  hr_Header :: "(string \<times> string) list"

record http_response =
  hs_StatusCode :: int
  hs_Body :: string

datatype event =
    EvMkdirAll string
  | EvWriteFile string string
  | EvReadFile string
  | EvOpen string
  | EvCreate string nat
  | EvCopy string string
  | EvChmod string nat
  | EvStat string
  | EvRemove string
  | EvReadDir string
  | EvExec "string list"
  | EvHttp http_request
  | EvSleep duration
  | EvGetCR nsname
  | EvGetPod nsname
  | EvUpdateStatus GPUCheckpoint

type_synonym files = "string \<Rightarrow> string option"
type_synonym history = "event list"

record world =
  w_hist :: history
  w_files :: files
  w_now :: go_time

record env =
  e_interfere :: "history \<Rightarrow> files \<Rightarrow> files"
  e_elapsed :: "history \<Rightarrow> nat"
  e_fault :: "history \<Rightarrow> string option"
  e_partial :: "history \<Rightarrow> nat option"
  e_readdir :: "history \<Rightarrow> (string \<times> bool) list or_err"
  e_exec :: "history \<Rightarrow> files \<Rightarrow> (string \<times> string option) \<times> files"
  e_http :: "history \<Rightarrow> files \<Rightarrow> http_response or_err \<times> files"
  e_urlerr :: "string \<Rightarrow> string option"
  e_certs :: "string \<Rightarrow> bool"
  e_items :: "string \<Rightarrow> string list or_err"
  e_getcr :: "history \<Rightarrow> api_error + GPUCheckpoint"
  e_getpod :: "history \<Rightarrow> api_error + Pod"
  e_update :: "history \<Rightarrow> api_error + GPUCheckpoint"
  e_sched :: sched_lib

type_synonym 'a go = "(world, 'a) state"

text \<open>The environment acts, then the call is on record.\<close>

definition after_call :: "env \<Rightarrow> event \<Rightarrow> world \<Rightarrow> world" where
  "after_call E ev w =
    (let h = w_hist w @ [ev]
     in \<lparr>w_hist = h, w_files = e_interfere E h (w_files w), w_now = w_now w + int (e_elapsed E h)\<rparr>)"

definition call :: "env \<Rightarrow> event \<Rightarrow> history go" where
  "call E ev = State (\<lambda>w. (w_hist w @ [ev], after_call E ev w))"

definition now :: "go_time go" where
  "now = State (\<lambda>w. (w_now w, w))"

definition get_file :: "string \<Rightarrow> string option go" where
  "get_file p = State (\<lambda>w. (w_files w p, w))"

definition put_file :: "string \<Rightarrow> string option \<Rightarrow> unit go" where
  "put_file p c = State (\<lambda>w. ((), w\<lparr>w_files := (w_files w)(p := c)\<rparr>))"

definition put_files :: "files \<Rightarrow> unit go" where
  "put_files fs = State (\<lambda>w. ((), w\<lparr>w_files := fs\<rparr>))"

definition get_files :: "files go" where
  "get_files = State (\<lambda>w. (w_files w, w))"

lemma run_basic [simp, run_simps]:
  "run_state (call E ev) w = (w_hist w @ [ev], after_call E ev w)"
  "run_state now w = (w_now w, w)"
  "run_state (get_file p) w = (w_files w p, w)"
  "run_state (put_file p c) w = ((), w\<lparr>w_files := (w_files w)(p := c)\<rparr>)"
  "run_state (put_files fs) w = ((), w\<lparr>w_files := fs\<rparr>)"
  "run_state get_files w = (w_files w, w)"
  by (simp_all add: call_def now_def get_file_def put_file_def put_files_def get_files_def)

lemma after_call_simps [simp]:
  "w_hist (after_call E ev w) = w_hist w @ [ev]"
  "w_files (after_call E ev w) = e_interfere E (w_hist w @ [ev]) (w_files w)"
  "w_now (after_call E ev w) = w_now w + int (e_elapsed E (w_hist w @ [ev]))"
  by (simp_all add: after_call_def Let_def)

subsection \<open>System calls\<close>

definition mkdir_all :: "env \<Rightarrow> string \<Rightarrow> string option go" where
  "mkdir_all E d = do { h \<leftarrow> call E (EvMkdirAll d); State_Monad.return (e_fault E h) }"

text \<open>\<^verbatim>\<open>os.WriteFile\<close>: a failure may come before the file is truncated, or after part is written.\<close>

definition write_file :: "env \<Rightarrow> string \<Rightarrow> string \<Rightarrow> string option go" where
  "write_file E p c = do {
     h \<leftarrow> call E (EvWriteFile p c);
     case e_fault E h of
       None \<Rightarrow> do { put_file p (Some c); State_Monad.return None }
     | Some err \<Rightarrow> (case e_partial E h of
         None \<Rightarrow> State_Monad.return (Some err)
       | Some k \<Rightarrow> do { put_file p (Some (take k c)); State_Monad.return (Some err) })
   }"

definition no_such_file :: "string \<Rightarrow> string \<Rightarrow> string" where
  "no_such_file call_name p = call_name @ '' '' @ p @ '': no such file or directory''"

definition read_file :: "env \<Rightarrow> string \<Rightarrow> string or_err go" where
  "read_file E p = do {
     h \<leftarrow> call E (EvReadFile p);
     c \<leftarrow> get_file p;
     State_Monad.return (case e_fault E h of
       Some err \<Rightarrow> Inl err
     | None \<Rightarrow> (case c of None \<Rightarrow> Inl (no_such_file ''open'' p) | Some b \<Rightarrow> Inr b))
   }"

text \<open>\<^verbatim>\<open>os.Open\<close>: the content is what a reader of the descriptor sees if the name disappears.\<close>

definition open_read :: "env \<Rightarrow> string \<Rightarrow> string or_err go" where
  "open_read E p = do {
     h \<leftarrow> call E (EvOpen p);
     c \<leftarrow> get_file p;
     State_Monad.return (case e_fault E h of
       Some err \<Rightarrow> Inl err
     | None \<Rightarrow> (case c of None \<Rightarrow> Inl (no_such_file ''open'' p) | Some b \<Rightarrow> Inr b))
   }"

definition open_trunc :: "env \<Rightarrow> string \<Rightarrow> nat \<Rightarrow> string option go" where
  "open_trunc E p mode = do {
     h \<leftarrow> call E (EvCreate p mode);
     case e_fault E h of
       Some err \<Rightarrow> State_Monad.return (Some err)
     | None \<Rightarrow> do { put_file p (Some []); State_Monad.return None }
   }"

text \<open>\<^verbatim>\<open>io.Copy\<close> from an open source into a freshly truncated file.\<close>

definition copy_bytes :: "env \<Rightarrow> string \<Rightarrow> string \<Rightarrow> string \<Rightarrow> string option go" where
  "copy_bytes E src opened dst = do {
     h \<leftarrow> call E (EvCopy src dst);
     c \<leftarrow> get_file src;
     let bytes = (case c of None \<Rightarrow> opened | Some b \<Rightarrow> b);
     case e_fault E h of
       None \<Rightarrow> do { put_file dst (Some bytes); State_Monad.return None }
     | Some err \<Rightarrow> do {
         put_file dst (Some (take (case e_partial E h of None \<Rightarrow> 0 | Some k \<Rightarrow> k) bytes));
         State_Monad.return (Some err) }
   }"

definition chmod :: "env \<Rightarrow> string \<Rightarrow> nat \<Rightarrow> string option go" where
  "chmod E p mode = do { h \<leftarrow> call E (EvChmod p mode); State_Monad.return (e_fault E h) }"

text \<open>\<^verbatim>\<open>os.Stat\<close>, of which only the size is used.\<close>

definition stat_size :: "env \<Rightarrow> string \<Rightarrow> nat or_err go" where
  "stat_size E p = do {
     h \<leftarrow> call E (EvStat p);
     c \<leftarrow> get_file p;
     State_Monad.return (case e_fault E h of
       Some err \<Rightarrow> Inl err
     | None \<Rightarrow> (case c of None \<Rightarrow> Inl (no_such_file ''stat'' p) | Some b \<Rightarrow> Inr (length b)))
   }"

definition remove_file :: "env \<Rightarrow> string \<Rightarrow> string option go" where
  "remove_file E p = do {
     h \<leftarrow> call E (EvRemove p);
     c \<leftarrow> get_file p;
     case e_fault E h of
       Some err \<Rightarrow> State_Monad.return (Some err)
     | None \<Rightarrow> (case c of
         None \<Rightarrow> State_Monad.return (Some (no_such_file ''remove'' p))
       | Some b \<Rightarrow> do { put_file p None; State_Monad.return None })
   }"

definition read_dir :: "env \<Rightarrow> string \<Rightarrow> (string \<times> bool) list or_err go" where
  "read_dir E d = do { h \<leftarrow> call E (EvReadDir d); State_Monad.return (e_readdir E h) }"

definition exec_command :: "env \<Rightarrow> string list \<Rightarrow> (string \<times> string option) go" where
  "exec_command E args = do {
     h \<leftarrow> call E (EvExec args);
     fs \<leftarrow> get_files;
     put_files (snd (e_exec E h fs));
     State_Monad.return (fst (e_exec E h fs))
   }"

definition http_do :: "env \<Rightarrow> http_request \<Rightarrow> http_response or_err go" where
  "http_do E req = do {
     h \<leftarrow> call E (EvHttp req);
     fs \<leftarrow> get_files;
     put_files (snd (e_http E h fs));
     State_Monad.return (fst (e_http E h fs))
   }"

text \<open>\<^verbatim>\<open>time.Sleep\<close> takes at least the given time.\<close>

definition sleep :: "env \<Rightarrow> duration \<Rightarrow> unit go" where
  "sleep E d = State (\<lambda>w. let w' = after_call E (EvSleep d) w in ((), w'\<lparr>w_now := w_now w' + d\<rparr>))"

lemma run_sleep [simp, run_simps]:
  "run_state (sleep E d) w =
    ((), (after_call E (EvSleep d) w)\<lparr>w_now := w_now (after_call E (EvSleep d) w) + d\<rparr>)"
  by (simp add: sleep_def Let_def)

lemmas syscall_defs = mkdir_all_def write_file_def read_file_def open_read_def open_trunc_def
  copy_bytes_def chmod_def stat_size_def remove_file_def read_dir_def exec_command_def http_do_def

subsection \<open>Relations every call respects\<close>

text \<open>
  A reflexive and transitive relation between the world before and after is kept by a whole
  operation when every call in it keeps it. The locale gives the composition rules once; it
  is interpreted for the relations the components use: which calls an operation makes, which
  files it leaves alone, and that the clock never runs backwards.
\<close>

locale world_rel =
  fixes R :: "'s \<Rightarrow> 's \<Rightarrow> bool"
  assumes rel_refl: "R w w"
    and rel_trans: "R w1 w2 \<Longrightarrow> R w2 w3 \<Longrightarrow> R w1 w3"
begin

lemma rel_return: "state_io_rel R (State_Monad.return x)"
  by (simp add: state_io_rel_def rel_refl)

lemma rel_bind:
  assumes "state_io_rel R m" and "\<And>a. state_io_rel R (f a)"
  shows "state_io_rel R (State_Monad.bind m f)"
proof (rule state_io_relI)
  fix a w w'
  assume run: "run_state (State_Monad.bind m f) w = (a, w')"
  obtain b w1 where m: "run_state m w = (b, w1)" by (cases "run_state m w")
  with run have "run_state (f b) w1 = (a, w')" by simp
  with assms(2) have "R w1 w'" by blast
  moreover have "R w w1" using assms(1) m by blast
  ultimately show "R w w'" using rel_trans by blast
qed

lemma rel_option:
  assumes "x = None \<Longrightarrow> state_io_rel R m" and "\<And>a. x = Some a \<Longrightarrow> state_io_rel R (f a)"
  shows "state_io_rel R (case x of None \<Rightarrow> m | Some a \<Rightarrow> f a)"
  using assms by (cases x) auto

lemma rel_sum:
  assumes "\<And>e. x = Inl e \<Longrightarrow> state_io_rel R (g e)" and "\<And>a. x = Inr a \<Longrightarrow> state_io_rel R (f a)"
  shows "state_io_rel R (case x of Inl e \<Rightarrow> g e | Inr a \<Rightarrow> f a)"
  using assms by (cases x) auto

lemma rel_list:
  assumes "xs = [] \<Longrightarrow> state_io_rel R m" and "\<And>y ys. xs = y # ys \<Longrightarrow> state_io_rel R (f y ys)"
  shows "state_io_rel R (case xs of [] \<Rightarrow> m | y # ys \<Rightarrow> f y ys)"
  using assms by (cases xs) auto

lemma rel_prod:
  assumes "\<And>a b. x = (a, b) \<Longrightarrow> state_io_rel R (f a b)"
  shows "state_io_rel R (case x of (a, b) \<Rightarrow> f a b)"
  using assms by (cases x) auto

lemma rel_if:
  assumes "b \<Longrightarrow> state_io_rel R m" and "\<not> b \<Longrightarrow> state_io_rel R n"
  shows "state_io_rel R (if b then m else n)"
  using assms by simp

lemma rel_pure: "(\<And>w. snd (run_state m w) = w) \<Longrightarrow> state_io_rel R m"
  by (simp add: state_io_rel_def rel_refl)

lemmas rel_intros = rel_return rel_bind rel_option rel_sum rel_list rel_prod rel_if

end

text \<open>The calls an operation makes, all of a given kind.\<close>

definition calls :: "(event \<Rightarrow> bool) \<Rightarrow> world \<Rightarrow> world \<Rightarrow> bool" where
  "calls P w w' \<longleftrightarrow> (\<exists>evs. w_hist w' = w_hist w @ evs \<and> list_all P evs)"

interpretation calls_rel: world_rel "calls P" for P
proof
  fix w1 w2 w3
  assume "calls P w1 w2" and "calls P w2 w3"
  then obtain e1 e2 where "w_hist w2 = w_hist w1 @ e1" "list_all P e1"
      "w_hist w3 = w_hist w2 @ e2" "list_all P e2"
    by (auto simp: calls_def)
  then have "w_hist w3 = w_hist w1 @ (e1 @ e2) \<and> list_all P (e1 @ e2)" by simp
  then show "calls P w1 w3" unfolding calls_def by blast
qed (simp add: calls_def)

lemma calls_mono: "calls P w w' \<Longrightarrow> (\<And>e. P e \<Longrightarrow> Q e) \<Longrightarrow> calls Q w w'"
  unfolding calls_def by (metis list.pred_mono_strong)

lemma io_calls_mono: "state_io_rel (calls P) m \<Longrightarrow> (\<And>e. P e \<Longrightarrow> Q e) \<Longrightarrow> state_io_rel (calls Q) m"
  unfolding state_io_rel_def by (meson calls_mono)

text \<open>A file the operation leaves alone.\<close>

definition keeps :: "string \<Rightarrow> world \<Rightarrow> world \<Rightarrow> bool" where
  "keeps p w w' \<longleftrightarrow> w_files w' p = w_files w p"

interpretation keeps_rel: world_rel "keeps p" for p
  by unfold_locales (auto simp: keeps_def)

text \<open>Time passes, never backwards.\<close>

definition time_fwd :: "world \<Rightarrow> world \<Rightarrow> bool" where
  "time_fwd w w' \<longleftrightarrow> w_now w \<le> w_now w'"

interpretation time_rel: world_rel time_fwd
  by unfold_locales (auto simp: time_fwd_def)

text \<open>Other processes do not touch the file \<open>p\<close>.\<close>

definition rely :: "env \<Rightarrow> string \<Rightarrow> bool" where
  "rely E p \<longleftrightarrow> (\<forall>h fs. e_interfere E h fs p = fs p)"

lemma rely_interfere [simp]: "rely E p \<Longrightarrow> e_interfere E h fs p = fs p"
  by (simp add: rely_def)

lemma io_basic_calls [intro!, simp]:
  "state_io_rel (calls P) now" "state_io_rel (calls P) (get_file p)"
  "state_io_rel (calls P) (put_file p c)" "state_io_rel (calls P) (put_files fs)"
  "state_io_rel (calls P) get_files"
  by (simp_all add: state_io_rel_def calls_def)

lemma io_call: "P ev \<Longrightarrow> state_io_rel (calls P) (call E ev)"
  by (simp add: state_io_rel_def calls_def)

lemma io_sleep: "P (EvSleep d) \<Longrightarrow> state_io_rel (calls P) (sleep E d)"
  by (simp add: state_io_rel_def calls_def)

text \<open>The event a system call leaves in the history.\<close>

lemma io_syscalls:
  "P (EvMkdirAll d) \<Longrightarrow> state_io_rel (calls P) (mkdir_all E d)"
  "P (EvWriteFile p c) \<Longrightarrow> state_io_rel (calls P) (write_file E p c)"
  "P (EvReadFile p) \<Longrightarrow> state_io_rel (calls P) (read_file E p)"
  "P (EvOpen p) \<Longrightarrow> state_io_rel (calls P) (open_read E p)"
  "P (EvCreate p mode) \<Longrightarrow> state_io_rel (calls P) (open_trunc E p mode)"
  "P (EvCopy p q) \<Longrightarrow> state_io_rel (calls P) (copy_bytes E p b q)"
  "P (EvChmod p mode) \<Longrightarrow> state_io_rel (calls P) (chmod E p mode)"
  "P (EvStat p) \<Longrightarrow> state_io_rel (calls P) (stat_size E p)"
  "P (EvRemove p) \<Longrightarrow> state_io_rel (calls P) (remove_file E p)"
  "P (EvReadDir p) \<Longrightarrow> state_io_rel (calls P) (read_dir E p)"
  "P (EvExec args) \<Longrightarrow> state_io_rel (calls P) (exec_command E args)"
  "P (EvHttp req) \<Longrightarrow> state_io_rel (calls P) (http_do E req)"
  by (auto simp: syscall_defs Let_def intro!: calls_rel.rel_intros io_call)

lemma io_time:
  "state_io_rel time_fwd (call E ev)" "state_io_rel time_fwd now"
  "state_io_rel time_fwd (get_file p)" "state_io_rel time_fwd (put_file p c)"
  "state_io_rel time_fwd (put_files fs)" "state_io_rel time_fwd get_files"
  by (simp_all add: state_io_rel_def time_fwd_def)

text \<open>A system call changes no file but the one it writes.\<close>

lemma io_keeps_basic:
  "rely E p \<Longrightarrow> state_io_rel (keeps p) (call E ev)"
  "rely E p \<Longrightarrow> state_io_rel (keeps p) (sleep E d)"
  "state_io_rel (keeps p) now" "state_io_rel (keeps p) (get_file q)"
  "p \<noteq> q \<Longrightarrow> state_io_rel (keeps p) (put_file q c)"
  "state_io_rel (keeps p) get_files"
  by (simp_all add: state_io_rel_def keeps_def)

lemma io_keeps:
  assumes "rely E p"
  shows "state_io_rel (keeps p) (mkdir_all E d)"
    "p \<noteq> q \<Longrightarrow> state_io_rel (keeps p) (write_file E q c)"
    "state_io_rel (keeps p) (read_file E q)"
    "state_io_rel (keeps p) (open_read E q)"
    "p \<noteq> q \<Longrightarrow> state_io_rel (keeps p) (open_trunc E q mode)"
    "p \<noteq> q \<Longrightarrow> state_io_rel (keeps p) (copy_bytes E src b q)"
    "state_io_rel (keeps p) (chmod E q mode)"
    "state_io_rel (keeps p) (stat_size E q)"
    "p \<noteq> q \<Longrightarrow> state_io_rel (keeps p) (remove_file E q)"
    "state_io_rel (keeps p) (read_dir E q)"
  using assms
  by (auto simp: syscall_defs Let_def intro!: keeps_rel.rel_intros io_keeps_basic)

lemma keepsD: "state_io_rel (keeps p) m \<Longrightarrow> run_state m w = (a, w') \<Longrightarrow> w_files w' p = w_files w p"
  by (auto dest: state_io_relD simp: keeps_def)

subsection \<open>A quiet environment\<close>

text \<open>
  No call fails, no other process acts, every call takes one millisecond. Concrete runs start
  from it and override what they need.
\<close>

definition quiet_env :: env where
  "quiet_env = \<lparr>
     e_interfere = (\<lambda>h fs. fs), e_elapsed = (\<lambda>h. 1000000), e_fault = (\<lambda>h. None),
     e_partial = (\<lambda>h. None), e_readdir = (\<lambda>h. Inr []),
     e_exec = (\<lambda>h fs. (([], None), fs)),
     e_http = (\<lambda>h fs. (Inr \<lparr>hs_StatusCode = 200, hs_Body = []\<rparr>, fs)),
     e_urlerr = (\<lambda>u. None), e_certs = (\<lambda>pem. True), e_items = (\<lambda>b. Inr []),
     e_getcr = (\<lambda>h. Inl (NotFound ''not found'')), e_getpod = (\<lambda>h. Inl (NotFound ''not found'')),
     e_update = (\<lambda>h. Inl (NotFound ''not found'')), e_sched = no_sched\<rparr>"

definition empty_world :: world where
  "empty_world = \<lparr>w_hist = [], w_files = Map.empty, w_now = 0\<rparr>"

lemma quiet_simps [simp]:
  "e_interfere quiet_env = (\<lambda>h fs. fs)" "e_elapsed quiet_env = (\<lambda>h. 1000000)"
  "e_fault quiet_env = (\<lambda>h. None)" "e_partial quiet_env = (\<lambda>h. None)"
  "e_readdir quiet_env = (\<lambda>h. Inr [])" "e_exec quiet_env = (\<lambda>h fs. (([], None), fs))"
  "e_http quiet_env = (\<lambda>h fs. (Inr \<lparr>hs_StatusCode = 200, hs_Body = []\<rparr>, fs))"
  "e_urlerr quiet_env = (\<lambda>u. None)" "e_certs quiet_env = (\<lambda>pem. True)"
  "e_items quiet_env = (\<lambda>b. Inr [])" "e_sched quiet_env = no_sched"
  by (simp_all add: quiet_env_def)

lemma empty_world_simps [simp]:
  "w_hist empty_world = []" "w_files empty_world = Map.empty" "w_now empty_world = 0"
  by (simp_all add: empty_world_def)

end
