(* ===== verification/Interceptor_Mgr.thy ===== *)
theory Interceptor_Mgr
  imports Os_World
begin

text \<open>
  \<^verbatim>\<open>internal/agent/interceptor.go\<close>: installing the interceptor library on the node and the
  control channel to the hook in the Pod, a file the agent writes a signal number to and polls
  until the hook has reset it to idle.
\<close>

definition GCRSignalIdle :: int where "GCRSignalIdle = 0"
definition GCRSignalCkpt :: int where "GCRSignalCkpt = 1"
definition GCRSignalRestore :: int where "GCRSignalRestore = 2"
definition GCRSignalInit :: int where "GCRSignalInit = 10"

lemmas signal_numbers = GCRSignalIdle_def GCRSignalCkpt_def GCRSignalRestore_def GCRSignalInit_def

record InterceptorManager =
  im_DistDir :: string
  im_HostLibDir :: string
  im_HostRunDir :: string

definition NewInterceptorManager :: "string \<Rightarrow> string \<Rightarrow> string \<Rightarrow> InterceptorManager" where
  "NewInterceptorManager distDir hostLibDir hostRunDir =
    \<lparr>im_DistDir = distDir, im_HostLibDir = hostLibDir, im_HostRunDir = hostRunDir\<rparr>"

datatype install_error =
    CreateHostLibDir string string
  | CreateHostRunDir string string
  | InstallArtifact string string

fun install_text :: "install_error \<Rightarrow> string" where
  "install_text (CreateHostLibDir d err) = ''create host lib dir '' @ d @ '': '' @ err"
| "install_text (CreateHostRunDir d err) = ''create host run dir '' @ d @ '': '' @ err"
| "install_text (InstallArtifact n err) = ''install '' @ n @ '': '' @ err"

datatype signal_error =
    CreateControlDir string string
  | WriteControl string string

fun signal_text :: "signal_error \<Rightarrow> string" where
  "signal_text (CreateControlDir d err) = ''create control dir '' @ d @ '': '' @ err"
| "signal_text (WriteControl p err) = ''write control '' @ p @ '': '' @ err"

datatype ack_error = AckTimeout string

fun ack_text :: "ack_error \<Rightarrow> string" where
  "ack_text (AckTimeout p) = ''timeout waiting for GCR ack on '' @ p"

definition copyFile :: "env \<Rightarrow> string \<Rightarrow> string \<Rightarrow> nat \<Rightarrow> string option go" where
  "copyFile E src dst mode = do {
     r \<leftarrow> open_read E src;
     case r of
       Inl err \<Rightarrow> State_Monad.return (Some err)
     | Inr opened \<Rightarrow> do {
         r2 \<leftarrow> open_trunc E dst mode;
         case r2 of
           Some err \<Rightarrow> State_Monad.return (Some err)
         | None \<Rightarrow> do {
             r3 \<leftarrow> copy_bytes E src opened dst;
             case r3 of
               Some err \<Rightarrow> State_Monad.return (Some err)
             | None \<Rightarrow> chmod E dst mode } } }"

text \<open>\<^verbatim>\<open>0o755\<close>\<close>

definition mode_0755 :: nat where "mode_0755 = 7 * 64 + 5 * 8 + 5"

fun install_entries :: "env \<Rightarrow> InterceptorManager \<Rightarrow> (string \<times> bool) list \<Rightarrow> install_error option go" where
  "install_entries E m [] = State_Monad.return None"
| "install_entries E m ((name, isDir) # es) =
    (if isDir then install_entries E m es
     else do {
       r \<leftarrow> copyFile E (Join [im_DistDir m, name]) (Join [im_HostLibDir m, name]) mode_0755;
       case r of
         Some err \<Rightarrow> State_Monad.return (Some (InstallArtifact name err))
       | None \<Rightarrow> install_entries E m es })"

definition Install :: "env \<Rightarrow> InterceptorManager \<Rightarrow> install_error option go" where
  "Install E m = do {
     r \<leftarrow> mkdir_all E (im_HostLibDir m);
     case r of
       Some err \<Rightarrow> State_Monad.return (Some (CreateHostLibDir (im_HostLibDir m) err))
     | None \<Rightarrow> do {
         r2 \<leftarrow> mkdir_all E (im_HostRunDir m);
         case r2 of
           Some err \<Rightarrow> State_Monad.return (Some (CreateHostRunDir (im_HostRunDir m) err))
         | None \<Rightarrow> do {
             entries \<leftarrow> read_dir E (im_DistDir m);
             case entries of
               Inl err \<Rightarrow> State_Monad.return None
             | Inr es \<Rightarrow> install_entries E m es } } }"

definition Signal :: "env \<Rightarrow> InterceptorManager \<Rightarrow> string \<Rightarrow> int \<Rightarrow> signal_error option go" where
  "Signal E m key sig = (
     let dir = Join [im_HostRunDir m, key]; ctrl = Join [dir, ''control'']
     in do {
       r \<leftarrow> mkdir_all E dir;
       case r of
         Some err \<Rightarrow> State_Monad.return (Some (CreateControlDir dir err))
       | None \<Rightarrow> do {
           r2 \<leftarrow> write_file E ctrl (fmt_d sig);
           case r2 of
             Some err \<Rightarrow> State_Monad.return (Some (WriteControl ctrl err))
           | None \<Rightarrow> State_Monad.return None } })"

definition is_ack :: "string or_err \<Rightarrow> bool" where
  "is_ack r = (case r of Inl err \<Rightarrow> False | Inr b \<Rightarrow> length b = 0 \<or> b = fmt_d GCRSignalIdle)"

text \<open>
  The polling loop. Each round sleeps 50 ms, so the distance to the deadline shrinks and the
  loop ends whatever the environment does.
\<close>

function ack_loop :: "env \<Rightarrow> string \<Rightarrow> go_time \<Rightarrow> world \<Rightarrow> ack_error option \<times> world" where
  "ack_loop E ctrl deadline w =
    (if w_now w < deadline then
       (case run_state (read_file E ctrl) w of
          (b, w1) \<Rightarrow>
            if is_ack b then (None, w1)
            else ack_loop E ctrl deadline (snd (run_state (sleep E (50 * millisecond)) w1)))
     else (Some (AckTimeout ctrl), w))"
  by pat_completeness auto
termination
proof (relation "measure (\<lambda>(E, ctrl, deadline, w). nat (deadline - w_now w))", goal_cases)
  case 1
  show ?case by simp
next
  case (2 E ctrl deadline w b w1)
  have "w_now w \<le> w_now w1" using 2(2,3) by (auto simp: read_file_def)
  with 2(1) show ?case by simp
qed

declare ack_loop.simps [simp del]

definition WaitForAck :: "env \<Rightarrow> InterceptorManager \<Rightarrow> string \<Rightarrow> duration \<Rightarrow> ack_error option go" where
  "WaitForAck E m key timeout = (
     let ctrl = Join [im_HostRunDir m, key, ''control'']
     in State (\<lambda>w. ack_loop E ctrl (w_now w + timeout) w))"

subsection \<open>The control channel\<close>

definition ctrl_path :: "InterceptorManager \<Rightarrow> string \<Rightarrow> string" where
  "ctrl_path m key = Join [im_HostRunDir m, key, ''control'']"

lemma path_elem_control [simp]: "path_elem ''control''"
  by (simp add: path_elem_def slash_def)

text \<open>The agent writes and polls the same file.\<close>

lemma Signal_path [simp]: "Join [Join [im_HostRunDir m, key], ''control''] = ctrl_path m key"
  by (simp add: Join_assoc ctrl_path_def)

text \<open>The signals an operation has tried to write to a control file, in order.\<close>

fun signals_to :: "string \<Rightarrow> history \<Rightarrow> string list" where
  "signals_to p [] = []"
| "signals_to p (EvWriteFile q c # h) = (if q = p then c # signals_to p h else signals_to p h)"
| "signals_to p (_ # h) = signals_to p h"

lemma signals_to_append [simp]: "signals_to p (h @ h') = signals_to p h @ signals_to p h'"
  by (induction p h rule: signals_to.induct) auto

lemma signals_to_none: "list_all (\<lambda>e. \<forall>c. e \<noteq> EvWriteFile p c) h \<Longrightarrow> signals_to p h = []"
  by (induction p h rule: signals_to.induct) auto

definition channel_event :: "InterceptorManager \<Rightarrow> string \<Rightarrow> event \<Rightarrow> bool" where
  "channel_event m key ev \<longleftrightarrow>
    (case ev of
       EvMkdirAll d \<Rightarrow> d = Join [im_HostRunDir m, key]
     | EvWriteFile p c \<Rightarrow> p = ctrl_path m key
     | EvReadFile p \<Rightarrow> p = ctrl_path m key
     | EvSleep d \<Rightarrow> True
     | _ \<Rightarrow> False)"

lemma Signal_calls: "state_io_rel (calls (channel_event m key)) (Signal E m key sig)"
  unfolding Signal_def Let_def
  by (intro calls_rel.rel_intros io_syscalls) (simp_all add: channel_event_def)

lemma ack_loop_calls: "calls (\<lambda>e. e = EvReadFile ctrl \<or> (\<exists>d. e = EvSleep d)) w (snd (ack_loop E ctrl deadline w))"
proof (induction E ctrl deadline w rule: ack_loop.induct)
  case (1 E ctrl deadline w)
  let ?P = "\<lambda>e. e = EvReadFile ctrl \<or> (\<exists>d. e = EvSleep d)"
  obtain b w1 where r: "run_state (read_file E ctrl) w = (b, w1)" by fastforce
  have c1: "calls ?P w w1" using r by (auto simp: calls_def read_file_def)
  have c2: "calls ?P w1 (snd (run_state (sleep E (50 * millisecond)) w1))" by (simp add: calls_def)
  show ?case
  proof (cases "w_now w < deadline \<and> \<not> is_ack b")
    case True
    have "calls ?P (snd (run_state (sleep E (50 * millisecond)) w1))
        (snd (ack_loop E ctrl deadline (snd (run_state (sleep E (50 * millisecond)) w1))))"
      using "1.IH" [OF _ r [symmetric]] True by simp
    with c1 c2 have "calls ?P w
        (snd (ack_loop E ctrl deadline (snd (run_state (sleep E (50 * millisecond)) w1))))"
      using calls_rel.rel_trans by blast
    with True r show ?thesis by (subst ack_loop.simps) simp
  next
    case False
    with r c1 calls_rel.rel_refl show ?thesis by (subst ack_loop.simps) auto
  qed
qed

lemma run_WaitForAck [run_simps]:
  "run_state (WaitForAck E m key timeout) w = ack_loop E (ctrl_path m key) (w_now w + timeout) w"
  by (simp add: WaitForAck_def ctrl_path_def)

lemma WaitForAck_calls: "state_io_rel (calls (channel_event m key)) (WaitForAck E m key timeout)"
  unfolding state_io_rel_def run_WaitForAck
  by (auto intro: calls_mono [OF ack_loop_calls] simp: channel_event_def)

text \<open>What a successful signal leaves behind.\<close>

lemma Signal_ok:
  assumes "run_state (Signal E m key sig) w = (None, w')"
  shows "w_files w' (ctrl_path m key) = Some (fmt_d sig)"
    and "w_hist w' = w_hist w @ [EvMkdirAll (Join [im_HostRunDir m, key]), EvWriteFile (ctrl_path m key) (fmt_d sig)]"
  using assms by (auto simp: Signal_def Let_def syscall_defs split: option.splits)

lemma Signal_hist:
  "\<exists>evs. w_hist (snd (run_state (Signal E m key sig) w)) = w_hist w @ EvMkdirAll (Join [im_HostRunDir m, key]) # evs
    \<and> evs \<in> {[], [EvWriteFile (ctrl_path m key) (fmt_d sig)]}"
  by (auto simp: Signal_def Let_def syscall_defs split: option.splits)

lemma read_file_ack:
  assumes "run_state (read_file E p) w = (b, w')" and "is_ack b"
  shows "w_files w' p \<in> {Some [], Some (fmt_d GCRSignalIdle)}"
  using assms by (auto simp: read_file_def is_ack_def split: option.splits)

lemma read_file_hist:
  "run_state (read_file E p) w = (b, w') \<Longrightarrow> w_hist w' = w_hist w @ [EvReadFile p]"
  by (auto simp: read_file_def)

lemma ack_loop_ok:
  "ack_loop E ctrl deadline w = (None, w') \<Longrightarrow>
    w_files w' ctrl \<in> {Some [], Some (fmt_d GCRSignalIdle)} \<and> last (w_hist w') = EvReadFile ctrl"
proof (induction E ctrl deadline w rule: ack_loop.induct)
  case (1 E ctrl deadline w)
  obtain b w1 where r: "run_state (read_file E ctrl) w = (b, w1)" by fastforce
  have lt: "w_now w < deadline" using "1.prems" by (subst (asm) ack_loop.simps) (auto split: if_splits)
  show ?case
  proof (cases "is_ack b")
    case True
    with lt r "1.prems" have "w' = w1" by (subst (asm) ack_loop.simps) simp
    with True r show ?thesis using read_file_ack [OF r] read_file_hist [OF r] by simp
  next
    case False
    with lt r "1.prems" have
      "ack_loop E ctrl deadline (snd (run_state (sleep E (50 * millisecond)) w1)) = (None, w')"
      by (subst (asm) ack_loop.simps) simp
    with "1.IH" [OF lt r [symmetric] False] show ?thesis by blast
  qed
qed

lemma ack_loop_timeout:
  "ack_loop E ctrl deadline w = (Some e, w') \<Longrightarrow> e = AckTimeout ctrl \<and> deadline \<le> w_now w'"
proof (induction E ctrl deadline w rule: ack_loop.induct)
  case (1 E ctrl deadline w)
  obtain b w1 where r: "run_state (read_file E ctrl) w = (b, w1)" by fastforce
  show ?case
  proof (cases "w_now w < deadline")
    case True
    then have nb: "\<not> is_ack b" using r "1.prems" by (subst (asm) ack_loop.simps) auto
    with True r "1.prems" have
      "ack_loop E ctrl deadline (snd (run_state (sleep E (50 * millisecond)) w1)) = (Some e, w')"
      by (subst (asm) ack_loop.simps) simp
    with "1.IH" [OF True r [symmetric] nb] show ?thesis by blast
  next
    case False
    with "1.prems" show ?thesis by (subst (asm) ack_loop.simps) auto
  qed
qed

text \<open>The number of reads of the control file, from the length of the history.\<close>

lemma ack_loop_reads:
  "int (length (w_hist (snd (ack_loop E ctrl deadline w)))) * (50 * millisecond)
    \<le> int (length (w_hist w)) * (50 * millisecond) + 2 * max 0 (deadline - w_now w + 50 * millisecond)"
proof (induction E ctrl deadline w rule: ack_loop.induct)
  case (1 E ctrl deadline w)
  obtain b w1 where r: "run_state (read_file E ctrl) w = (b, w1)" by fastforce
  let ?w2 = "snd (run_state (sleep E (50 * millisecond)) w1)"
  have h: "w_hist w1 = w_hist w @ [EvReadFile ctrl]" by (rule read_file_hist [OF r])
  have t: "w_now w \<le> w_now w1" using r by (auto simp: read_file_def)
  show ?case
  proof (cases "w_now w < deadline \<and> \<not> is_ack b")
    case True
    have eq: "ack_loop E ctrl deadline w = ack_loop E ctrl deadline ?w2"
      using True r by (subst ack_loop.simps) simp
    have l2: "int (length (w_hist ?w2)) = int (length (w_hist w)) + 2" using h by simp
    have "w_now ?w2 \<ge> w_now w + 50 * millisecond" using t by simp
    then have "max 0 (deadline - w_now ?w2 + 50 * millisecond) \<le> deadline - w_now w"
      using True by simp
    moreover have "max 0 (deadline - w_now w + 50 * millisecond) = deadline - w_now w + 50 * millisecond"
      using True by simp
    ultimately show ?thesis
      using "1.IH" [OF conjunct1 [OF True] r [symmetric] conjunct2 [OF True]] l2 unfolding eq
      by (simp del: run_sleep add: max_def split: if_splits)
  next
    case False
    show ?thesis
    proof (cases "w_now w < deadline")
      case True
      with False r have "ack_loop E ctrl deadline w = (None, w1)" by (subst ack_loop.simps) auto
      with h True show ?thesis by (simp add: algebra_simps)
    next
      case late: False
      then have "ack_loop E ctrl deadline w = (Some (AckTimeout ctrl), w)"
        by (subst ack_loop.simps) simp
      then show ?thesis by simp
    qed
  qed
qed

text \<open>
  A hook that answers within \<open>n\<close> polls is heard, when \<open>n\<close> polls fit in the timeout: no call
  takes longer than \<open>d\<close>, and after \<open>2 * n\<close> further calls a read of the control file finds
  the idle signal.
\<close>

definition answers_after :: "env \<Rightarrow> string \<Rightarrow> nat \<Rightarrow> bool" where
  "answers_after E ctrl k \<longleftrightarrow>
    (\<forall>h fs. k \<le> length h \<longrightarrow>
      e_fault E (h @ [EvReadFile ctrl]) = None \<and>
      e_interfere E (h @ [EvReadFile ctrl]) fs ctrl = Some (fmt_d GCRSignalIdle))"

lemma ack_loop_heard:
  assumes "answers_after E ctrl (length (w_hist w) + 2 * n)" and "\<And>h. int (e_elapsed E h) \<le> d"
    and "int n * (50 * millisecond + 2 * d) < deadline - w_now w"
  shows "fst (ack_loop E ctrl deadline w) = None"
  using assms
proof (induction n arbitrary: w)
  case 0
  then have "is_ack (fst (run_state (read_file E ctrl) w))"
    by (simp add: read_file_def answers_after_def is_ack_def)
  with 0 show ?case by (subst ack_loop.simps) (auto split: prod.splits)
next
  case (Suc n)
  obtain b w1 where r: "run_state (read_file E ctrl) w = (b, w1)" by fastforce
  let ?w2 = "snd (run_state (sleep E (50 * millisecond)) w1)"
  have h: "w_hist w1 = w_hist w @ [EvReadFile ctrl]" by (rule read_file_hist [OF r])
  have "w_now w1 = w_now w + int (e_elapsed E (w_hist w1))" using r by (auto simp: read_file_def)
  then have t: "w_now ?w2 \<le> w_now w + (50 * millisecond + 2 * d)"
    using Suc.prems(2) [of "w_hist w1"] Suc.prems(2) [of "w_hist w1 @ [EvSleep (50 * millisecond)]"] by simp
  have "0 \<le> int (Suc n) * (50 * millisecond + 2 * d)"
    using Suc.prems(2) [of "[]"] by simp
  then have lt: "w_now w < deadline" using Suc.prems(3) by linarith
  have "fst (ack_loop E ctrl deadline ?w2) = None"
    using Suc.prems h t by (intro Suc.IH) (simp_all add: algebra_simps)
  with lt r show ?case by (subst ack_loop.simps) auto
qed

subsection \<open>Copying files\<close>

lemma copyFile_ok:
  assumes "rely E src" and "rely E dst" and "src \<noteq> dst"
    and "run_state (copyFile E src dst mode) w = (None, w')"
  shows "w_files w src \<noteq> None" and "w_files w' dst = w_files w src" and "w_files w' src = w_files w src"
  using assms by (auto simp: copyFile_def syscall_defs Let_def split: option.splits sum.splits)

lemma copyFile_keeps:
  assumes "rely E p" and "p \<noteq> dst"
  shows "state_io_rel (keeps p) (copyFile E src dst mode)"
  unfolding copyFile_def using assms
  by (intro keeps_rel.rel_intros io_keeps) simp_all

lemma copyFile_calls:
  assumes "P (EvOpen src)" and "P (EvCreate dst mode)" and "P (EvCopy src dst)" and "P (EvChmod dst mode)"
  shows "state_io_rel (calls P) (copyFile E src dst mode)"
  unfolding copyFile_def using assms
  by (intro calls_rel.rel_intros io_syscalls) simp_all

text \<open>Opening the destination truncates it, so a file copied onto itself is lost.\<close>

lemma copyFile_self:
  assumes "rely E p" and "run_state (copyFile E p p mode) w = (None, w')"
  shows "w_files w' p = Some []"
  using assms by (auto simp: copyFile_def syscall_defs Let_def split: option.splits sum.splits)

subsection \<open>Installing the library\<close>

definition dist_file :: "InterceptorManager \<Rightarrow> string \<Rightarrow> string" where
  "dist_file m name = Join [im_DistDir m, name]"

definition lib_file :: "InterceptorManager \<Rightarrow> string \<Rightarrow> string" where
  "lib_file m name = Join [im_HostLibDir m, name]"

text \<open>Directory entries with usable names, and two directories that are not the same one.\<close>

definition install_ok :: "InterceptorManager \<Rightarrow> (string \<times> bool) list \<Rightarrow> bool" where
  "install_ok m es \<longleftrightarrow>
    is_abs (im_DistDir m) \<and> is_abs (im_HostLibDir m) \<and>
    elems (im_DistDir m) \<noteq> elems (im_HostLibDir m) \<and>
    (\<forall>(n, d)\<in>set es. path_elem n) \<and> distinct (map fst es)"

lemma dist_lib_apart:
  assumes "is_abs (im_DistDir m)" and "is_abs (im_HostLibDir m)"
    and "elems (im_DistDir m) \<noteq> elems (im_HostLibDir m)" and "path_elem x" and "path_elem y"
  shows "dist_file m x \<noteq> lib_file m y"
proof
  assume "dist_file m x = lib_file m y"
  with assms have "abs_path (elems (im_DistDir m) @ [x]) = abs_path (elems (im_HostLibDir m) @ [y])"
    by (simp add: dist_file_def lib_file_def Join_abs)
  moreover have "\<forall>z\<in>set (elems (im_DistDir m) @ [x]). path_elem z"
    "\<forall>z\<in>set (elems (im_HostLibDir m) @ [y]). path_elem z"
    using assms elems_abs_proper by auto
  ultimately show False using abs_path_inj assms(3) by blast
qed

lemma install_entries_keeps:
  assumes "rely E p" and "\<And>n. (n, False) \<in> set es \<Longrightarrow> p \<noteq> lib_file m n"
  shows "state_io_rel (keeps p) (install_entries E m es)"
  using assms
proof (induction E m es rule: install_entries.induct)
  case (1 E m)
  then show ?case by (simp add: keeps_rel.rel_return)
next
  case (2 E m name isDir es)
  show ?case
  proof (cases isDir)
    case False
    with 2 have "p \<noteq> Join [im_HostLibDir m, name]" by (auto simp: lib_file_def)
    with 2 False show ?thesis
      by (auto intro!: keeps_rel.rel_intros copyFile_keeps)
  qed (use 2 in auto)
qed

lemma install_entries_ok:
  assumes "install_ok m es" and "\<And>n d. (n, d) \<in> set es \<Longrightarrow> rely E (dist_file m n) \<and> rely E (lib_file m n)"
    and "run_state (install_entries E m es) w = (None, w')" and "(n, False) \<in> set es"
  shows "w_files w' (lib_file m n) = w_files w (dist_file m n) \<and> w_files w (dist_file m n) \<noteq> None"
  using assms
proof (induction E m es arbitrary: w rule: install_entries.induct)
  case (2 E m name isDir es)
  have ok: "install_ok m es" using "2.prems"(1) by (auto simp: install_ok_def)
  have rel: "\<And>n d. (n, d) \<in> set es \<Longrightarrow> rely E (dist_file m n) \<and> rely E (lib_file m n)"
    using "2.prems"(2) by auto
  have pe: "path_elem n" "path_elem name" using "2.prems"(1,4) by (auto simp: install_ok_def)
  show ?case
  proof (cases isDir)
    case True
    with "2.prems"(3,4) "2.IH"(1) [OF True ok rel] show ?thesis by auto
  next
    case False
    obtain r w1 where c: "run_state (copyFile E (dist_file m name) (lib_file m name) mode_0755) w = (r, w1)"
      by fastforce
    with False "2.prems"(3) have r: "r = None" and rest: "run_state (install_entries E m es) w1 = (None, w')"
      by (auto simp: dist_file_def lib_file_def split: option.splits)
    have apart: "\<And>x y. path_elem x \<Longrightarrow> path_elem y \<Longrightarrow> dist_file m x \<noteq> lib_file m y"
      using "2.prems"(1) dist_lib_apart by (auto simp: install_ok_def)
    have nm: "rely E (dist_file m name)" "rely E (lib_file m name)" using "2.prems"(2) by auto
    note cp = copyFile_ok [OF nm apart [OF pe(2) pe(2)] c [unfolded r]]
    show ?thesis
    proof (cases "(n, False) \<in> set es")
      case True
      have "w_files w1 (dist_file m n) = w_files w (dist_file m n)"
        using keepsD [OF copyFile_keeps c] rel True apart pe by blast
      with "2.IH"(2) [OF False ok rel rest True] show ?thesis by simp
    next
      case notin: False
      with "2.prems"(4) have n: "n = name" by auto
      have "w_files w' (lib_file m name) = w_files w1 (lib_file m name)"
      proof (rule keepsD [OF install_entries_keeps rest])
        show "rely E (lib_file m name)" by (rule nm(2))
        fix x assume x: "(x, False) \<in> set es"
        with "2.prems"(1) have "x \<noteq> name" "path_elem x" by (force simp: install_ok_def)+
        with "2.prems"(1) pe(2) show "lib_file m name \<noteq> lib_file m x"
          unfolding lib_file_def install_ok_def by (metis Join_abs_inj)
      qed
      with cp n show ?thesis by simp
    qed
  qed
qed simp

subsection \<open>The interface the pipeline relies on\<close>

text \<open>The signals written to a control file between two points of a run.\<close>

definition sent :: "string \<Rightarrow> world \<Rightarrow> world \<Rightarrow> string list" where
  "sent p w w' = signals_to p (drop (length (w_hist w)) (w_hist w'))"

lemma sent_trans:
  assumes "calls P w1 w2" and "calls Q w2 w3"
  shows "sent p w1 w3 = sent p w1 w2 @ sent p w2 w3"
  using assms by (auto simp: calls_def sent_def)

lemma sent_none:
  assumes "calls P w w'" and "\<And>c. \<not> P (EvWriteFile p c)"
  shows "sent p w w' = []"
proof -
  obtain evs where evs: "w_hist w' = w_hist w @ evs" "list_all P evs"
    using assms(1) by (auto simp: calls_def)
  then have "list_all (\<lambda>e. \<forall>c. e \<noteq> EvWriteFile p c) evs"
    using assms(2) by (auto simp: list_all_iff)
  with evs(1) show ?thesis by (simp add: sent_def signals_to_none)
qed

text \<open>
  A channel to the hook: signalling writes one number, waiting writes nothing, and a wait that
  succeeds found the channel idle.
\<close>

locale hook_channel =
  fixes sig :: "string \<Rightarrow> int \<Rightarrow> 'e option go"
    and wait :: "string \<Rightarrow> duration \<Rightarrow> 'f option go"
    and chan :: "string \<Rightarrow> string"
    and chan_ev :: "string \<Rightarrow> event \<Rightarrow> bool"
  assumes sig_calls: "state_io_rel (calls (chan_ev k)) (sig k n)"
    and wait_calls: "state_io_rel (calls (chan_ev k)) (wait k t)"
    and sig_done: "run_state (sig k n) w = (None, w') \<Longrightarrow>
      w_files w' (chan k) = Some (fmt_d n) \<and> sent (chan k) w w' = [fmt_d n]"
    and sig_tried: "run_state (sig k n) w = (r, w') \<Longrightarrow> sent (chan k) w w' \<in> {[], [fmt_d n]}"
    and wait_quiet: "run_state (wait k t) w = (s, w') \<Longrightarrow> sent (chan k) w w' = []"
    and wait_idle: "run_state (wait k t) w = (None, w') \<Longrightarrow>
      w_files w' (chan k) \<in> {Some [], Some (fmt_d GCRSignalIdle)}"
begin

text \<open>One phase: a signal and then its acknowledgement.\<close>

lemma phase_done:
  assumes "run_state (sig k n) w = (None, w1)" and "run_state (wait k t) w1 = (None, w2)"
  shows "sent (chan k) w w2 = [fmt_d n] \<and> w_files w2 (chan k) \<in> {Some [], Some (fmt_d GCRSignalIdle)}"
proof -
  have "sent (chan k) w w2 = sent (chan k) w w1 @ sent (chan k) w1 w2"
    by (rule sent_trans [OF state_io_relD [OF sig_calls assms(1)] state_io_relD [OF wait_calls assms(2)]])
  then show ?thesis using sig_done [OF assms(1)] wait_quiet [OF assms(2)] wait_idle [OF assms(2)] by simp
qed

lemma phase_calls:
  assumes "run_state (sig k n) w = (r, w1)" and "run_state (wait k t) w1 = (s, w2)"
  shows "calls (chan_ev k) w w2"
proof -
  have "calls (chan_ev k) w w1" using state_io_relD [OF sig_calls assms(1)] .
  moreover have "calls (chan_ev k) w1 w2" using state_io_relD [OF wait_calls assms(2)] .
  ultimately show ?thesis by (rule calls_rel.rel_trans)
qed

end

lemma Signal_sent:
  "run_state (Signal E m key sig) w = (r, w') \<Longrightarrow> sent (ctrl_path m key) w w' \<in> {[], [fmt_d sig]}"
  using Signal_hist [of E m key sig w] by (auto simp: sent_def)

lemma WaitForAck_sent:
  "run_state (WaitForAck E m key t) w = (r, w') \<Longrightarrow> sent (ctrl_path m key) w w' = []"
proof -
  assume "run_state (WaitForAck E m key t) w = (r, w')"
  then have "w' = snd (ack_loop E (ctrl_path m key) (w_now w + t) w)" by (simp add: run_WaitForAck)
  then have "calls (\<lambda>e. e = EvReadFile (ctrl_path m key) \<or> (\<exists>d. e = EvSleep d)) w w'"
    using ack_loop_calls by simp
  then show ?thesis by (rule sent_none) simp
qed

interpretation gcr_hook: hook_channel "Signal E m" "WaitForAck E m" "ctrl_path m" "channel_event m" for E m
proof
  fix k n t w w' and r :: "signal_error option" and s :: "ack_error option"
  show "state_io_rel (calls (channel_event m k)) (Signal E m k n)" by (rule Signal_calls)
  show "state_io_rel (calls (channel_event m k)) (WaitForAck E m k t)" by (rule WaitForAck_calls)
  show "w_files w' (ctrl_path m k) = Some (fmt_d n) \<and> sent (ctrl_path m k) w w' = [fmt_d n]"
    if "run_state (Signal E m k n) w = (None, w')"
    using Signal_ok [OF that] by (simp add: sent_def)
  show "sent (ctrl_path m k) w w' \<in> {[], [fmt_d n]}" if "run_state (Signal E m k n) w = (r, w')"
    by (rule Signal_sent [OF that])
  show "sent (ctrl_path m k) w w' = []" if "run_state (WaitForAck E m k t) w = (s, w')"
    by (rule WaitForAck_sent [OF that])
  show "w_files w' (ctrl_path m k) \<in> {Some [], Some (fmt_d GCRSignalIdle)}"
    if "run_state (WaitForAck E m k t) w = (None, w')"
    using that ack_loop_ok by (simp add: run_WaitForAck)
qed

subsection \<open>Properties\<close>

text \<open>A hook that answers every poll of a control file with idle.\<close>

definition prompt_hook :: env where
  "prompt_hook = quiet_env\<lparr>e_interfere := (\<lambda>h fs. case last h of
     EvReadFile p \<Rightarrow> fs(p := Some ''0'') | _ \<Rightarrow> fs)\<rparr>"

definition node_manager :: InterceptorManager where
  "node_manager = NewInterceptorManager ''/dist'' ''/var/lib/gpu-cr/lib'' ''/var/lib/gpu-cr/run''"

lemma prompt_hook_simps [simp]:
  "e_fault prompt_hook = (\<lambda>h. None)" "e_elapsed prompt_hook = (\<lambda>h. 1000000)"
  "e_interfere prompt_hook (h @ [EvReadFile p]) fs = fs(p := Some ''0'')"
  "e_interfere prompt_hook (h @ [EvMkdirAll d]) fs = fs"
  "e_interfere prompt_hook (h @ [EvWriteFile q c]) fs = fs"
  by (simp_all add: prompt_hook_def)

lemma node_manager_simps [simp]:
  "im_DistDir node_manager = ''/dist''" "im_HostLibDir node_manager = ''/var/lib/gpu-cr/lib''"
  "im_HostRunDir node_manager = ''/var/lib/gpu-cr/run''"
  by (simp_all add: node_manager_def NewInterceptorManager_def)

lemma idle_text: "fmt_d GCRSignalIdle = ''0''"
  by code_simp

lemma prompt_hook_answers: "answers_after prompt_hook p k"
  by (simp add: answers_after_def idle_text)

text \<open>C28: When \<^verbatim>\<open>Signal\<close> and the following \<^verbatim>\<open>WaitForAck\<close> both succeed, exactly one signal, the one
  asked for, was written to the workload's control file, and the file now reads idle (or is
  empty, which the code also takes for idle).\<close>

theorem control_handshake:
  assumes "run_state (Signal E m key sig) w = (None, w1)"
    and "run_state (WaitForAck E m key timeout) w1 = (None, w2)"
  shows "sent (ctrl_path m key) w w2 = [fmt_d sig] \<and>
    w_files w2 (ctrl_path m key) \<in> {Some [], Some (fmt_d GCRSignalIdle)}"
  by (rule gcr_hook.phase_done [OF assms])

lemma prompt_hook_signal:
  "fst (run_state (Signal prompt_hook m key sig) w) = None"
  by (simp add: Signal_def Let_def syscall_defs)

lemma prompt_hook_ack:
  "0 < t \<Longrightarrow> fst (run_state (WaitForAck prompt_hook m key t) w) = None"
  using ack_loop_heard [OF prompt_hook_answers, where w = w and n = 0 and d = "1000000" and deadline = "w_now w + t"]
  by (simp add: run_WaitForAck)

theorem control_handshake_witness:
  "\<exists>w1 w2. run_state (Signal prompt_hook node_manager ''uid'' GCRSignalCkpt) empty_world = (None, w1) \<and>
    run_state (WaitForAck prompt_hook node_manager ''uid'' (120 * second)) w1 = (None, w2) \<and>
    sent (ctrl_path node_manager ''uid'') empty_world w2 = [fmt_d GCRSignalCkpt]"
proof -
  obtain w1 where 1: "run_state (Signal prompt_hook node_manager ''uid'' GCRSignalCkpt) empty_world = (None, w1)"
    using prompt_hook_signal by (metis prod.collapse)
  obtain w2 where 2: "run_state (WaitForAck prompt_hook node_manager ''uid'' (120 * second)) w1 = (None, w2)"
    using prompt_hook_ack [of "120 * second"] by (metis prod.collapse zero_less_numeral zero_less_mult_iff)
  show ?thesis using control_handshake [OF 1 2] 1 2 by blast
qed

text \<open>C29: \<^verbatim>\<open>WaitForAck\<close> always returns. A failure is the timeout error for the control file and
  comes only when the timeout has elapsed; whatever the hook does, at most
  \<open>2 * (timeout / 50 ms + 1)\<close> calls (reads and sleeps) are made.\<close>

theorem WaitForAck_bounded:
  "case run_state (WaitForAck E m key timeout) w of
     (r, w') \<Rightarrow>
       (case r of None \<Rightarrow> True | Some e \<Rightarrow> e = AckTimeout (ctrl_path m key) \<and> w_now w + timeout \<le> w_now w') \<and>
       int (length (w_hist w') - length (w_hist w)) * (50 * millisecond) \<le> 2 * max 0 (timeout + 50 * millisecond)"
proof -
  obtain r w' where run: "run_state (WaitForAck E m key timeout) w = (r, w')" by fastforce
  then have loop: "ack_loop E (ctrl_path m key) (w_now w + timeout) w = (r, w')"
    by (simp add: run_WaitForAck)
  have "length (w_hist w) \<le> length (w_hist w')"
    using ack_loop_calls [of "ctrl_path m key" w E "w_now w + timeout"] loop by (auto simp: calls_def)
  then have "int (length (w_hist w') - length (w_hist w)) * (50 * millisecond) \<le> 2 * max 0 (timeout + 50 * millisecond)"
    using ack_loop_reads [of E "ctrl_path m key" "w_now w + timeout" w] loop by simp
  moreover have "case r of None \<Rightarrow> True | Some e \<Rightarrow> e = AckTimeout (ctrl_path m key) \<and> w_now w + timeout \<le> w_now w'"
    using ack_loop_timeout loop by (auto split: option.splits)
  ultimately show ?thesis using run by simp
qed

text \<open>An acknowledgement that comes in time is not missed. If no call takes longer than
  \<open>d\<close>, and from the \<open>n\<close>-th poll on a read of the control file finds idle, and \<open>n\<close> polls fit
  in the timeout, \<^verbatim>\<open>WaitForAck\<close> returns without an error.\<close>

theorem WaitForAck_heard:
  assumes "answers_after E (ctrl_path m key) (length (w_hist w) + 2 * n)"
    and "\<And>h. int (e_elapsed E h) \<le> d"
    and "int n * (50 * millisecond + 2 * d) < timeout"
  shows "fst (run_state (WaitForAck E m key timeout) w) = None"
  unfolding run_WaitForAck by (rule ack_loop_heard [OF assms(1,2)]) (use assms(3) in auto)

theorem WaitForAck_heard_witness:
  "fst (run_state (WaitForAck prompt_hook node_manager ''uid'' (120 * second)) empty_world) = None"
  by (rule WaitForAck_heard [OF prompt_hook_answers, where d = "1000000" and n = 3]) simp_all

text \<open>A successful \<^verbatim>\<open>Install\<close> over a readable distribution directory leaves in the host
  library directory, for every regular entry, exactly the bytes the image ships, provided no
  other process touches these files.\<close>

theorem Install_copies:
  assumes "run_state (Install E m) w = (None, w')"
    and "e_readdir E (w_hist w @ [EvMkdirAll (im_HostLibDir m), EvMkdirAll (im_HostRunDir m), EvReadDir (im_DistDir m)]) = Inr es"
    and "install_ok m es"
    and "\<And>n d. (n, d) \<in> set es \<Longrightarrow> rely E (dist_file m n) \<and> rely E (lib_file m n)"
    and "(n, False) \<in> set es"
  shows "w_files w' (lib_file m n) = w_files w (dist_file m n) \<and> w_files w (dist_file m n) \<noteq> None"
proof -
  let ?w1 = "after_call E (EvReadDir (im_DistDir m)) (after_call E (EvMkdirAll (im_HostRunDir m))
    (after_call E (EvMkdirAll (im_HostLibDir m)) w))"
  have "run_state (install_entries E m es) ?w1 = (None, w')"
    using assms(1,2) by (auto simp: Install_def syscall_defs split: option.splits sum.splits)
  from install_entries_ok [OF assms(3,4) this assms(5)] show ?thesis
    using assms(4) [OF assms(5)] by simp
qed

text \<open>A node where the image ships one library and a directory.\<close>

definition dist_env :: env where
  "dist_env = quiet_env\<lparr>e_readdir := (\<lambda>h. Inr [(''doc'', True), (''libcuda.so'', False)])\<rparr>"

definition dist_world :: world where
  "dist_world = empty_world\<lparr>w_files := [''/dist/libcuda.so'' \<mapsto> ''ELF'']\<rparr>"

lemma elems_node_dirs: "elems ''/dist'' = [''dist'']"
  "elems ''/var/lib/gpu-cr/lib'' = [''var'', ''lib'', ''gpu-cr'', ''lib'']"
  by code_simp+

lemma node_files:
  "path_elem n \<Longrightarrow> dist_file node_manager n = ''/dist/'' @ n"
  "path_elem n \<Longrightarrow> lib_file node_manager n = ''/var/lib/gpu-cr/lib/'' @ n"
  by (simp_all add: dist_file_def lib_file_def Join_abs elems_node_dirs abs_path_def slash_def)

lemma node_install_ok: "install_ok node_manager [(''doc'', True), (''libcuda.so'', False)]"
  by (simp add: install_ok_def elems_node_dirs path_elem_def slash_def)

theorem Install_copies_witness:
  "fst (run_state (Install dist_env node_manager) dist_world) = None \<and>
    w_files (snd (run_state (Install dist_env node_manager) dist_world)) ''/var/lib/gpu-cr/lib/libcuda.so'' = Some ''ELF''"
proof -
  have lib: "path_elem ''libcuda.so''" by (simp add: path_elem_def slash_def)
  have run: "fst (run_state (Install dist_env node_manager) dist_world) = None"
    by (simp add: Install_def syscall_defs copyFile_def Let_def dist_env_def dist_world_def
        node_files [OF lib, unfolded dist_file_def lib_file_def, simplified])
  then obtain w' where w': "run_state (Install dist_env node_manager) dist_world = (None, w')"
    by (metis prod.collapse)
  have "w_files w' (lib_file node_manager ''libcuda.so'') = w_files dist_world (dist_file node_manager ''libcuda.so'')"
    using Install_copies [OF w' _ node_install_ok, where n = "''libcuda.so''"]
    by (simp add: dist_env_def rely_def)
  with w' run show ?thesis by (simp add: node_files [OF lib] dist_world_def)
qed

end
