(* ===== verification/Kubelet.thy ===== *)
theory Kubelet
  imports Os_World
begin

text \<open>
  \<^verbatim>\<open>internal/agent/kubelet.go\<close>: the client of the kubelet's container-checkpoint endpoint.
  Parsing certificates and decoding the JSON reply are library code, given by the
  environment (\<open>e_certs\<close>, \<open>e_items\<close>); the reply's \<^verbatim>\<open>items\<close> is the only field used.
\<close>

record tls_Config =
  tls_InsecureSkipVerify :: bool
  tls_RootCAs :: "string option"

record http_Client =
  hc_Timeout :: duration
  hc_TLSClientConfig :: tls_Config

record KubeletClient =
  kc_BaseURL :: string
  kc_Token :: string
  kc_http :: http_Client

datatype client_error =
    ReadKubeletCA string string
  | NoValidCerts string

fun client_text :: "client_error \<Rightarrow> string" where
  "client_text (ReadKubeletCA f err) = ''read kubelet CA '' @ f @ '': '' @ err"
| "client_text (NoValidCerts f) = ''no valid certs in kubelet CA '' @ f"

definition kubelet_client :: "string \<Rightarrow> string \<Rightarrow> duration \<Rightarrow> tls_Config \<Rightarrow> KubeletClient" where
  "kubelet_client baseURL token timeout cfg =
    \<lparr>kc_BaseURL = TrimRightByte baseURL slash, kc_Token = token,
     kc_http = \<lparr>hc_Timeout = timeout, hc_TLSClientConfig = cfg\<rparr>\<rparr>"

definition NewKubeletClient ::
  "env \<Rightarrow> string \<Rightarrow> string \<Rightarrow> string \<Rightarrow> bool \<Rightarrow> duration \<Rightarrow> (client_error + KubeletClient) go" where
  "NewKubeletClient E baseURL token caFile insecure timeout = (
     let tlsCfg = \<lparr>tls_InsecureSkipVerify = insecure, tls_RootCAs = None\<rparr>
     in if \<not> insecure \<and> caFile \<noteq> [] then do {
          r \<leftarrow> read_file E caFile;
          case r of
            Inl err \<Rightarrow> State_Monad.return (Inl (ReadKubeletCA caFile err))
          | Inr pem \<Rightarrow>
              if \<not> e_certs E pem then State_Monad.return (Inl (NoValidCerts caFile))
              else State_Monad.return (Inr (kubelet_client baseURL token timeout (tlsCfg\<lparr>tls_RootCAs := Some pem\<rparr>)))
        }
        else State_Monad.return (Inr (kubelet_client baseURL token timeout tlsCfg)))"

subsection \<open>The checkpoint call\<close>

datatype kubelet_error =
    BadURL string
  | KubeletCall string
  | KubeletStatus int string
  | KubeletDecode string string
  | KubeletNoArchive

fun kubelet_text :: "kubelet_error \<Rightarrow> string" where
  "kubelet_text (BadURL err) = err"
| "kubelet_text (KubeletCall err) = ''kubelet checkpoint call: '' @ err"
| "kubelet_text (KubeletStatus code body) = ''kubelet checkpoint returned '' @ fmt_d code @ '': '' @ body"
| "kubelet_text (KubeletDecode body err) = ''decode kubelet response '' @ fmt_q body @ '': '' @ err"
| "kubelet_text KubeletNoArchive = ''kubelet returned no checkpoint archive''"

definition checkpoint_url :: "KubeletClient \<Rightarrow> string \<Rightarrow> string \<Rightarrow> string \<Rightarrow> string" where
  "checkpoint_url k namespace pod container =
    kc_BaseURL k @ ''/checkpoint/'' @ namespace @ ''/'' @ pod @ ''/'' @ container"

definition checkpoint_request :: "KubeletClient \<Rightarrow> string \<Rightarrow> string \<Rightarrow> string \<Rightarrow> http_request" where
  "checkpoint_request k namespace pod container =
    \<lparr>hr_Method = ''POST'', hr_URL = checkpoint_url k namespace pod container,
     hr_Header = (if kc_Token k \<noteq> [] then [(''Authorization'', ''Bearer '' @ kc_Token k)] else [])
       @ [(''Accept'', ''application/json'')]\<rparr>"

definition StatusOK :: int where
  "StatusOK = 200"

definition KubeletClient_Checkpoint ::
  "env \<Rightarrow> KubeletClient \<Rightarrow> string \<Rightarrow> string \<Rightarrow> string \<Rightarrow> (kubelet_error + string list) go" where
  "KubeletClient_Checkpoint E k namespace pod container =
    (case e_urlerr E (checkpoint_url k namespace pod container) of
       Some err \<Rightarrow> State_Monad.return (Inl (BadURL err))
     | None \<Rightarrow> do {
         resp \<leftarrow> http_do E (checkpoint_request k namespace pod container);
         State_Monad.return (case resp of
           Inl err \<Rightarrow> Inl (KubeletCall err)
         | Inr rs \<Rightarrow>
             if hs_StatusCode rs \<noteq> StatusOK then Inl (KubeletStatus (hs_StatusCode rs) (TrimSpace (hs_Body rs)))
             else (case e_items E (hs_Body rs) of
               Inl err \<Rightarrow> Inl (KubeletDecode (hs_Body rs) err)
             | Inr items \<Rightarrow> if length items = 0 then Inl KubeletNoArchive else Inr items)) })"

lemma KubeletClient_Checkpoint_calls:
  "P (EvHttp (checkpoint_request k ns p c)) \<Longrightarrow> state_io_rel (calls P) (KubeletClient_Checkpoint E k ns p c)"
  unfolding KubeletClient_Checkpoint_def
  by (intro calls_rel.rel_intros io_syscalls)

text \<open>What a checkpoint call reads as success.\<close>

definition good_reply :: "env \<Rightarrow> http_response or_err \<Rightarrow> string list \<Rightarrow> bool" where
  "good_reply E r items \<longleftrightarrow>
    (case r of Inl err \<Rightarrow> False
     | Inr rs \<Rightarrow> hs_StatusCode rs = StatusOK \<and> e_items E (hs_Body rs) = Inr items \<and> items \<noteq> [])"

subsection \<open>Properties\<close>

text \<open>The kubelet call succeeds exactly when the URL is well formed and the reply to its single
  POST request has status 200 and decodes to a non-empty list of archives, which is then what
  the call returns; an ill-formed URL sends nothing.\<close>

theorem kubelet_success:
  "case run_state (KubeletClient_Checkpoint E k ns pod c) w of
     (r, w') \<Rightarrow>
       (\<forall>items. (r = Inr items) =
         (e_urlerr E (checkpoint_url k ns pod c) = None \<and>
          good_reply E (fst (run_state (http_do E (checkpoint_request k ns pod c)) w)) items)) \<and>
       w_hist w' = w_hist w @
         (if e_urlerr E (checkpoint_url k ns pod c) = None then [EvHttp (checkpoint_request k ns pod c)] else [])"
  by (auto simp: KubeletClient_Checkpoint_def good_reply_def http_do_def
      split: option.splits sum.splits)

text \<open>A client that was built verifies the kubelet's certificate unless it was told not to; with
  a CA file it trusts exactly the certificates of that file; its base URL does not end in a
  slash, so that the request path starts with a single one.\<close>

theorem NewKubeletClient_tls:
  assumes "run_state (NewKubeletClient E baseURL token caFile insecure timeout) w = (Inr k, w')"
  shows "tls_InsecureSkipVerify (hc_TLSClientConfig (kc_http k)) = insecure \<and>
    (case tls_RootCAs (hc_TLSClientConfig (kc_http k)) of
       None \<Rightarrow> insecure \<or> caFile = []
     | Some pem \<Rightarrow> \<not> insecure \<and> caFile \<noteq> [] \<and> e_certs E pem \<and> w_files w' caFile = Some pem) \<and>
    (kc_BaseURL k = [] \<or> last (kc_BaseURL k) \<noteq> slash) \<and> kc_Token k = token"
proof -
  have "TrimRightByte baseURL slash = [] \<or> last (TrimRightByte baseURL slash) \<noteq> slash"
    using TrimRightByte_last by blast
  with assms show ?thesis
    by (auto simp: NewKubeletClient_def kubelet_client_def Let_def read_file_def
        split: if_splits sum.splits option.splits)
qed

theorem NewKubeletClient_tls_witness:
  "\<exists>k w'. run_state (NewKubeletClient quiet_env ''https://127.0.0.1:10250/'' ''tok'' ''/ca'' False 0)
      (empty_world\<lparr>w_files := [''/ca'' \<mapsto> ''PEM'']\<rparr>) = (Inr k, w') \<and>
    tls_RootCAs (hc_TLSClientConfig (kc_http k)) = Some ''PEM'' \<and> \<not> tls_InsecureSkipVerify (hc_TLSClientConfig (kc_http k))"
proof -
  let ?w = "empty_world\<lparr>w_files := [''/ca'' \<mapsto> ''PEM'']\<rparr>"
  let ?k = "kubelet_client ''https://127.0.0.1:10250/'' ''tok'' 0
    \<lparr>tls_InsecureSkipVerify = False, tls_RootCAs = Some ''PEM''\<rparr>"
  obtain w' where run: "run_state (NewKubeletClient quiet_env ''https://127.0.0.1:10250/'' ''tok'' ''/ca'' False 0) ?w = (Inr ?k, w')"
    by (simp add: NewKubeletClient_def read_file_def)
  from NewKubeletClient_tls [OF run] run show ?thesis by (auto simp: kubelet_client_def)
qed

end
