(* ===== verification/Mounts.thy ===== *)
theory Mounts
  imports Os_World "HOL-Library.Sublist"
begin

text \<open>
  The mount helpers of \<^verbatim>\<open>internal/agent/checkpoint.go\<close>: reading \<^verbatim>\<open>/proc/mounts\<close>, refusing paths
  that live on the container's overlay root, and mounting a file backend on demand.
\<close>

definition backslash :: char where
  "backslash = CHR 0x5C"

definition mount_escapes :: "(string \<times> string) list" where
  "mount_escapes =
    [(backslash # ''040'', '' ''), (backslash # ''011'', [CHR 0x09]),
     (backslash # ''012'', [CHR 0x0A]), (backslash # ''134'', [backslash])]"

definition unescapeMount :: "string \<Rightarrow> string" where
  "unescapeMount s = replace_all mount_escapes s"

definition sanitizeMount :: "string \<Rightarrow> string" where
  "sanitizeMount s =
    TrimByte (replace_all [(''/'', ''_''), ('':'', ''_''), ('' '', ''_'')] s) (CHR ''_'')"

definition proc_mounts :: string where
  "proc_mounts = ''/proc/mounts''"

definition mounted_in :: "string \<Rightarrow> string \<Rightarrow> bool" where
  "mounted_in table p =
    list_ex (\<lambda>line. let fields = Fields line
        in 2 \<le> length fields \<and> Clean (unescapeMount (fields ! 1)) = p) (scan_lines table)"

definition isMountpoint :: "env \<Rightarrow> string \<Rightarrow> bool go" where
  "isMountpoint E path = do {
     f \<leftarrow> open_read E proc_mounts;
     State_Monad.return (case f of Inl err \<Rightarrow> False | Inr table \<Rightarrow> mounted_in table (Clean path)) }"

subsection \<open>Refusing the overlay root\<close>

definition covers :: "string \<Rightarrow> string \<Rightarrow> bool" where
  "covers mp p \<longleftrightarrow> mp = ''/'' \<or> mp = p \<or> HasPrefix (p @ ''/'') (mp @ ''/'')"

fun best_mount :: "string \<Rightarrow> string list \<Rightarrow> string \<times> string \<Rightarrow> string \<times> string" where
  "best_mount p [] (best, bestFs) = (best, bestFs)"
| "best_mount p (line # lines) (best, bestFs) =
    (let fields = Fields line
     in if length fields < 3 then best_mount p lines (best, bestFs)
        else let mp = Clean (unescapeMount (fields ! 1))
             in if covers mp p \<and> length best \<le> length mp
                then best_mount p lines (mp, fields ! 2)
                else best_mount p lines (best, bestFs))"

datatype real_mount_error = NotMountedVolume string string

fun real_mount_text :: "real_mount_error \<Rightarrow> string" where
  "real_mount_text (NotMountedVolume p best) =
    ''storage path '' @ fmt_q p @ '' is not a mounted volume '' @ [CHR 0xE2, CHR 0x80, CHR 0x94]
    @ '' it maps to the agent'' @ [CHR 0x27] @ ''s ephemeral container filesystem (overlay '' @ fmt_q best
    @ ''). Declare a volume for this path in the DaemonSet, or use spec.storage.type: mount/nfs''"

definition ensureRealMount :: "env \<Rightarrow> string \<Rightarrow> real_mount_error option go" where
  "ensureRealMount E path = do {
     f \<leftarrow> open_read E proc_mounts;
     State_Monad.return (case f of
       Inl err \<Rightarrow> None
     | Inr table \<Rightarrow>
         (let p = Clean path; (best, bestFs) = best_mount p (scan_lines table) ([], [])
          in if best = ''/'' \<and> (bestFs = ''overlay'' \<or> bestFs = ''overlayfs'')
             then Some (NotMountedVolume p best) else None)) }"

subsection \<open>Mounting on demand\<close>

datatype mount_error =
    MountDir string
  | MountFallback string string string string
  | MountFailed string string string string string
  | NotAMountpoint string

fun mount_text :: "mount_error \<Rightarrow> string" where
  "mount_text (MountDir err) = err"
| "mount_text (MountFallback err out err2 out2) =
    ''mount failed: '' @ err @ '': '' @ out @ ''; fallback: '' @ err2 @ '': '' @ out2"
| "mount_text (MountFailed fsType source mnt err out) =
    ''mount -t '' @ fsType @ '' '' @ source @ '' '' @ mnt @ '' failed: '' @ err @ '': '' @ out"
| "mount_text (NotAMountpoint mnt) = ''mount reported success but '' @ mnt @ '' is not a mountpoint''"

definition mount_args :: "string \<Rightarrow> string \<Rightarrow> string \<Rightarrow> string \<Rightarrow> string list" where
  "mount_args fsType source options mnt =
    [''mount'', ''-t'', fsType] @ (if TrimSpace options \<noteq> [] then [''-o'', options] else []) @ [source, mnt]"

definition check_mounted :: "env \<Rightarrow> string \<Rightarrow> mount_error option go" where
  "check_mounted E mnt = do {
     ok \<leftarrow> isMountpoint E mnt;
     State_Monad.return (if \<not> ok then Some (NotAMountpoint mnt) else None) }"

definition ensureMounted :: "env \<Rightarrow> string \<Rightarrow> string \<Rightarrow> string \<Rightarrow> string \<Rightarrow> mount_error option go" where
  "ensureMounted E fsType source options mnt = do {
     already \<leftarrow> isMountpoint E mnt;
     if already then State_Monad.return None
     else do {
       r \<leftarrow> mkdir_all E mnt;
       case r of
         Some err \<Rightarrow> State_Monad.return (Some (MountDir err))
       | None \<Rightarrow> do {
           res \<leftarrow> exec_command E (mount_args fsType source options mnt);
           case snd res of
             None \<Rightarrow> check_mounted E mnt
           | Some err \<Rightarrow>
               if fsType = ''nfs'' \<or> fsType = ''nfs4'' then do {
                 res2 \<leftarrow> exec_command E [''mount'', ''-t'', fsType, source, mnt];
                 case snd res2 of
                   Some err2 \<Rightarrow> State_Monad.return (Some (MountFallback err (TrimSpace (fst res)) err2 (TrimSpace (fst res2))))
                 | None \<Rightarrow> check_mounted E mnt }
               else State_Monad.return (Some (MountFailed fsType source mnt err (TrimSpace (fst res)))) } } }"

subsection \<open>Escapes round trip\<close>

text \<open>The escapes the kernel writes for mountpoints in \<^verbatim>\<open>/proc/mounts\<close>.\<close>

definition escape_char :: "char \<Rightarrow> string" where
  "escape_char c =
    (if c = CHR '' '' then backslash # ''040''
     else if c = CHR 0x09 then backslash # ''011''
     else if c = CHR 0x0A then backslash # ''012''
     else if c = backslash then backslash # ''134''
     else [c])"

definition escapeMount :: "string \<Rightarrow> string" where
  "escapeMount s = concat (map escape_char s)"

lemma unescape_escape_char: "unescapeMount (escape_char c @ s) = c # unescapeMount s"
proof (cases "c = CHR '' '' \<or> c = CHR 0x09 \<or> c = CHR 0x0A \<or> c = backslash")
  case True
  then show ?thesis
    by (elim disjE)
       (simp_all add: unescapeMount_def escape_char_def mount_escapes_def backslash_def replace_all_Cons HasPrefix_def)
next
  case False
  then show ?thesis
    by (simp add: unescapeMount_def escape_char_def mount_escapes_def backslash_def replace_all_Cons HasPrefix_def)
qed

lemma unescape_escape: "unescapeMount (escapeMount s) = s"
proof (induction s)
  case Nil
  then show ?case by (simp add: unescapeMount_def escapeMount_def)
next
  case (Cons c s)
  have "escapeMount (c # s) = escape_char c @ escapeMount s" by (simp add: escapeMount_def)
  with Cons show ?case by (simp add: unescape_escape_char)
qed

subsection \<open>Covering is by path elements\<close>

lemma split_abs_slash:
  assumes "\<forall>x\<in>set cs. path_elem x" and "cs \<noteq> []"
  shows "split_byte slash (abs_path cs @ slash # t) = [] # cs @ split_byte slash t"
  using assms by (simp add: split_byte_append_gen split_abs_path path_elem_def)

lemma covers_iff_prefix:
  assumes ms: "\<forall>x\<in>set ms. path_elem x" and ps: "\<forall>x\<in>set ps. path_elem x"
  shows "covers (abs_path ms) (abs_path ps) \<longleftrightarrow> prefix ms ps"
proof (cases "ms = []")
  case True
  then show ?thesis by (simp add: covers_def abs_path_def slash_def)
next
  case ne: False
  have root: "abs_path ms \<noteq> ''/''"
    using ne ms abs_path_inj [of ms "[]"] by (auto simp: abs_path_def slash_def)
  show ?thesis
  proof
    assume "covers (abs_path ms) (abs_path ps)"
    then consider "abs_path ms = abs_path ps"
      | t where "abs_path ps @ [slash] = abs_path ms @ slash # t"
      using root by (auto simp: covers_def HasPrefix_iff slash_def)
    then show "prefix ms ps"
    proof cases
      case 1
      then show ?thesis using abs_path_inj [OF ms ps] by simp
    next
      case 2
      have "split_byte slash (abs_path ps @ [slash]) = [] # ms @ split_byte slash t"
        using 2 split_abs_slash [OF ms ne, of t] by simp
      moreover have "split_byte slash (abs_path ps @ [slash]) = [] # (if ps = [] then [[]] else ps) @ [[]]"
        using ps by (simp add: split_byte_append_gen split_abs_path path_elem_def)
      ultimately have eq: "(if ps = [] then [[]] else ps) @ [[]] = ms @ split_byte slash t" by simp
      have "split_byte slash t \<noteq> []" by simp
      with eq have pre: "prefix ms (if ps = [] then [[]] else ps)"
        by (metis append_butlast_last_id append_assoc butlast_append butlast_snoc prefixI)
      show ?thesis
      proof (cases "ps = []")
        case True
        with pre ne have "ms = [[]]" by (auto simp: prefix_Cons)
        with ms show ?thesis by (simp add: path_elem_def)
      qed (use pre in simp)
    qed
  next
    assume "prefix ms ps"
    then obtain qs where qs: "ps = ms @ qs" by (auto simp: prefix_def)
    show "covers (abs_path ms) (abs_path ps)"
    proof (cases "qs = []")
      case True
      with qs show ?thesis by (simp add: covers_def)
    next
      case False
      have "join_slash (ms @ qs) = join_slash ms @ slash # join_slash qs"
        using ne False by (induction ms rule: join_slash.induct) (auto simp: neq_Nil_conv)
      with qs show ?thesis by (auto simp: covers_def HasPrefix_iff abs_path_def slash_def)
    qed
  qed
qed

subsection \<open>The best mount\<close>

definition mount_entries :: "string \<Rightarrow> (string \<times> string) list" where
  "mount_entries table =
    map (\<lambda>line. (Clean (unescapeMount (Fields line ! 1)), Fields line ! 2))
      (filter (\<lambda>line. 3 \<le> length (Fields line)) (scan_lines table))"

definition covering :: "string \<Rightarrow> (string \<times> string) list \<Rightarrow> (string \<times> string) list" where
  "covering p es = filter (\<lambda>(mp, fs). covers mp p) es"

fun best_entry :: "(string \<times> string) list \<Rightarrow> string \<times> string \<Rightarrow> string \<times> string" where
  "best_entry [] b = b"
| "best_entry (e # es) b = best_entry es (if length (fst b) \<le> length (fst e) then e else b)"

lemma best_mount_entry:
  "best_mount p (scan_lines table) b = best_entry (covering p (mount_entries table)) b"
proof -
  have "best_mount p lines b = best_entry (covering p (map (\<lambda>line. (Clean (unescapeMount (Fields line ! 1)), Fields line ! 2))
      (filter (\<lambda>line. 3 \<le> length (Fields line)) lines))) b" for lines
    by (induction p lines b rule: best_mount.induct) (auto simp: covering_def Let_def)
  then show ?thesis by (simp add: mount_entries_def)
qed

lemma best_entry_mono: "length (fst b) \<le> length (fst (best_entry es b))"
  by (induction es b rule: best_entry.induct) (auto intro: order_trans split: if_splits)

lemma best_entry_max: "e \<in> set es \<Longrightarrow> length (fst e) \<le> length (fst (best_entry es b))"
proof (induction es b rule: best_entry.induct)
  case (2 e' es b)
  show ?case
  proof (cases "e = e'")
    case True
    with best_entry_mono [of e es] best_entry_mono [of b es] show ?thesis by auto
  qed (use 2 in auto)
qed simp

lemma best_entry_flat:
  "\<forall>e\<in>set es. fst e = m \<Longrightarrow> length (fst b) \<le> length m \<Longrightarrow> best_entry es b = (if es = [] then b else last es)"
  by (induction es b rule: best_entry.induct) auto

lemma covers_abs:
  assumes "is_abs path"
  shows "covers (Clean x) (Clean path) \<longleftrightarrow> is_abs x \<and> prefix (elems x) (elems path)"
proof (cases "is_abs x")
  case True
  with assms show ?thesis
    using covers_iff_prefix [OF elems_abs_proper elems_abs_proper, of x path] by (simp add: Clean_abs)
next
  case False
  then have "\<not> is_abs (Clean x)" by (simp add: is_abs_Clean_iff)
  moreover have "is_abs (Clean path)" using assms by (simp add: is_abs_Clean_iff)
  ultimately have "\<not> covers (Clean x) (Clean path)"
    by (cases "Clean x"; cases "Clean path") (auto simp: covers_def is_abs_def HasPrefix_def slash_def)
  with False show ?thesis by simp
qed

lemma Clean_root: "is_abs x \<Longrightarrow> Clean x = ''/'' \<longleftrightarrow> elems x = []"
  using abs_path_inj [OF elems_abs_proper [of x], of "[]"]
  by (auto simp: Clean_abs abs_path_def slash_def)

lemma length_abs_path: "\<forall>x\<in>set cs. path_elem x \<Longrightarrow> cs \<noteq> [] \<Longrightarrow> 2 \<le> length (abs_path cs)"
  using join_slash_nonempty [of cs] by (cases "join_slash cs") (auto simp: abs_path_def path_elem_def)

text \<open>
  A path is on the overlay root: every mount that covers it is a root mount, and the last
  of them, the one on top, is an overlay.
\<close>

definition on_overlay :: "(string \<times> string) list \<Rightarrow> string \<Rightarrow> bool" where
  "on_overlay es path =
    (let cs = filter (\<lambda>(mp, fs). is_abs mp \<and> prefix (elems mp) (elems path)) es
     in cs \<noteq> [] \<and> (\<forall>(mp, fs)\<in>set cs. elems mp = []) \<and> snd (last cs) \<in> {''overlay'', ''overlayfs''})"

lemma covering_clean:
  assumes "is_abs path" and "\<forall>(mp, fs)\<in>set es. Clean mp = mp"
  shows "covering (Clean path) es = filter (\<lambda>(mp, fs). is_abs mp \<and> prefix (elems mp) (elems path)) es"
  unfolding covering_def
proof (rule filter_cong)
  fix e assume "e \<in> set es"
  then obtain mp fs where e: "e = (mp, fs)" "Clean mp = mp" using assms(2) by (cases e) auto
  show "(case e of (mp, fs) \<Rightarrow> covers mp (Clean path)) = (case e of (mp, fs) \<Rightarrow> is_abs mp \<and> prefix (elems mp) (elems path))"
    using covers_abs [OF assms(1), of mp] e by simp
qed simp

lemma best_overlay:
  assumes abs: "is_abs path" and clean: "\<forall>(mp, fs)\<in>set es. Clean mp = mp"
  shows "(case best_entry (covering (Clean path) es) ([], []) of
      (best, bestFs) \<Rightarrow> best = ''/'' \<and> (bestFs = ''overlay'' \<or> bestFs = ''overlayfs'')) = on_overlay es path"
proof -
  let ?cs = "filter (\<lambda>(mp, fs). is_abs mp \<and> prefix (elems mp) (elems path)) es"
  have cov: "covering (Clean path) es = ?cs" by (rule covering_clean [OF assms])
  have mem: "is_abs mp" "Clean mp = mp" if "(mp, fs) \<in> set ?cs" for mp fs using that clean by auto
  show ?thesis
  proof (cases "\<forall>(mp, fs)\<in>set ?cs. elems mp = []")
    case True
    have "fst e = ''/''" if e: "e \<in> set ?cs" for e
      using True e mem [of "fst e" "snd e"] Clean_root [of "fst e"] by (auto split: prod.splits)
    then have "best_entry ?cs ([], []) = (if ?cs = [] then ([], []) else last ?cs)"
      and "?cs \<noteq> [] \<Longrightarrow> fst (last ?cs) = ''/''"
      using best_entry_flat [of ?cs "''/''" "([], [])"] last_in_set [of ?cs] by auto
    with True show ?thesis
      unfolding cov on_overlay_def Let_def by (cases "?cs = []") (auto simp: case_prod_unfold)
  next
    case False
    then obtain mp fs where e: "(mp, fs) \<in> set ?cs" "elems mp \<noteq> []" by auto
    have "2 \<le> length mp"
      using length_abs_path [OF elems_abs_proper e(2)] mem [OF e(1)] by (simp add: Clean_abs)
    with best_entry_max [OF e(1), of "([], [])"] have "fst (best_entry ?cs ([], [])) \<noteq> ''/''" by auto
    with False show ?thesis unfolding cov on_overlay_def Let_def by (auto simp: case_prod_unfold)
  qed
qed

subsection \<open>A table as the kernel prints it\<close>

record mount =
  mt_dev :: string
  mt_point :: string
  mt_type :: string
  mt_opts :: string

definition mount_line :: "mount \<Rightarrow> string" where
  "mount_line t = mt_dev t @ '' '' @ escapeMount (mt_point t) @ '' '' @ mt_type t @ '' '' @ mt_opts t @ '' 0 0''"

definition print_mounts :: "mount list \<Rightarrow> string" where
  "print_mounts ts = concat (map (\<lambda>t. mount_line t @ [CHR 0x0A]) ts)"

definition word_ok :: "string \<Rightarrow> bool" where
  "word_ok s \<longleftrightarrow> s \<noteq> [] \<and> ws_free s"

definition mount_ok :: "mount \<Rightarrow> bool" where
  "mount_ok t \<longleftrightarrow> word_ok (mt_dev t) \<and> word_ok (escapeMount (mt_point t)) \<and> word_ok (mt_type t) \<and>
    word_ok (mt_opts t) \<and> is_abs (mt_point t) \<and> Clean (mt_point t) = mt_point t \<and> length (mount_line t) < 65536"

lemma ws_enc_space: "e \<in> set ws_encodings \<Longrightarrow> CHR '' '' \<notin> set (tl e)"
  by (auto simp: ws_encodings_def)

lemma enc_width_zero_iff: "(\<forall>e\<in>set encs. e \<noteq> []) \<Longrightarrow> enc_width encs s = 0 \<longleftrightarrow> (\<forall>e\<in>set encs. \<not> HasPrefix s e)"
  by (induction encs) auto

lemma ws_width_before_space:
  assumes "x \<noteq> []" and "ws_width x = 0"
  shows "ws_width (x @ CHR '' '' # b) = 0"
proof -
  have "\<not> HasPrefix (x @ CHR '' '' # b) e" if e: "e \<in> set ws_encodings" for e
  proof
    assume pre: "HasPrefix (x @ CHR '' '' # b) e"
    have nx: "\<not> HasPrefix x e"
      using assms(2) e ws_encodings_nonempty by (simp add: ws_width_def enc_width_zero_iff)
    from pre obtain t where t: "x @ CHR '' '' # b = e @ t" by (auto simp: HasPrefix_iff)
    then have "length x < length e"
      using nx by (auto simp: append_eq_append_conv2 HasPrefix_iff Cons_eq_append_conv)
    with t obtain u where "e = x @ CHR '' '' # u"
      by (auto simp: append_eq_append_conv2 Cons_eq_append_conv)
    with assms(1) have "CHR '' '' \<in> set (tl e)" by (cases x) auto
    with ws_enc_space [OF e] show False by simp
  qed
  then show ?thesis using ws_encodings_nonempty by (simp add: ws_width_def enc_width_zero_iff)
qed

lemma ws_width_space: "ws_width (CHR '' '' # b) = 1"
  by (simp add: ws_width_def ws_encodings_def HasPrefix_def)

lemma fields_word:
  "ws_free a \<Longrightarrow> cur @ a \<noteq> [] \<Longrightarrow> fields_from cur (a @ CHR '' '' # b) = (cur @ a) # fields_from [] b"
proof (induction a arbitrary: cur)
  case Nil
  then show ?case using ws_width_space [of b] by (subst fields_from.simps) simp
next
  case (Cons c a)
  have "ws_width (c # a @ CHR '' '' # b) = 0" using ws_width_before_space [of "c # a" b] Cons.prems(1) by simp
  with Cons show ?case by (subst fields_from.simps) simp
qed

lemma Fields_word: "word_ok a \<Longrightarrow> Fields (a @ CHR '' '' # b) = a # Fields b"
  unfolding Fields_def word_ok_def using fields_word [of a "[]" b] by simp

lemma Fields_mount_line:
  assumes "mount_ok t"
  shows "Fields (mount_line t) = [mt_dev t, escapeMount (mt_point t), mt_type t, mt_opts t, ''0'', ''0'']"
proof -
  have "ws_free ''0''" by code_simp
  then have z: "word_ok ''0''" and e: "Fields ''0'' = [''0'']"
    by (simp_all add: word_ok_def Fields_ws_free)
  have "Fields (CHR ''0'' # CHR '' '' # ''0'') = [''0'', ''0'']"
    using Fields_word [OF z, of "''0''"] e by simp
  with assms show ?thesis by (simp add: mount_line_def mount_ok_def Fields_word)
qed

lemma ws_free_no_newline: "ws_free s \<Longrightarrow> CHR 0x0A \<notin> set s"
  by (induction s) (auto simp: ws_width_def ws_encodings_def HasPrefix_def split: if_splits)

lemma mount_line_no_newline: "mount_ok t \<Longrightarrow> CHR 0x0A \<notin> set (mount_line t)"
  by (auto simp: mount_line_def mount_ok_def word_ok_def dest: ws_free_no_newline)

lemma scan_print_mounts:
  assumes "\<forall>t\<in>set ts. mount_ok t"
  shows "scan_lines (print_mounts ts) = map mount_line ts"
proof -
  have split: "split_byte (CHR 0x0A) (print_mounts ts) = map mount_line ts @ [[]]"
    using assms by (induction ts) (auto simp: print_mounts_def split_byte_append mount_line_no_newline)
  have "drop_cr (mount_line t) = mount_line t" for t
    by (simp add: drop_cr_def mount_line_def)
  moreover have tw: "takeWhile (\<lambda>l. length l < 65536) (map mount_line ts) = map mount_line ts"
    using assms by (intro takeWhile_all) (auto simp: mount_ok_def)
  ultimately show ?thesis by (simp add: scan_lines_def Let_def split tw)
qed

lemma entries_print_mounts:
  assumes "\<forall>t\<in>set ts. mount_ok t"
  shows "mount_entries (print_mounts ts) = map (\<lambda>t. (mt_point t, mt_type t)) ts"
  using assms
  by (auto simp: mount_entries_def scan_print_mounts Fields_mount_line filter_map o_def unescape_escape mount_ok_def)

lemma mounted_print_mounts:
  assumes "\<forall>t\<in>set ts. mount_ok t"
  shows "mounted_in (print_mounts ts) p \<longleftrightarrow> p \<in> mt_point ` set ts"
  using assms
  by (auto simp: mounted_in_def scan_print_mounts list_ex_iff Fields_mount_line unescape_escape mount_ok_def)

lemma ensureRealMount_printed:
  assumes "is_abs path" and "\<forall>t\<in>set ts. mount_ok t"
    and "w_files (after_call E (EvOpen proc_mounts) w) proc_mounts = Some (print_mounts ts)"
    and "e_fault E (w_hist w @ [EvOpen proc_mounts]) = None"
  shows "fst (run_state (ensureRealMount E path) w) \<noteq> None \<longleftrightarrow>
    on_overlay (map (\<lambda>t. (mt_point t, mt_type t)) ts) path"
proof -
  let ?es = "map (\<lambda>t. (mt_point t, mt_type t)) ts"
  have "\<forall>(mp, fs)\<in>set ?es. Clean mp = mp" using assms(2) by (auto simp: mount_ok_def)
  from best_overlay [OF assms(1) this] show ?thesis
    using assms(3,4) entries_print_mounts [OF assms(2)]
    by (auto simp: ensureRealMount_def open_read_def best_mount_entry Let_def split: prod.splits)
qed

subsection \<open>What mounting does\<close>

definition mount_event :: "string \<Rightarrow> string \<Rightarrow> string \<Rightarrow> string \<Rightarrow> event \<Rightarrow> bool" where
  "mount_event fsType source options mnt ev \<longleftrightarrow>
    ev = EvOpen proc_mounts \<or> ev = EvMkdirAll mnt \<or>
    ev = EvExec (mount_args fsType source options mnt) \<or> ev = EvExec [''mount'', ''-t'', fsType, source, mnt]"

lemma isMountpoint_calls: "P (EvOpen proc_mounts) \<Longrightarrow> state_io_rel (calls P) (isMountpoint E p)"
  unfolding isMountpoint_def by (intro calls_rel.rel_intros io_syscalls)

lemma ensureRealMount_calls: "P (EvOpen proc_mounts) \<Longrightarrow> state_io_rel (calls P) (ensureRealMount E p)"
  unfolding ensureRealMount_def by (intro calls_rel.rel_intros io_syscalls)

lemma ensureMounted_calls:
  "state_io_rel (calls (mount_event fsType source options mnt)) (ensureMounted E fsType source options mnt)"
  unfolding ensureMounted_def check_mounted_def
  by (intro calls_rel.rel_intros io_syscalls isMountpoint_calls) (simp_all add: mount_event_def)

lemma isMountpoint_true:
  assumes "run_state (isMountpoint E p) w = (True, w')"
  shows "w_hist w' = w_hist w @ [EvOpen proc_mounts]"
    and "\<exists>table. w_files w' proc_mounts = Some table \<and> mounted_in table (Clean p)"
  using assms by (auto simp: isMountpoint_def open_read_def split: option.splits sum.splits)

lemma isMountpoint_hist: "run_state (isMountpoint E p) w = (b, w') \<Longrightarrow> w_hist w' = w_hist w @ [EvOpen proc_mounts]"
  by (auto simp: isMountpoint_def open_read_def)

lemma check_mounted_ok:
  assumes "run_state (check_mounted E mnt) w = (None, w')"
  shows "\<exists>table. w_files w' proc_mounts = Some table \<and> mounted_in table (Clean mnt)"
proof -
  obtain b w1 where r: "run_state (isMountpoint E mnt) w = (b, w1)" by fastforce
  with assms have "b" "w' = w1" by (auto simp: check_mounted_def split: if_splits)
  with isMountpoint_true(2) [of E mnt w w1] r show ?thesis by simp
qed

lemma check_mounted_hist: "run_state (check_mounted E mnt) w = (r, w') \<Longrightarrow> w_hist w' = w_hist w @ [EvOpen proc_mounts]"
  by (cases "run_state (isMountpoint E mnt) w") (auto simp: check_mounted_def dest: isMountpoint_hist)

fun execs :: "history \<Rightarrow> string list list" where
  "execs [] = []"
| "execs (EvExec args # h) = args # execs h"
| "execs (_ # h) = execs h"

lemma execs_append [simp]: "execs (h @ h') = execs h @ execs h'"
  by (induction h rule: execs.induct) auto

text \<open>The mount commands a run may have issued.\<close>

definition mount_tries :: "string \<Rightarrow> string \<Rightarrow> string \<Rightarrow> string \<Rightarrow> string list list set" where
  "mount_tries fsType source options mnt =
    {[], [mount_args fsType source options mnt]} \<union>
    (if fsType = ''nfs'' \<or> fsType = ''nfs4''
     then {[mount_args fsType source options mnt, [''mount'', ''-t'', fsType, source, mnt]]} else {})"

lemma ensureMounted_run:
  assumes "run_state (ensureMounted E fsType source options mnt) w = (r, w')"
  shows "execs (drop (length (w_hist w)) (w_hist w')) \<in> mount_tries fsType source options mnt \<and>
    (r = None \<longrightarrow> (\<exists>table. w_files w' proc_mounts = Some table \<and> mounted_in table (Clean mnt)))"
proof -
  obtain b w1 where 1: "run_state (isMountpoint E mnt) w = (b, w1)" by fastforce
  note h1 = isMountpoint_hist [OF 1]
  show ?thesis
  proof (cases b)
    case True
    with assms 1 have "w' = w1" by (simp add: ensureMounted_def)
    with h1 isMountpoint_true(2) [OF 1 [unfolded True [THEN eqTrueI]]] show ?thesis
      by (auto simp: mount_tries_def)
  next
    case False
    have chk: "execs (drop (length (w_hist w)) (w_hist w')) = execs (drop (length (w_hist w)) (w_hist v)) \<and>
        (r = None \<longrightarrow> (\<exists>table. w_files w' proc_mounts = Some table \<and> mounted_in table (Clean mnt)))"
      if "run_state (check_mounted E mnt) v = (r, w')" "length (w_hist w) \<le> length (w_hist v)" for v
      using check_mounted_hist [OF that(1)] check_mounted_ok that by auto
    show ?thesis
      using assms 1 False h1
      by (auto simp: ensureMounted_def mkdir_all_def exec_command_def mount_tries_def
          split: option.splits if_splits dest!: chk)
  qed
qed

lemma ensureMounted_skips:
  assumes "fst (run_state (isMountpoint E mnt) w)"
  shows "run_state (ensureMounted E fsType source options mnt) w = (None, snd (run_state (isMountpoint E mnt) w))"
  using assms by (simp add: ensureMounted_def case_prod_unfold)

subsection \<open>Properties\<close>

text \<open>C30: On a mount table as the kernel prints it, octal escapes included, \<^verbatim>\<open>isMountpoint\<close> says
  yes exactly for the mountpoints of the table, whatever way the path is spelled.\<close>

theorem isMountpoint_table:
  assumes "\<forall>t\<in>set ts. mount_ok t" and "rely E proc_mounts"
    and "w_files w proc_mounts = Some (print_mounts ts)"
    and "e_fault E (w_hist w @ [EvOpen proc_mounts]) = None"
  shows "fst (run_state (isMountpoint E path) w) \<longleftrightarrow> Clean path \<in> mt_point ` set ts"
  using assms by (simp add: isMountpoint_def open_read_def mounted_print_mounts)

text \<open>A mount table with an overlay root and a volume with a blank in its name.\<close>

definition some_mounts :: "mount list" where
  "some_mounts =
    [\<lparr>mt_dev = ''overlay'', mt_point = ''/'', mt_type = ''overlay'', mt_opts = ''rw''\<rparr>,
     \<lparr>mt_dev = ''/dev/sda1'', mt_point = ''/my data'', mt_type = ''ext4'', mt_opts = ''rw''\<rparr>]"

lemma some_words: "word_ok ''overlay''" "word_ok ''rw''" "word_ok ''/''" "word_ok ''/dev/sda1''" "word_ok ''ext4''"
  "escapeMount ''/'' = ''/''" "word_ok (escapeMount ''/my data'')" "length (escapeMount ''/my data'') = 11"
  "Clean ''/'' = ''/''" "Clean ''/my data'' = ''/my data''"
  by code_simp+

lemma some_mounts_ok: "\<forall>t\<in>set some_mounts. mount_ok t"
  by (simp add: some_mounts_def mount_ok_def some_words mount_line_def)

definition mounts_world :: world where
  "mounts_world = empty_world\<lparr>w_files := [proc_mounts \<mapsto> print_mounts some_mounts]\<rparr>"

lemma mounts_world_simps [simp]:
  "w_hist mounts_world = []" "w_files mounts_world proc_mounts = Some (print_mounts some_mounts)"
  by (simp_all add: mounts_world_def)

lemma rely_quiet [simp]: "rely quiet_env p"
  by (simp add: rely_def)

theorem isMountpoint_table_witness:
  "fst (run_state (isMountpoint quiet_env ''/my data/'') mounts_world) \<and>
    \<not> fst (run_state (isMountpoint quiet_env ''/my'') mounts_world)"
proof -
  have "Clean ''/my data/'' = ''/my data''" "Clean ''/my'' = ''/my''" by code_simp+
  then show ?thesis
    using isMountpoint_table [OF some_mounts_ok rely_quiet, where w = mounts_world and path = "''/my data/''"]
      isMountpoint_table [OF some_mounts_ok rely_quiet, where w = mounts_world and path = "''/my''"]
    by (simp add: some_mounts_def)
qed

text \<open>\<^verbatim>\<open>ensureRealMount\<close> refuses an absolute path exactly when every mount that covers it, by
  whole path elements, is a root mount and the topmost of these is an overlay. A path that
  only shares a string prefix with a mountpoint is not covered by it.\<close>

theorem ensureRealMount_overlay:
  assumes "is_abs path" and "\<forall>t\<in>set ts. mount_ok t" and "rely E proc_mounts"
    and "w_files w proc_mounts = Some (print_mounts ts)"
    and "e_fault E (w_hist w @ [EvOpen proc_mounts]) = None"
  shows "fst (run_state (ensureRealMount E path) w) \<noteq> None \<longleftrightarrow>
    on_overlay (map (\<lambda>t. (mt_point t, mt_type t)) ts) path"
  by (rule ensureRealMount_printed [OF assms(1,2)]) (use assms(3-5) in simp_all)

theorem ensureRealMount_overlay_witness:
  "fst (run_state (ensureRealMount quiet_env ''/my data2/ckpt'') mounts_world) \<noteq> None \<and>
    fst (run_state (ensureRealMount quiet_env ''/my data/ckpt'') mounts_world) = None"
proof -
  let ?es = "map (\<lambda>t. (mt_point t, mt_type t)) some_mounts"
  have "on_overlay ?es ''/my data2/ckpt''" "\<not> on_overlay ?es ''/my data/ckpt''" by code_simp+
  then show ?thesis
    using ensureRealMount_overlay [OF _ some_mounts_ok rely_quiet, where w = mounts_world and path = "''/my data2/ckpt''"]
      ensureRealMount_overlay [OF _ some_mounts_ok rely_quiet, where w = mounts_world and path = "''/my data/ckpt''"]
    by simp
qed

text \<open>C31: \<^verbatim>\<open>ensureMounted\<close> runs at most the requested mount command and, for NFS only, one plain
  retry; it reports success only when \<^verbatim>\<open>/proc/mounts\<close>, read last, shows the directory as a
  mountpoint.\<close>

theorem ensureMounted_post:
  assumes "run_state (ensureMounted E fsType source options mnt) w = (r, w')"
  shows "execs (drop (length (w_hist w)) (w_hist w')) \<in> mount_tries fsType source options mnt \<and>
    (case r of None \<Rightarrow> \<exists>table. w_files w' proc_mounts = Some table \<and> mounted_in table (Clean mnt) | Some e \<Rightarrow> True)"
  using ensureMounted_run [OF assms] by (auto split: option.splits)

theorem ensureMounted_post_witness:
  "\<exists>w' table. run_state (ensureMounted quiet_env ''nfs'' ''srv:/x'' [] ''/my data'') mounts_world = (None, w') \<and>
    w_files w' proc_mounts = Some table \<and> mounted_in table ''/my data''"
proof -
  have "Clean ''/my data'' = ''/my data''" by code_simp
  moreover from this have "fst (run_state (isMountpoint quiet_env ''/my data'') mounts_world)"
    by (simp add: isMountpoint_def open_read_def mounted_print_mounts [OF some_mounts_ok]) (simp add: some_mounts_def)
  then obtain w' where "run_state (ensureMounted quiet_env ''nfs'' ''srv:/x'' [] ''/my data'') mounts_world = (None, w')"
    using ensureMounted_skips by blast
  ultimately show ?thesis using ensureMounted_post [of quiet_env "''nfs''" "''srv:/x''" "[]" "''/my data''" mounts_world None w'] by auto
qed

end
