(* ===== verification/Storage.thy ===== *)
theory Storage
  imports Interceptor_Mgr Kubelet Mounts
begin

text \<open>
  The storage half of \<^verbatim>\<open>internal/agent/checkpoint.go\<close>: the backends a checkpoint archive is
  written to, dispatched on the storage type of the custom resource.
\<close>

definition mountBase :: string where
  "mountBase = ''/var/lib/gpu-cr/mnt''"

record Checkpointer =
  cp_Interceptor :: InterceptorManager
  cp_Kubelet :: KubeletClient
  cp_GCRInterception :: bool
  cp_DataDir :: string
  cp_PersistBlob :: bool
  cp_DryRun :: bool

definition NewCheckpointer :: "InterceptorManager \<Rightarrow> KubeletClient \<Rightarrow> bool \<Rightarrow> Checkpointer" where
  "NewCheckpointer im kc dryRun =
    \<lparr>cp_Interceptor = im, cp_Kubelet = kc, cp_GCRInterception = True, cp_DataDir = ''/var/lib/gcr-data'',
     cp_PersistBlob = True, cp_DryRun = dryRun\<rparr>"

record Target =
  tg_Namespace :: string
  tg_Pod :: string
  tg_PodUID :: string
  tg_Container :: string
  tg_Storage :: StorageSpec

record Result =
  rs_ArchivePath :: string
  rs_TakenAt :: go_time

datatype store_error =
    StoreIO string
  | NoArchiveProduced
  | PersistBlobFailed string string
  | MountRequires string string
  | MountAt string string string mount_error
  | NfsRequires
  | RealMount real_mount_error
  | PvcNotEnabled
  | S3NotImplemented string string
  | UnknownStorage string

fun store_text :: "store_error \<Rightarrow> string" where
  "store_text (StoreIO err) = err"
| "store_text NoArchiveProduced = ''kubelet produced no checkpoint archive''"
| "store_text (PersistBlobFailed p err) = ''persist data blob '' @ p @ '': '' @ err"
| "store_text (MountRequires fsType source) =
    ''mount storage requires storage.fsType and storage.source (got fsType='' @ fmt_q fsType
    @ '' source='' @ fmt_q source @ '')''"
| "store_text (MountAt fsType source mnt err) =
    ''mount '' @ fsType @ '' '' @ source @ '' at '' @ mnt @ '': '' @ mount_text err"
| "store_text NfsRequires =
    ''nfs storage requires storage.endpoint (server) and storage.path (export)''"
| "store_text (RealMount err) = real_mount_text err"
| "store_text PvcNotEnabled =
    ''storage type pvc (CSI-backed: EBS, EFS, ...) needs the checkpoint mover, which is not yet enabled; ''
    @ ''for block storage use a PVC referenced as a DaemonSet volume, or use type: mount for file backends''"
| "store_text (S3NotImplemented endpoint path) =
    ''storage type s3 not yet implemented (endpoint='' @ endpoint @ '', path='' @ path @ '')''"
| "store_text (UnknownStorage t) = ''unknown storage type '' @ fmt_q t"

definition firstNonEmpty :: "string \<Rightarrow> string \<Rightarrow> string" where
  "firstNonEmpty a b = (if TrimSpace a \<noteq> [] then a else b)"

definition archive_name :: "Target \<Rightarrow> go_time \<Rightarrow> string" where
  "archive_name t at =
    ''checkpoint-'' @ tg_Pod t @ ''_'' @ tg_Namespace t @ ''-'' @ tg_Container t @ ''-'' @ fmt_d (Unix at) @ ''.tar''"

definition mode_0644 :: nat where
  "mode_0644 = 6 * 64 + 4 * 8 + 4"

definition blob_source :: "Checkpointer \<Rightarrow> Target \<Rightarrow> string" where
  "blob_source c t = Join [cp_DataDir c, tg_PodUID t, ''data.blob'']"

definition blob_target :: "string \<Rightarrow> string" where
  "blob_target dst = TrimSuffix dst ''.tar'' @ ''.blob''"

definition persist_blob :: "env \<Rightarrow> Checkpointer \<Rightarrow> Target \<Rightarrow> string \<Rightarrow> store_error option go" where
  "persist_blob E c t dst =
    (if cp_GCRInterception c \<and> cp_PersistBlob c then do {
       fi \<leftarrow> stat_size E (blob_source c t);
       case fi of
         Inl err \<Rightarrow> State_Monad.return None
       | Inr sz \<Rightarrow>
           if 0 < sz then do {
             r \<leftarrow> copyFile E (blob_source c t) (blob_target dst) mode_0644;
             case r of
               Some err \<Rightarrow> State_Monad.return (Some (PersistBlobFailed (blob_source c t) err))
             | None \<Rightarrow> State_Monad.return None }
           else State_Monad.return None }
     else State_Monad.return None)"

definition storeToDir :: "env \<Rightarrow> Checkpointer \<Rightarrow> Target \<Rightarrow> string list \<Rightarrow> string \<Rightarrow> (store_error + string) go" where
  "storeToDir E c t produced dir = do {
     r \<leftarrow> mkdir_all E dir;
     case r of
       Some err \<Rightarrow> State_Monad.return (Inl (StoreIO err))
     | None \<Rightarrow> do {
         at \<leftarrow> now;
         let dst = Join [dir, archive_name t at];
         if cp_DryRun c then do {
           r2 \<leftarrow> write_file E dst ''simulated-checkpoint'';
           State_Monad.return (case r2 of Some err \<Rightarrow> Inl (StoreIO err) | None \<Rightarrow> Inr dst) }
         else (case produced of
           [] \<Rightarrow> State_Monad.return (Inl NoArchiveProduced)
         | src # rest \<Rightarrow> do {
             r3 \<leftarrow> copyFile E src dst mode_0644;
             case r3 of
               Some err \<Rightarrow> State_Monad.return (Inl (StoreIO err))
             | None \<Rightarrow> do {
                 r4 \<leftarrow> persist_blob E c t dst;
                 case r4 of
                   Some e \<Rightarrow> State_Monad.return (Inl e)
                 | None \<Rightarrow>
                     if src \<noteq> dst then do {
                       _ \<leftarrow> remove_file E src;
                       State_Monad.return (Inr dst) }
                     else State_Monad.return (Inr dst) } }) } }"

definition mount_dir :: "string \<Rightarrow> string \<Rightarrow> string" where
  "mount_dir fsType source = Join [mountBase, sanitizeMount (fsType @ ''_'' @ source)]"

definition mount_subdir :: "string \<Rightarrow> string \<Rightarrow> string" where
  "mount_subdir mnt subdir =
    (let sp = TrimByte (TrimSpace subdir) slash in if sp \<noteq> [] then Join [mnt, sp] else mnt)"

definition storeMount ::
  "env \<Rightarrow> Checkpointer \<Rightarrow> Target \<Rightarrow> string list \<Rightarrow> string \<Rightarrow> string \<Rightarrow> string \<Rightarrow> string \<Rightarrow> (store_error + string) go" where
  "storeMount E c t produced fsType0 source0 options subdir = (
     let fsType = TrimSpace fsType0; source = TrimSpace source0
     in if fsType = [] \<or> source = [] then State_Monad.return (Inl (MountRequires fsType source))
        else let mnt = mount_dir fsType source; dir = mount_subdir mnt subdir
             in if \<not> cp_DryRun c then do {
                  r \<leftarrow> ensureMounted E fsType source options mnt;
                  case r of
                    Some err \<Rightarrow> State_Monad.return (Inl (MountAt fsType source mnt err))
                  | None \<Rightarrow> storeToDir E c t produced dir }
                else storeToDir E c t produced dir)"

definition store :: "env \<Rightarrow> Checkpointer \<Rightarrow> Target \<Rightarrow> string list \<Rightarrow> (store_error + string) go" where
  "store E c t produced = (
     let s = tg_Storage t
     in if ss_Type s = StorageMount then
          storeMount E c t produced (ss_FsType s) (ss_Source s) (ss_Options s) (firstNonEmpty (ss_SubPath s) (ss_Path s))
        else if ss_Type s = StorageNFS then
          (let server = TrimSpace (ss_Endpoint s); export = TrimSpace (ss_Path s)
           in if server = [] \<or> export = [] then State_Monad.return (Inl NfsRequires)
              else storeMount E c t produced ''nfs'' (server @ '':'' @ export)
                (firstNonEmpty (ss_Options s) ''nfsvers=4,nolock'') (ss_SubPath s))
        else if ss_Type s = StorageHostPath \<or> ss_Type s = [] then
          (if \<not> cp_DryRun c then do {
             r \<leftarrow> ensureRealMount E (ss_Path s);
             case r of
               Some err \<Rightarrow> State_Monad.return (Inl (RealMount err))
             | None \<Rightarrow> storeToDir E c t produced (ss_Path s) }
           else storeToDir E c t produced (ss_Path s))
        else if ss_Type s = StoragePVC then State_Monad.return (Inl PvcNotEnabled)
        else if ss_Type s = StorageS3 then State_Monad.return (Inl (S3NotImplemented (ss_Endpoint s) (ss_Path s)))
        else State_Monad.return (Inl (UnknownStorage (ss_Type s))))"

definition simulatedArchive :: "Target \<Rightarrow> string" where
  "simulatedArchive t = Join [''/var/lib/kubelet/checkpoints'',
    ''checkpoint-'' @ tg_Pod t @ ''_'' @ tg_Namespace t @ ''-'' @ tg_Container t @ ''.tar'']"

subsection \<open>Archive names\<close>

text \<open>The archive path a store in a given directory chooses.\<close>

definition store_path :: "env \<Rightarrow> Target \<Rightarrow> string \<Rightarrow> world \<Rightarrow> string" where
  "store_path E t dir w =
    Join [dir, archive_name t (w_now w + int (e_elapsed E (w_hist w @ [EvMkdirAll dir])))]"

lemma fmt_nat_no_dash: "CHR ''-'' \<notin> set (fmt_nat n)"
  using fmt_nat_digits [of "CHR ''-''" n] by (auto simp: is_digit_def)

lemma fmt_d_inj: "fmt_d i = fmt_d j \<Longrightarrow> i = j"
  using fmt_nat_no_dash fmt_nat_inj [of "nat i" "nat j"] fmt_nat_inj [of "nat (- i)" "nat (- j)"]
  by (auto simp: fmt_d_def split: if_splits) (metis list.set_intros(1))+

lemma append_sep_inj:
  assumes "x \<notin> set a" and "x \<notin> set b" and "a @ x # s = b @ x # t"
  shows "a = b \<and> s = t"
  using assms
proof (induction a arbitrary: b)
  case Nil
  then show ?case by (cases b) auto
next
  case (Cons y a)
  then show ?case by (cases b) auto
qed

lemma append_sep_last_inj:
  assumes "x \<notin> set s" and "x \<notin> set t" and "a @ x # s = b @ x # t"
  shows "a = b \<and> s = t"
proof -
  have "rev s @ x # rev a = rev t @ x # rev b" using arg_cong [OF assms(3), of rev] by simp
  with append_sep_inj [of x "rev s" "rev t" "rev a" "rev b"] assms(1,2) show ?thesis by simp
qed

lemma Unix_nonneg: "0 \<le> at \<Longrightarrow> 0 \<le> Unix at"
  by (simp add: Unix_def)

lemma archive_name_parts:
  assumes "archive_name t at = archive_name t' at'" and "tg_Namespace t = tg_Namespace t'"
    and "CHR ''_'' \<notin> set (tg_Pod t)" and "CHR ''_'' \<notin> set (tg_Pod t')" and "0 \<le> at" and "0 \<le> at'"
  shows "tg_Pod t = tg_Pod t' \<and> tg_Container t = tg_Container t' \<and> Unix at = Unix at'"
proof -
  let ?s = "fmt_d (Unix at)" and ?s' = "fmt_d (Unix at')"
  have "(tg_Pod t @ CHR ''_'' # (tg_Namespace t @ ''-'' @ tg_Container t @ ''-'' @ ?s)) @ ''.tar''
      = (tg_Pod t' @ CHR ''_'' # (tg_Namespace t @ ''-'' @ tg_Container t' @ ''-'' @ ?s')) @ ''.tar''"
    using assms(1,2) by (simp add: archive_name_def)
  then have "tg_Pod t @ CHR ''_'' # (tg_Namespace t @ ''-'' @ tg_Container t @ ''-'' @ ?s)
      = tg_Pod t' @ CHR ''_'' # (tg_Namespace t @ ''-'' @ tg_Container t' @ ''-'' @ ?s')"
    by (simp only: append_same_eq)
  from append_sep_inj [OF assms(3,4) this] have pod: "tg_Pod t = tg_Pod t'"
    and rest: "tg_Container t @ CHR ''-'' # ?s = tg_Container t' @ CHR ''-'' # ?s'" by auto
  have dash: "CHR ''-'' \<notin> set ?s" "CHR ''-'' \<notin> set ?s'"
    using Unix_nonneg [OF assms(5)] Unix_nonneg [OF assms(6)] fmt_nat_no_dash by (simp_all add: fmt_d_def)
  from append_sep_last_inj [OF dash rest] pod show ?thesis by (simp add: fmt_d_inj)
qed

subsection \<open>Writing one archive\<close>

lemma blob_target_neq [simp]: "blob_target dst \<noteq> dst"
  by (auto simp: blob_target_def TrimSuffix_def split: if_splits dest: arg_cong [of _ _ length])

lemma storeToDir_cases:
  assumes "run_state (storeToDir E c t (src # rest) dir) w = (r, w')" and "\<not> cp_DryRun c"
    and "dst = store_path E t dir w"
  obtains (mkdir) err where "r = Inl (StoreIO err)" and "w' = after_call E (EvMkdirAll dir) w"
      and "e_fault E (w_hist w @ [EvMkdirAll dir]) = Some err"
  | (copy) err where "r = Inl (StoreIO err)"
      and "run_state (copyFile E src dst mode_0644) (after_call E (EvMkdirAll dir) w) = (Some err, w')"
  | (blob) e w2 where "r = Inl e"
      and "run_state (copyFile E src dst mode_0644) (after_call E (EvMkdirAll dir) w) = (None, w2)"
      and "run_state (persist_blob E c t dst) w2 = (Some e, w')"
  | (stored) w2 w3 where "r = Inr dst"
      and "run_state (copyFile E src dst mode_0644) (after_call E (EvMkdirAll dir) w) = (None, w2)"
      and "run_state (persist_blob E c t dst) w2 = (None, w3)"
      and "w' = (if src \<noteq> dst then snd (run_state (remove_file E src) w3) else w3)"
proof -
  let ?w1 = "after_call E (EvMkdirAll dir) w"
  have dst: "Join [dir, archive_name t (w_now ?w1)] = dst" using assms(3) by (simp add: store_path_def)
  obtain r3 w2 where c: "run_state (copyFile E src dst mode_0644) ?w1 = (r3, w2)" by fastforce
  obtain r4 w3 where b: "run_state (persist_blob E c t dst) w2 = (r4, w3)" by fastforce
  show ?thesis
  proof (cases "e_fault E (w_hist w @ [EvMkdirAll dir])")
    case (Some err)
    with assms(1) show ?thesis by (intro mkdir [of err]) (auto simp: storeToDir_def mkdir_all_def)
  next
    case None
    then have run: "run_state (storeToDir E c t (src # rest) dir) w =
        (case r3 of Some err \<Rightarrow> (Inl (StoreIO err), w2)
         | None \<Rightarrow> (case r4 of Some e \<Rightarrow> (Inl e, w3)
           | None \<Rightarrow> (Inr dst, if src \<noteq> dst then snd (run_state (remove_file E src) w3) else w3)))"
      using assms(2) c b dst
      by (cases "src = dst"; cases r3; cases r4) (simp_all add: storeToDir_def mkdir_all_def Let_def case_prod_unfold)
    show ?thesis
    proof (cases r3)
      case (Some err)
      with run assms(1) c show ?thesis by (intro copy [of err]) auto
    next
      case r3: None
      show ?thesis
      proof (cases r4)
        case (Some e)
        with run assms(1) c b r3 show ?thesis by (intro blob [of e w2]) auto
      next
        case r4: None
        with run assms(1) c b r3 show ?thesis by (intro stored [of w2 w3]) auto
      qed
    qed
  qed
qed

lemma persist_blob_keeps:
  "rely E p \<Longrightarrow> p \<noteq> blob_target dst \<Longrightarrow> state_io_rel (keeps p) (persist_blob E c t dst)"
  unfolding persist_blob_def by (intro keeps_rel.rel_intros io_keeps copyFile_keeps)

lemma persist_blob_ok:
  assumes "run_state (persist_blob E c t dst) w = (None, w')" and "cp_GCRInterception c" and "cp_PersistBlob c"
    and "rely E (blob_source c t)" and "rely E (blob_target dst)" and "blob_source c t \<noteq> blob_target dst"
    and "e_fault E (w_hist w @ [EvStat (blob_source c t)]) = None"
    and "w_files w (blob_source c t) = Some b" and "b \<noteq> []"
  shows "w_files w' (blob_target dst) = Some b"
proof -
  let ?w1 = "after_call E (EvStat (blob_source c t)) w"
  have src: "w_files ?w1 (blob_source c t) = Some b" using assms(4,8) by simp
  have "run_state (copyFile E (blob_source c t) (blob_target dst) mode_0644) ?w1 = (None, w')"
    using assms(1,2,3,4,7,8,9)
    by (auto simp: persist_blob_def stat_size_def case_prod_unfold prod_eq_iff split: option.splits)
  from copyFile_ok(2) [OF assms(4,5,6) this] src show ?thesis by simp
qed

lemma remove_file_keeps_other: "rely E p \<Longrightarrow> p \<noteq> q \<Longrightarrow> w_files (snd (run_state (remove_file E q) w)) p = w_files w p"
  using keepsD [OF io_keeps(9)] by (metis prod.collapse)

text \<open>The archive the kubelet wrote, the stored copy and the blob are different files.\<close>

definition files_apart :: "Checkpointer \<Rightarrow> Target \<Rightarrow> string \<Rightarrow> string \<Rightarrow> bool" where
  "files_apart c t src dst \<longleftrightarrow>
    src \<notin> {dst, blob_target dst, blob_source c t} \<and> blob_source c t \<notin> {dst, blob_target dst}"

definition rely_store :: "env \<Rightarrow> Checkpointer \<Rightarrow> Target \<Rightarrow> string \<Rightarrow> string \<Rightarrow> bool" where
  "rely_store E c t src dst \<longleftrightarrow>
    rely E src \<and> rely E dst \<and> rely E (blob_source c t) \<and> rely E (blob_target dst)"

lemma copyFile_source_kept:
  assumes "rely E src" and "src \<noteq> dst" and "run_state (copyFile E src dst mode) w = (r, w')"
  shows "w_files w' src = w_files w src"
  by (rule keepsD [OF copyFile_keeps [OF assms(1,2)] assms(3)])

lemma storeToDir_stored:
  assumes run: "run_state (storeToDir E c t (src # rest) dir) w = (r, w')" and dry: "\<not> cp_DryRun c"
    and dst: "dst = store_path E t dir w"
    and apart: "files_apart c t src dst" and rel: "rely_store E c t src dst"
  shows "(\<exists>e. r = Inl e) \<and> w_files w' src = w_files w src \<or>
    r = Inr dst \<and> w_files w' dst = w_files w src \<and> w_files w src \<noteq> None"
  using run dry dst
proof (cases rule: storeToDir_cases)
  case (mkdir err)
  with rel show ?thesis by (simp add: rely_store_def)
next
  case (copy err)
  with copyFile_source_kept apart rel show ?thesis by (fastforce simp: files_apart_def rely_store_def)
next
  case (blob e w2)
  have "w_files w2 src = w_files w src"
    using copyFile_source_kept [OF _ _ blob(2)] apart rel by (auto simp: files_apart_def rely_store_def)
  moreover have "w_files w' src = w_files w2 src"
    using keepsD [OF persist_blob_keeps blob(3)] apart rel by (auto simp: files_apart_def rely_store_def)
  ultimately show ?thesis using blob(1) by simp
next
  case (stored w2 w3)
  have "w_files w2 dst = w_files w src" and "w_files w src \<noteq> None"
    using copyFile_ok [OF _ _ _ stored(2)] apart rel by (auto simp: files_apart_def rely_store_def)
  moreover have "w_files w3 dst = w_files w2 dst"
    by (rule keepsD [OF persist_blob_keeps stored(3)]) (use rel in \<open>simp_all add: rely_store_def blob_target_neq [symmetric]\<close>)
  moreover have "w_files w' dst = w_files w3 dst"
    using stored(4) remove_file_keeps_other [of E dst src w3] rel by (simp add: rely_store_def)
  ultimately show ?thesis using stored(1) by simp
qed

lemma storeToDir_blob:
  assumes run: "run_state (storeToDir E c t (src # rest) dir) w = (Inr p, w')" and dry: "\<not> cp_DryRun c"
    and dst: "dst = store_path E t dir w"
    and apart: "files_apart c t src dst" and rel: "rely_store E c t src dst"
    and on: "cp_GCRInterception c" "cp_PersistBlob c"
    and stat: "\<And>h. e_fault E (h @ [EvStat (blob_source c t)]) = None"
    and b: "w_files w (blob_source c t) = Some b" "b \<noteq> []"
  shows "w_files w' (blob_target dst) = Some b"
  using run dry dst
proof (cases rule: storeToDir_cases)
  case (stored w2 w3)
  have "w_files w2 (blob_source c t) = Some b"
    using keepsD [OF copyFile_keeps stored(2)] apart rel b(1)
    by (auto simp: files_apart_def rely_store_def)
  with persist_blob_ok [OF stored(3) on _ _ _ stat] apart rel b(2)
  have "w_files w3 (blob_target dst) = Some b" by (auto simp: files_apart_def rely_store_def)
  then show ?thesis
    using stored(4) remove_file_keeps_other [of E "blob_target dst" src w3] apart rel
    by (auto simp: rely_store_def files_apart_def)
qed simp_all

lemma storeToDir_removed:
  assumes run: "run_state (storeToDir E c t (src # rest) dir) w = (Inr p, w')" and dry: "\<not> cp_DryRun c"
    and dst: "dst = store_path E t dir w" and "src \<noteq> dst"
    and rm: "\<And>h. e_fault E (h @ [EvRemove src]) = None"
  shows "w_files w' src = None"
  using run dry dst
proof (cases rule: storeToDir_cases)
  case (stored w2 w3)
  with assms(4) rm show ?thesis by (auto simp: remove_file_def split: option.splits)
qed simp_all

subsection \<open>The calls a store makes\<close>

text \<open>A dry run only creates directories and writes a placeholder.\<close>

fun store_ev :: "bool \<Rightarrow> event \<Rightarrow> bool" where
  "store_ev dry (EvMkdirAll d) = True"
| "store_ev dry (EvWriteFile p c) = dry"
| "store_ev dry (EvOpen p) = (\<not> dry)"
| "store_ev dry (EvCreate p mode) = (\<not> dry)"
| "store_ev dry (EvCopy p q) = (\<not> dry)"
| "store_ev dry (EvChmod p mode) = (\<not> dry)"
| "store_ev dry (EvStat p) = (\<not> dry)"
| "store_ev dry (EvRemove p) = (\<not> dry)"
| "store_ev dry (EvExec args) = (\<not> dry)"
| "store_ev dry _ = False"

lemma storeToDir_calls: "state_io_rel (calls (store_ev (cp_DryRun c))) (storeToDir E c t produced dir)"
  unfolding storeToDir_def persist_blob_def Let_def
  by (intro calls_rel.rel_intros io_syscalls io_basic_calls copyFile_calls) simp_all

lemma mount_event_store: "mount_event fsType source options mnt e \<Longrightarrow> store_ev False e"
  by (auto simp: mount_event_def)

lemma storeMount_calls:
  "state_io_rel (calls (store_ev (cp_DryRun c))) (storeMount E c t produced fsType source options subdir)"
  unfolding storeMount_def Let_def
  by (intro calls_rel.rel_intros storeToDir_calls)
     (auto intro: io_calls_mono [OF ensureMounted_calls] dest: mount_event_store)

lemma store_calls: "state_io_rel (calls (store_ev (cp_DryRun c))) (store E c t produced)"
  unfolding store_def Let_def
  by (intro calls_rel.rel_intros storeToDir_calls storeMount_calls ensureRealMount_calls) simp_all

text \<open>An operation that makes a call in any case.\<close>

definition grows :: "'a go \<Rightarrow> bool" where
  "grows m \<longleftrightarrow> (\<forall>w. length (w_hist w) < length (w_hist (snd (run_state m w))))"

lemma growsD: "grows m \<Longrightarrow> length (w_hist w) < length (w_hist (snd (run_state m w)))"
  by (simp add: grows_def)

lemma grows_bind:
  assumes "grows m" and "\<And>a. state_io_rel (calls (\<lambda>_. True)) (f a)"
  shows "grows (State_Monad.bind m f)"
  unfolding grows_def
proof
  fix w
  obtain a w1 where m: "run_state m w = (a, w1)" by fastforce
  obtain b w2 where f: "run_state (f a) w1 = (b, w2)" by fastforce
  have "length (w_hist w) < length (w_hist w1)" using growsD [OF assms(1), of w] m by simp
  also have "\<dots> \<le> length (w_hist w2)" using state_io_relD [OF assms(2) f] by (auto simp: calls_def)
  finally show "length (w_hist w) < length (w_hist (snd (run_state (State_Monad.bind m f) w)))"
    using m f by simp
qed

lemma any_call: "state_io_rel (calls P) m \<Longrightarrow> state_io_rel (calls (\<lambda>_. True)) m"
  by (erule io_calls_mono) simp

lemma storeToDir_grows: "grows (storeToDir E c t produced dir)"
  unfolding storeToDir_def persist_blob_def Let_def
  by (rule grows_bind, simp add: grows_def mkdir_all_def)
     (intro calls_rel.rel_intros io_syscalls io_basic_calls copyFile_calls; simp)

lemma ensureMounted_grows: "grows (ensureMounted E fsType source options mnt)"
  unfolding ensureMounted_def check_mounted_def
  by (rule grows_bind, simp add: grows_def isMountpoint_def open_read_def)
     (intro calls_rel.rel_intros io_syscalls isMountpoint_calls; simp)

lemma storeMount_grows:
  assumes "TrimSpace fsType \<noteq> []" and "TrimSpace source \<noteq> []"
  shows "grows (storeMount E c t produced fsType source options subdir)"
  using assms storeToDir_grows
  by (auto simp: storeMount_def Let_def
      intro!: grows_bind ensureMounted_grows calls_rel.rel_intros any_call [OF storeToDir_calls])

lemma hostPath_grows:
  "grows (do { r \<leftarrow> ensureRealMount E p;
     case r of Some err \<Rightarrow> State_Monad.return (Inl (RealMount err)) | None \<Rightarrow> storeToDir E c t produced p })"
  by (rule grows_bind, simp add: grows_def ensureRealMount_def open_read_def)
     (intro calls_rel.rel_intros any_call [OF storeToDir_calls])

subsection \<open>Mount directories\<close>

definition sanitized :: "char \<Rightarrow> char" where
  "sanitized c = (if c = CHR ''/'' \<or> c = CHR '':'' \<or> c = CHR '' '' then CHR ''_'' else c)"

lemma sanitize_map: "sanitizeMount s = TrimByte (map sanitized s) (CHR ''_'')"
proof -
  have "replace_all [(''/'', ''_''), ('':'', ''_''), ('' '', ''_'')] s =
      concat (map (\<lambda>c. case map_of (map (\<lambda>(old, new). (hd old, new)) [(''/'', ''_''), ('':'', ''_''), ('' '', ''_'')]) c
        of None \<Rightarrow> [c] | Some new \<Rightarrow> new) s)"
    by (rule replace_all_bytes) auto
  also have "\<dots> = concat (map (\<lambda>c. [sanitized c]) s)"
    by (intro arg_cong [of _ _ concat] map_cong) (auto simp: sanitized_def)
  finally show ?thesis by (simp add: sanitizeMount_def)
qed

lemma sanitize_chars: "c \<in> set (sanitizeMount s) \<Longrightarrow> c \<noteq> CHR ''/'' \<and> c \<noteq> CHR '':'' \<and> c \<noteq> CHR '' ''"
  using set_TrimByte [of "map sanitized s" "CHR ''_''"] by (auto simp: sanitize_map sanitized_def split: if_splits)

text \<open>A file system type that starts with an ordinary character, as all do.\<close>

definition fstype_ok :: "string \<Rightarrow> bool" where
  "fstype_ok f \<longleftrightarrow> f \<noteq> [] \<and> hd f \<notin> {CHR ''/'', CHR '':'', CHR '' '', CHR ''_'', CHR ''.''}"

lemma sanitize_hd:
  assumes "fstype_ok f"
  shows "sanitizeMount (f @ ''_'' @ s) \<noteq> [] \<and> hd (sanitizeMount (f @ ''_'' @ s)) = hd f"
proof -
  obtain c cs where f: "f = c # cs" using assms by (cases f) (auto simp: fstype_ok_def)
  have c: "sanitized c = c" "c \<noteq> CHR ''_''" using assms f by (auto simp: fstype_ok_def sanitized_def)
  have "sanitizeMount (f @ ''_'' @ s) = TrimRightByte (c # map sanitized (cs @ ''_'' @ s)) (CHR ''_'')"
    using c f by (simp add: sanitize_map TrimByte_def)
  moreover have "TrimRightByte (c # u) (CHR ''_'') = c # TrimRightByte u (CHR ''_'')" for u
    using c TrimRightByte_append [of "[c]" u "CHR ''_''"] by (auto simp: TrimRightByte_id)
  ultimately show ?thesis using f by simp
qed

lemma sanitize_elem: "fstype_ok f \<Longrightarrow> path_elem (sanitizeMount (f @ ''_'' @ s))"
  using sanitize_hd [of f s] sanitize_chars [of slash "f @ ''_'' @ s"]
  by (auto simp: path_elem_def fstype_ok_def slash_def)

lemma elems_mountBase: "elems mountBase = [''var'', ''lib'', ''gpu-cr'', ''mnt'']"
  by code_simp

lemma is_abs_mountBase [simp]: "is_abs mountBase"
  by (simp add: mountBase_def)

lemma mount_dir_elems: "fstype_ok f \<Longrightarrow> mount_dir f s = abs_path (elems mountBase @ [sanitizeMount (f @ ''_'' @ s)])"
  unfolding mount_dir_def using sanitize_elem [of f s] Join_abs [OF is_abs_mountBase, of "[sanitizeMount (f @ ''_'' @ s)]"]
  by simp

lemma elems_mount_dir: "fstype_ok f \<Longrightarrow> elems (mount_dir f s) = elems mountBase @ [sanitizeMount (f @ ''_'' @ s)]"
  using sanitize_elem [of f s] elems_abs_proper [OF is_abs_mountBase]
  by (simp add: mount_dir_elems) (rule elems_abs_path, auto)

subsection \<open>Properties\<close>

text \<open>A node with one archive and one data blob, and a checkpointer with the defaults of the agent.\<close>

definition node_client :: KubeletClient where
  "node_client = kubelet_client ''https://127.0.0.1:10250'' ''tok'' 0 \<lparr>tls_InsecureSkipVerify = True, tls_RootCAs = None\<rparr>"

definition node_checkpointer :: Checkpointer where
  "node_checkpointer = NewCheckpointer node_manager node_client False"

definition train_target :: Target where
  "train_target = \<lparr>tg_Namespace = ''ml'', tg_Pod = ''train-0'', tg_PodUID = ''u1'', tg_Container = ''main'',
     tg_Storage = empty_storage\<lparr>ss_Type := ''hostPath'', ss_Path := ''/ckpt''\<rparr>\<rparr>"

definition train_blob :: string where "train_blob = ''/var/lib/gcr-data/u1/data.blob''"
definition train_src :: string where "train_src = ''/var/lib/kubelet/checkpoints/c.tar''"
definition train_dst :: string where "train_dst = ''/ckpt/checkpoint-train-0_ml-main-0.tar''"
definition train_blob_dst :: string where "train_blob_dst = ''/ckpt/checkpoint-train-0_ml-main-0.blob''"

definition train_world :: world where
  "train_world = empty_world\<lparr>w_files := [train_src \<mapsto> ''TAR'', train_blob \<mapsto> ''GPU'']\<rparr>"

lemma train_paths:
  "blob_source node_checkpointer train_target = train_blob"
  "Join [''/ckpt'', archive_name train_target 1000000] = train_dst"
  "blob_target train_dst = train_blob_dst"
  by code_simp+

lemma train_store_path: "store_path quiet_env train_target ''/ckpt'' train_world = train_dst"
  using train_paths(2) by (simp add: store_path_def train_world_def)

lemma train_apart: "files_apart node_checkpointer train_target train_src train_dst"
  unfolding files_apart_def train_paths
  by (simp add: train_src_def train_dst_def train_blob_def train_blob_dst_def)

lemma train_flags [simp]:
  "\<not> cp_DryRun node_checkpointer" "cp_GCRInterception node_checkpointer" "cp_PersistBlob node_checkpointer"
  by (simp_all add: node_checkpointer_def NewCheckpointer_def)

lemma train_stored:
  "fst (run_state (storeToDir quiet_env node_checkpointer train_target [train_src] ''/ckpt'') train_world) = Inr train_dst"
  using train_store_path
  by (simp add: storeToDir_def mkdir_all_def Let_def store_path_def train_world_def persist_blob_def copyFile_def
      syscall_defs train_paths train_src_def train_dst_def train_blob_def train_blob_dst_def)





text \<open>Archive names do not clash: two checkpoints stored in one directory for Pods of one
  namespace get the same path only if they are of the same Pod, the same container and the
  same second.\<close>

theorem archive_paths_distinct:
  assumes "is_abs dir" and "path_elem (archive_name t at)" and "path_elem (archive_name t' at')"
    and "Join [dir, archive_name t at] = Join [dir, archive_name t' at']"
    and "tg_Namespace t = tg_Namespace t'" and "CHR ''_'' \<notin> set (tg_Pod t)" and "CHR ''_'' \<notin> set (tg_Pod t')"
    and "0 \<le> at" and "0 \<le> at'"
  shows "tg_Pod t = tg_Pod t' \<and> tg_Container t = tg_Container t' \<and> Unix at = Unix at'"
  by (rule archive_name_parts [OF Join_abs_inj [OF assms(1-4)] assms(5-9)])

theorem archive_paths_distinct_witness:
  "Join [''/ckpt'', archive_name train_target 0] = Join [''/ckpt'', archive_name train_target 7] \<and> Unix 0 = Unix 7"
proof -
  have "path_elem (archive_name train_target 0)" "path_elem (archive_name train_target 7)"
    "Join [''/ckpt'', archive_name train_target 0] = Join [''/ckpt'', archive_name train_target 7]"
    by code_simp+
  with archive_paths_distinct [of "''/ckpt''" train_target 0 train_target 7] show ?thesis
    by (simp add: train_target_def)
qed

text \<open>What a storage specification is refused for, before anything is done.\<close>

definition refused :: "StorageSpec \<Rightarrow> store_error option" where
  "refused s =
    (if ss_Type s = ''pvc'' then Some PvcNotEnabled
     else if ss_Type s = ''s3'' then Some (S3NotImplemented (ss_Endpoint s) (ss_Path s))
     else if ss_Type s = ''nfs'' then
       (if TrimSpace (ss_Endpoint s) = [] \<or> TrimSpace (ss_Path s) = [] then Some NfsRequires else None)
     else if ss_Type s = ''mount'' then
       (if TrimSpace (ss_FsType s) = [] \<or> TrimSpace (ss_Source s) = []
        then Some (MountRequires (TrimSpace (ss_FsType s)) (TrimSpace (ss_Source s))) else None)
     else if ss_Type s \<noteq> ''hostPath'' \<and> ss_Type s \<noteq> [] then Some (UnknownStorage (ss_Type s))
     else None)"

text \<open>The storage types that are not implemented, unknown ones, and incomplete NFS or mount
  specifications are refused with their own error before any call is made or file changed;
  for every other specification the store goes to the file system.\<close>

theorem store_refuses:
  "case refused (tg_Storage t) of
     Some e \<Rightarrow> run_state (store E c t produced) w = (Inl e, w)
   | None \<Rightarrow> length (w_hist w) < length (w_hist (snd (run_state (store E c t produced) w)))"
proof (cases "refused (tg_Storage t)")
  case (Some e)
  then show ?thesis
    by (auto simp: refused_def store_def storage_types storeMount_def Let_def split: if_splits)
next
  case None
  have "TrimSpace ''nfs'' \<noteq> []" "TrimSpace (x @ '':'' @ y) \<noteq> []" for x y
    using TrimSpace_keeps [of "CHR '':''" "x @ '':'' @ y"] TrimSpace_keeps [of "CHR ''n''" "''nfs''"]
    by (auto simp: ws_encodings_def)
  from growsD [OF storeMount_grows [OF this]] None
    growsD [OF storeMount_grows] growsD [OF storeToDir_grows] growsD [OF hostPath_grows]
  show ?thesis by (auto simp: refused_def store_def storage_types Let_def simp del: run_state_bind split: if_splits)
qed



definition other_export :: world where
  "other_export = empty_world\<lparr>w_files := [proc_mounts \<mapsto> print_mounts
     [\<lparr>mt_dev = ''srv:/a_b'', mt_point = mount_dir ''nfs'' ''srv:/a_b'', mt_type = ''nfs'', mt_opts = ''rw''\<rparr>]]\<rparr>"

text \<open>Two different exports can share a mount directory, and then the second is never mounted: with
  \<^verbatim>\<open>srv:/a_b\<close> mounted, asking for \<^verbatim>\<open>srv:/a/b\<close> succeeds without running any mount command, so its
  checkpoints go to the wrong export. A sub-path of \<^verbatim>\<open>..\<close> leaves the backend altogether.\<close>

theorem mount_dir_shared:
  "(case run_state (ensureMounted quiet_env ''nfs'' ''srv:/a/b'' [] (mount_dir ''nfs'' ''srv:/a/b'')) other_export of
      (r, w') \<Rightarrow> r = None \<and> execs (w_hist w') = []) \<and>
   mount_subdir (mount_dir ''nfs'' ''srv:/a/b'') ''..'' = mountBase"
proof -
  let ?t = "\<lparr>mt_dev = ''srv:/a_b'', mt_point = mount_dir ''nfs'' ''srv:/a_b'', mt_type = ''nfs'', mt_opts = ''rw''\<rparr>"
  let ?mnt = "mount_dir ''nfs'' ''srv:/a/b''"
  have eq: "mount_dir ''nfs'' ''srv:/a_b'' = ''/var/lib/gpu-cr/mnt/nfs_srv__a_b''"
    "?mnt = ''/var/lib/gpu-cr/mnt/nfs_srv__a_b''" "mount_subdir ?mnt ''..'' = mountBase"
    "Clean ''/var/lib/gpu-cr/mnt/nfs_srv__a_b'' = ''/var/lib/gpu-cr/mnt/nfs_srv__a_b''"
    "escapeMount ''/var/lib/gpu-cr/mnt/nfs_srv__a_b'' = ''/var/lib/gpu-cr/mnt/nfs_srv__a_b''"
    "word_ok ''srv:/a_b''" "word_ok ''nfs''" "word_ok ''rw''" "word_ok ''/var/lib/gpu-cr/mnt/nfs_srv__a_b''"
    by code_simp+
  have "mount_ok ?t" by (simp add: mount_ok_def eq mount_line_def)
  then have m: "mounted_in (print_mounts [?t]) (Clean ?mnt)" by (subst mounted_print_mounts) (simp_all add: eq)
  then have run: "run_state (isMountpoint quiet_env ?mnt) other_export =
      (True, after_call quiet_env (EvOpen proc_mounts) other_export)"
    by (simp add: isMountpoint_def open_read_def other_export_def)
  show ?thesis
    using ensureMounted_skips [of quiet_env ?mnt other_export "''nfs''" "''srv:/a/b''" "[]"]
    by (simp add: run eq(3)) (simp add: other_export_def)
qed

end
