(* ===== verification/Pipeline.thy ===== *)
theory Pipeline
  imports Storage
begin

text \<open>
  The checkpoint pipeline of \<^verbatim>\<open>internal/agent/checkpoint.go\<close>: freeze the GPU data through the hook,
  have the kubelet dump the container, resume the workload, store the archive. The per-phase
  timers only feed a log line and are left out.
\<close>

datatype checkpoint_error =
    SignalFreeze signal_error
  | FreezeNoAck ack_error
  | KubeletFailed kubelet_error
  | StoreFailed store_error

fun checkpoint_text :: "checkpoint_error \<Rightarrow> string" where
  "checkpoint_text (SignalFreeze e) = ''signal data-buffer checkpoint: '' @ signal_text e"
| "checkpoint_text (FreezeNoAck e) = ''data-buffer checkpoint did not ack: '' @ ack_text e"
| "checkpoint_text (KubeletFailed e) = ''kubelet CRIUgpu checkpoint: '' @ kubelet_text e"
| "checkpoint_text (StoreFailed e) = ''store checkpoint (workload already resumed): '' @ store_text e"

definition freeze_step :: "env \<Rightarrow> Checkpointer \<Rightarrow> Target \<Rightarrow> checkpoint_error option go" where
  "freeze_step E c t =
    (if cp_GCRInterception c then do {
       r \<leftarrow> Signal E (cp_Interceptor c) (tg_PodUID t) GCRSignalCkpt;
       case r of
         Some e \<Rightarrow> State_Monad.return (Some (SignalFreeze e))
       | None \<Rightarrow>
           if \<not> cp_DryRun c then do {
             a \<leftarrow> WaitForAck E (cp_Interceptor c) (tg_PodUID t) (120 * second);
             State_Monad.return (map_option FreezeNoAck a) }
           else State_Monad.return None }
     else State_Monad.return None)"

definition produce_step :: "env \<Rightarrow> Checkpointer \<Rightarrow> Target \<Rightarrow> (checkpoint_error + string list) go" where
  "produce_step E c t =
    (if cp_DryRun c then State_Monad.return (Inr [simulatedArchive t])
     else do {
       r \<leftarrow> KubeletClient_Checkpoint E (cp_Kubelet c) (tg_Namespace t) (tg_Pod t) (tg_Container t);
       case r of
         Inr produced \<Rightarrow> State_Monad.return (Inr produced)
       | Inl e \<Rightarrow>
           if cp_GCRInterception c then do {
             _ \<leftarrow> Signal E (cp_Interceptor c) (tg_PodUID t) GCRSignalRestore;
             State_Monad.return (Inl (KubeletFailed e)) }
           else State_Monad.return (Inl (KubeletFailed e)) })"

definition resume_step :: "env \<Rightarrow> Checkpointer \<Rightarrow> Target \<Rightarrow> unit go" where
  "resume_step E c t =
    (if cp_GCRInterception c then do {
       r \<leftarrow> Signal E (cp_Interceptor c) (tg_PodUID t) GCRSignalRestore;
       case r of
         Some e \<Rightarrow> State_Monad.return ()
       | None \<Rightarrow>
           if \<not> cp_DryRun c then do {
             _ \<leftarrow> WaitForAck E (cp_Interceptor c) (tg_PodUID t) (120 * second);
             State_Monad.return () }
           else State_Monad.return () }
     else State_Monad.return ())"

definition Checkpointer_Checkpoint :: "env \<Rightarrow> Checkpointer \<Rightarrow> Target \<Rightarrow> (checkpoint_error + Result) go" where
  "Checkpointer_Checkpoint E c t = do {
     start \<leftarrow> now;
     f \<leftarrow> freeze_step E c t;
     case f of
       Some e \<Rightarrow> State_Monad.return (Inl e)
     | None \<Rightarrow> do {
         p \<leftarrow> produce_step E c t;
         case p of
           Inl e \<Rightarrow> State_Monad.return (Inl e)
         | Inr produced \<Rightarrow> do {
             _ \<leftarrow> resume_step E c t;
             s \<leftarrow> store E c t produced;
             State_Monad.return (case s of
               Inl e \<Rightarrow> Inl (StoreFailed e)
             | Inr stored \<Rightarrow> Inr \<lparr>rs_ArchivePath = stored, rs_TakenAt = start\<rparr>) } } }"

subsection \<open>The phases of a run\<close>

abbreviation tg_channel :: "Checkpointer \<Rightarrow> Target \<Rightarrow> event \<Rightarrow> bool" where
  "tg_channel c t \<equiv> channel_event (cp_Interceptor c) (tg_PodUID t)"

abbreviation tg_ctrl :: "Checkpointer \<Rightarrow> Target \<Rightarrow> string" where
  "tg_ctrl c t \<equiv> ctrl_path (cp_Interceptor c) (tg_PodUID t)"

abbreviation tg_request :: "Checkpointer \<Rightarrow> Target \<Rightarrow> http_request" where
  "tg_request c t \<equiv> checkpoint_request (cp_Kubelet c) (tg_Namespace t) (tg_Pod t) (tg_Container t)"

definition hook_ev :: "Checkpointer \<Rightarrow> Target \<Rightarrow> event \<Rightarrow> bool" where
  "hook_ev c t ev \<longleftrightarrow> cp_GCRInterception c \<and> tg_channel c t ev"

lemma hook_on: "cp_GCRInterception c \<Longrightarrow> state_io_rel (calls (tg_channel c t)) m \<Longrightarrow> state_io_rel (calls (hook_ev c t)) m"
  by (erule io_calls_mono) (simp add: hook_ev_def)

lemma freeze_calls: "state_io_rel (calls (hook_ev c t)) (freeze_step E c t)"
  unfolding freeze_step_def
  by (intro calls_rel.rel_intros hook_on Signal_calls WaitForAck_calls)

lemma resume_calls: "state_io_rel (calls (hook_ev c t)) (resume_step E c t)"
  unfolding resume_step_def
  by (intro calls_rel.rel_intros hook_on Signal_calls WaitForAck_calls)

lemma produce_calls:
  "state_io_rel (calls (\<lambda>e. hook_ev c t e \<or> e = EvHttp (tg_request c t))) (produce_step E c t)"
  unfolding produce_step_def
  by (intro calls_rel.rel_intros KubeletClient_Checkpoint_calls io_calls_mono [OF Signal_calls])
     (simp_all add: hook_ev_def)

lemma Checkpoint_cases:
  assumes "run_state (Checkpointer_Checkpoint E c t) w = (r, w')"
  obtains (freeze) e where "r = Inl e" and "run_state (freeze_step E c t) w = (Some e, w')"
  | (kubelet) e w1 where "r = Inl e" and "run_state (freeze_step E c t) w = (None, w1)"
      and "run_state (produce_step E c t) w1 = (Inl e, w')"
  | (store) produced s w1 w2 w3 where "run_state (freeze_step E c t) w = (None, w1)"
      and "run_state (produce_step E c t) w1 = (Inr produced, w2)"
      and "run_state (resume_step E c t) w2 = ((), w3)"
      and "run_state (store E c t produced) w3 = (s, w')"
      and "r = (case s of Inl e \<Rightarrow> Inl (StoreFailed e) | Inr p \<Rightarrow> Inr \<lparr>rs_ArchivePath = p, rs_TakenAt = w_now w\<rparr>)"
proof -
  obtain f w1 where 1: "run_state (freeze_step E c t) w = (f, w1)" by fastforce
  obtain p w2 where 2: "run_state (produce_step E c t) w1 = (p, w2)" by fastforce
  obtain w3 where 3: "run_state (resume_step E c t) w2 = ((), w3)"
    by (cases "run_state (resume_step E c t) w2") simp
  show ?thesis
  proof (cases f)
    case (Some e)
    with assms 1 show ?thesis by (intro freeze [of e]) (auto simp: Checkpointer_Checkpoint_def)
  next
    case f: None
    show ?thesis
    proof (cases p)
      case (Inl e)
      with assms 1 2 f show ?thesis by (intro kubelet [of e w1]) (auto simp: Checkpointer_Checkpoint_def)
    next
      case (Inr produced)
      obtain s w4 where 4: "run_state (Storage.store E c t produced) w3 = (s, w4)" by fastforce
      from assms 1 2 3 4 f Inr show ?thesis
        by (intro store [of w1 produced w2 w3 s]) (auto simp: Checkpointer_Checkpoint_def)
    qed
  qed
qed

text \<open>What each step writes to the control file.\<close>

lemma freeze_sent:
  assumes "run_state (freeze_step E c t) w = (r, w')" and "cp_GCRInterception c"
  shows "r = None \<Longrightarrow> sent (tg_ctrl c t) w w' = [''1'']"
    and "(\<exists>e. r = Some (FreezeNoAck e)) \<Longrightarrow> sent (tg_ctrl c t) w w' = [''1'']"
    and "(\<exists>e. r = Some (SignalFreeze e)) \<Longrightarrow> sent (tg_ctrl c t) w w' \<in> {[], [''1'']}"
    and "r = None \<Longrightarrow> \<not> cp_DryRun c \<Longrightarrow> w_files w' (tg_ctrl c t) \<in> {Some [], Some ''0''}"
proof -
  let ?im = "cp_Interceptor c" and ?u = "tg_PodUID t"
  have one: "fmt_d GCRSignalCkpt = ''1''" by code_simp
  obtain s w1 where s: "run_state (Signal E ?im ?u GCRSignalCkpt) w = (s, w1)" by fastforce
  obtain a w2 where a: "run_state (WaitForAck E ?im ?u (120 * second)) w1 = (a, w2)" by fastforce
  note calls = state_io_relD [OF Signal_calls s] state_io_relD [OF WaitForAck_calls a]
  have sig: "s = None \<Longrightarrow> sent (tg_ctrl c t) w w1 = [''1'']" "sent (tg_ctrl c t) w w1 \<in> {[], [''1'']}"
    using gcr_hook.sig_done [of E ?im ?u _ w w1] Signal_sent [OF s] s one by auto
  have both: "sent (tg_ctrl c t) w w2 = sent (tg_ctrl c t) w w1"
    using sent_trans [OF calls] WaitForAck_sent [OF a] by simp
  have idle: "a = None \<Longrightarrow> w_files w2 (tg_ctrl c t) \<in> {Some [], Some ''0''}"
    using gcr_hook.wait_idle [of E ?im ?u _ w1 w2] a idle_text by auto
  have run: "(r, w') = (case s of Some e \<Rightarrow> (Some (SignalFreeze e), w1)
      | None \<Rightarrow> if cp_DryRun c then (None, w1) else (map_option FreezeNoAck a, w2))"
    using assms s a by (auto simp: freeze_step_def split: option.splits)
  show "r = None \<Longrightarrow> sent (tg_ctrl c t) w w' = [''1'']"
    "(\<exists>e. r = Some (FreezeNoAck e)) \<Longrightarrow> sent (tg_ctrl c t) w w' = [''1'']"
    "(\<exists>e. r = Some (SignalFreeze e)) \<Longrightarrow> sent (tg_ctrl c t) w w' \<in> {[], [''1'']}"
    "r = None \<Longrightarrow> \<not> cp_DryRun c \<Longrightarrow> w_files w' (tg_ctrl c t) \<in> {Some [], Some ''0''}"
    using run sig both idle by (auto split: option.splits if_splits)
qed

lemma resume_sent:
  assumes "run_state (resume_step E c t) w = (r, w')"
  shows "sent (tg_ctrl c t) w w' \<in> (if cp_GCRInterception c then {[], [''2'']} else {[]})"
proof -
  let ?im = "cp_Interceptor c" and ?u = "tg_PodUID t"
  have two: "fmt_d GCRSignalRestore = ''2''" by code_simp
  obtain s w1 where s: "run_state (Signal E ?im ?u GCRSignalRestore) w = (s, w1)" by fastforce
  obtain a w2 where a: "run_state (WaitForAck E ?im ?u (120 * second)) w1 = (a, w2)" by fastforce
  note calls = state_io_relD [OF Signal_calls s] state_io_relD [OF WaitForAck_calls a]
  have "sent (tg_ctrl c t) w w2 = sent (tg_ctrl c t) w w1"
    using sent_trans [OF calls] WaitForAck_sent [OF a] by simp
  moreover have "w' = (if cp_GCRInterception c then (if s = None \<and> \<not> cp_DryRun c then w2 else w1) else w)"
    using assms s a by (auto simp: resume_step_def split: option.splits if_splits)
  ultimately show ?thesis using Signal_sent [OF s] two by (auto simp: sent_def)
qed

lemma produce_ok:
  assumes "run_state (produce_step E c t) w = (Inr produced, w')" and "\<not> cp_DryRun c"
  shows "w_hist w' = w_hist w @ [EvHttp (tg_request c t)]" and "produced \<noteq> []"
  using assms
  by (auto simp: produce_step_def KubeletClient_Checkpoint_def http_do_def case_prod_unfold
      split: option.splits sum.splits if_splits)

text \<open>A dump that failed: the workload is told to resume.\<close>

lemma produce_failed:
  assumes "run_state (produce_step E c t) w = (Inl e, w')"
  obtains k w1 where "e = KubeletFailed k" and "\<not> cp_DryRun c"
    and "run_state (KubeletClient_Checkpoint E (cp_Kubelet c) (tg_Namespace t) (tg_Pod t) (tg_Container t)) w = (Inl k, w1)"
    and "w' = (if cp_GCRInterception c
      then snd (run_state (Signal E (cp_Interceptor c) (tg_PodUID t) GCRSignalRestore) w1) else w1)"
proof -
  obtain k w1 where k: "run_state (KubeletClient_Checkpoint E (cp_Kubelet c) (tg_Namespace t) (tg_Pod t) (tg_Container t)) w = (k, w1)"
    by fastforce
  show ?thesis
    using assms k
    by (cases k; intro that [of "projl k" w1]) (auto simp: produce_step_def case_prod_unfold split: if_splits)
qed

lemma KubeletClient_Checkpoint_sent:
  assumes "run_state (KubeletClient_Checkpoint E k ns p c) w = (r, w')"
  shows "sent q w w' = []"
  by (rule sent_none [OF state_io_relD [OF KubeletClient_Checkpoint_calls [of "\<lambda>e. \<exists>x. e = EvHttp x"] assms]]) auto

lemma produce_failed_sent:
  assumes "run_state (produce_step E c t) w = (Inl e, w')" and on: "cp_GCRInterception c"
    and dir: "\<And>h. e_fault E (h @ [EvMkdirAll (Join [im_HostRunDir (cp_Interceptor c), tg_PodUID t])]) = None"
    and ctrl: "\<And>h. e_fault E (h @ [EvWriteFile (tg_ctrl c t) ''2'']) = None"
  shows "sent (tg_ctrl c t) w w' = [''2'']" and "w_files w' (tg_ctrl c t) = Some ''2''"
proof -
  have two: "fmt_d GCRSignalRestore = ''2''" by code_simp
  obtain k w1 where k: "run_state (KubeletClient_Checkpoint E (cp_Kubelet c) (tg_Namespace t) (tg_Pod t) (tg_Container t)) w = (Inl k, w1)"
    and w': "w' = snd (run_state (Signal E (cp_Interceptor c) (tg_PodUID t) GCRSignalRestore) w1)"
    using produce_failed [OF assms(1)] on by metis
  have "fst (run_state (Signal E (cp_Interceptor c) (tg_PodUID t) GCRSignalRestore) w1) = None"
    using dir ctrl by (simp add: Signal_def Let_def mkdir_all_def write_file_def two)
  then have s: "run_state (Signal E (cp_Interceptor c) (tg_PodUID t) GCRSignalRestore) w1 = (None, w')"
    using w' by (simp add: prod_eq_iff)
  have "sent (tg_ctrl c t) w w' = sent (tg_ctrl c t) w w1 @ sent (tg_ctrl c t) w1 w'"
    by (rule sent_trans [OF state_io_relD [OF KubeletClient_Checkpoint_calls [of "\<lambda>_. True"] k] state_io_relD [OF Signal_calls s]]) simp
  then show "sent (tg_ctrl c t) w w' = [''2'']" "w_files w' (tg_ctrl c t) = Some ''2''"
    using gcr_hook.sig_done [OF s] KubeletClient_Checkpoint_sent [OF k] two by simp_all
qed

lemma calls_append: "calls P w w' \<Longrightarrow> \<exists>evs. w_hist w' = w_hist w @ evs \<and> list_all P evs \<and> sent q w w' = signals_to q evs"
  by (auto simp: calls_def sent_def)

lemma checkpoint_phases:
  assumes "run_state (Checkpointer_Checkpoint E c t) w = (Inr res, w')" and dry: "\<not> cp_DryRun c"
  obtains freeze resume stored where
    "w_hist w' = w_hist w @ freeze @ [EvHttp (tg_request c t)] @ resume @ stored"
    and "list_all (hook_ev c t) freeze" and "list_all (hook_ev c t) resume"
    and "list_all (store_ev False) stored"
    and "cp_GCRInterception c \<Longrightarrow> signals_to (tg_ctrl c t) freeze = [''1'']"
    and "cp_GCRInterception c \<Longrightarrow> signals_to (tg_ctrl c t) resume \<in> {[], [''2'']}"
  using assms(1)
proof (cases rule: Checkpoint_cases)
  case (store produced s w1 w2 w3)
  obtain f where f: "w_hist w1 = w_hist w @ f" "list_all (hook_ev c t) f" "sent (tg_ctrl c t) w w1 = signals_to (tg_ctrl c t) f"
    using calls_append [OF state_io_relD [OF freeze_calls store(1)]] by blast
  obtain r where r: "w_hist w3 = w_hist w2 @ r" "list_all (hook_ev c t) r" "sent (tg_ctrl c t) w2 w3 = signals_to (tg_ctrl c t) r"
    using calls_append [OF state_io_relD [OF resume_calls store(3)]] by blast
  obtain st where st: "w_hist w' = w_hist w3 @ st" "list_all (store_ev (cp_DryRun c)) st"
    using calls_append [OF state_io_relD [OF store_calls store(4)]] by blast
  show ?thesis
  proof (rule that [of f r st])
    show "w_hist w' = w_hist w @ f @ [EvHttp (tg_request c t)] @ r @ st"
      using f(1) r(1) st(1) produce_ok(1) [OF store(2) dry] by simp
    show "signals_to (tg_ctrl c t) f = [''1'']" if "cp_GCRInterception c"
      using freeze_sent(1) [OF store(1) that] f(3) by simp
    show "signals_to (tg_ctrl c t) r \<in> {[], [''2'']}" if "cp_GCRInterception c"
      using resume_sent [OF store(3)] r(3) that by simp
  qed (use f r st dry in simp_all)
qed simp_all

subsection \<open>When nothing fails\<close>

definition no_faults :: "env \<Rightarrow> bool" where
  "no_faults E \<longleftrightarrow> (\<forall>h. e_fault E h = None)"

lemma no_faultsD [simp]: "no_faults E \<Longrightarrow> e_fault E h = None"
  by (simp add: no_faults_def)

lemma Signal_succeeds: "no_faults E \<Longrightarrow> fst (run_state (Signal E m key sig) w) = None"
  by (simp add: Signal_def Let_def mkdir_all_def write_file_def)

lemma copyFile_succeeds:
  "no_faults E \<Longrightarrow> rely E src \<Longrightarrow> w_files w src \<noteq> None \<Longrightarrow> fst (run_state (copyFile E src dst mode) w) = None"
  by (auto simp: copyFile_def syscall_defs Let_def)

lemma persist_blob_succeeds:
  assumes "no_faults E" and "rely E (blob_source c t)"
  shows "fst (run_state (persist_blob E c t dst) w) = None"
proof -
  let ?w1 = "after_call E (EvStat (blob_source c t)) w"
  have "w_files w (blob_source c t) \<noteq> None \<Longrightarrow>
      fst (run_state (copyFile E (blob_source c t) (blob_target dst) mode_0644) ?w1) = None"
    using assms by (intro copyFile_succeeds) simp_all
  with assms show ?thesis
    by (auto simp: persist_blob_def stat_size_def case_prod_unfold split: option.splits)
qed

lemma storeToDir_succeeds:
  assumes "no_faults E" and "rely E src" and "rely E (blob_source c t)" and "w_files w src \<noteq> None"
    and "\<not> cp_DryRun c"
  shows "fst (run_state (storeToDir E c t (src # rest) dir) w) = Inr (store_path E t dir w)"
proof -
  obtain r w' where run: "run_state (storeToDir E c t (src # rest) dir) w = (r, w')" by fastforce
  from run assms(5) refl [of "store_path E t dir w"] show ?thesis
  proof (cases rule: storeToDir_cases)
    case (mkdir err)
    with assms(1) show ?thesis by simp
  next
    case (copy err)
    moreover have "w_files (after_call E (EvMkdirAll dir) w) src \<noteq> None" using assms(2,4) by simp
    from copyFile_succeeds [OF assms(1,2) this, of "store_path E t dir w" mode_0644]
    have "fst (run_state (copyFile E src (store_path E t dir w) mode_0644) (after_call E (EvMkdirAll dir) w)) = None" .
    ultimately show ?thesis by simp
  next
    case (blob e w2)
    with persist_blob_succeeds [OF assms(1,3)] show ?thesis by (metis fst_conv option.distinct(1))
  qed (use run in simp)
qed

text \<open>Files the pipeline leaves alone before it stores.\<close>

lemma keepsI: "(\<And>w. w_files (snd (run_state m w)) p = w_files w p) \<Longrightarrow> state_io_rel (keeps p) m"
  by (auto simp: state_io_rel_def keeps_def)

lemma Signal_keeps: "rely E p \<Longrightarrow> p \<noteq> ctrl_path m key \<Longrightarrow> state_io_rel (keeps p) (Signal E m key sig)"
  unfolding Signal_def Let_def by (intro keeps_rel.rel_intros io_keeps) simp_all

lemma ack_loop_keeps: "rely E p \<Longrightarrow> w_files (snd (ack_loop E ctrl deadline w)) p = w_files w p"
proof (induction E ctrl deadline w rule: ack_loop.induct)
  case (1 E ctrl deadline w)
  obtain b w1 where r: "run_state (read_file E ctrl) w = (b, w1)" by fastforce
  have "w_files w1 p = w_files w p" by (rule keepsD [OF io_keeps(3) [OF "1.prems"] r])
  then show ?case using "1.IH" [OF _ r [symmetric]] "1.prems" r
    by (subst ack_loop.simps) (auto split: if_splits)
qed

lemma WaitForAck_keeps: "rely E p \<Longrightarrow> state_io_rel (keeps p) (WaitForAck E m key t)"
  by (rule keepsI) (simp add: run_WaitForAck ack_loop_keeps)

lemma resume_keeps: "rely E p \<Longrightarrow> p \<noteq> tg_ctrl c t \<Longrightarrow> state_io_rel (keeps p) (resume_step E c t)"
  unfolding resume_step_def by (intro keeps_rel.rel_intros Signal_keeps WaitForAck_keeps)

lemma ensureRealMount_keeps: "rely E p \<Longrightarrow> state_io_rel (keeps p) (ensureRealMount E q)"
  unfolding ensureRealMount_def by (intro keeps_rel.rel_intros io_keeps)

text \<open>
  A kubelet that answers every checkpoint request by writing an archive with the given bytes,
  and a hostPath volume that is really mounted.
\<close>

definition kubelet_writes :: "env \<Rightarrow> string \<Rightarrow> string \<Rightarrow> bool" where
  "kubelet_writes E src bytes \<longleftrightarrow>
    (\<forall>url. e_urlerr E url = None) \<and>
    (\<exists>body rest. e_items E body = Inr (src # rest) \<and>
      (\<forall>h fs. e_http E h fs = (Inr \<lparr>hs_StatusCode = StatusOK, hs_Body = body\<rparr>, fs(src \<mapsto> bytes))))"

definition mounted_volume :: "env \<Rightarrow> string \<Rightarrow> bool" where
  "mounted_volume E path \<longleftrightarrow> (\<forall>w. fst (run_state (ensureRealMount E path) w) = None)"

lemma produce_writes:
  assumes "kubelet_writes E src bytes" and "\<not> cp_DryRun c"
  obtains rest w' where "run_state (produce_step E c t) w = (Inr (src # rest), w')" and "w_files w' src = Some bytes"
proof -
  obtain body rest where b: "e_items E body = Inr (src # rest)"
    "\<And>h fs. e_http E h fs = (Inr \<lparr>hs_StatusCode = StatusOK, hs_Body = body\<rparr>, fs(src \<mapsto> bytes))"
    using assms(1) by (auto simp: kubelet_writes_def)
  have "e_urlerr E url = None" for url using assms(1) by (simp add: kubelet_writes_def)
  with b assms(2) show ?thesis
    by (intro that [of rest]) (auto simp: produce_step_def KubeletClient_Checkpoint_def http_do_def)
qed

lemma freeze_succeeds:
  assumes "no_faults E" and "answers_after E (tg_ctrl c t) 0"
  shows "fst (run_state (freeze_step E c t) w) = None"
proof -
  have "is_ack (fst (run_state (read_file E (tg_ctrl c t)) v))" for v
    using assms(2) by (simp add: read_file_def answers_after_def is_ack_def)
  then have "fst (run_state (WaitForAck E (cp_Interceptor c) (tg_PodUID t) (120 * second)) v) = None" for v
    unfolding run_WaitForAck by (subst ack_loop.simps) (simp add: case_prod_unfold)
  with Signal_succeeds [OF assms(1)] show ?thesis by (simp add: freeze_step_def case_prod_unfold)
qed

lemma hostPath_store:
  assumes "ss_Type (tg_Storage t) = StorageHostPath" and "\<not> cp_DryRun c"
    and "mounted_volume E (ss_Path (tg_Storage t))"
  shows "run_state (store E c t produced) w =
    run_state (storeToDir E c t produced (ss_Path (tg_Storage t))) (snd (run_state (ensureRealMount E (ss_Path (tg_Storage t))) w))"
  using assms by (simp add: store_def storage_types mounted_volume_def case_prod_unfold Let_def)

lemma checkpoint_completes:
  assumes "no_faults E" and "answers_after E (tg_ctrl c t) 0" and "kubelet_writes E src bytes"
    and "mounted_volume E (ss_Path (tg_Storage t))" and "ss_Type (tg_Storage t) = StorageHostPath"
    and "\<not> cp_DryRun c" and "src \<noteq> tg_ctrl c t" and "rely E (blob_source c t)" and "rely E src"
  obtains w3 w' where "run_state (Checkpointer_Checkpoint E c t) w =
      (Inr \<lparr>rs_ArchivePath = store_path E t (ss_Path (tg_Storage t)) w3, rs_TakenAt = w_now w\<rparr>, w')"
    and "w_files w3 src = Some bytes"
    and "\<exists>rest. run_state (storeToDir E c t (src # rest) (ss_Path (tg_Storage t))) w3
      = (Inr (store_path E t (ss_Path (tg_Storage t)) w3), w')"
proof -
  let ?dir = "ss_Path (tg_Storage t)"
  obtain w1 where 1: "run_state (freeze_step E c t) w = (None, w1)"
    using freeze_succeeds [OF assms(1,2)] by (metis prod.collapse)
  obtain rest w2 where 2: "run_state (produce_step E c t) w1 = (Inr (src # rest), w2)" "w_files w2 src = Some bytes"
    using produce_writes [OF assms(3,6)] by metis
  obtain u w2' where 3: "run_state (resume_step E c t) w2 = (u, w2')" by (cases "run_state (resume_step E c t) w2") simp
  let ?w3 = "snd (run_state (ensureRealMount E ?dir) w2')"
  have "w_files w2' src = Some bytes"
    using keepsD [OF resume_keeps [OF assms(9,7)] 3] 2(2) by simp
  then have src: "w_files ?w3 src = Some bytes"
    using keepsD [OF ensureRealMount_keeps [OF assms(9)]] by (metis prod.collapse)
  then obtain w' where s: "run_state (storeToDir E c t (src # rest) ?dir) ?w3 = (Inr (store_path E t ?dir ?w3), w')"
    using storeToDir_succeeds [OF assms(1,9,8) _ assms(6)] by (metis option.distinct(1) prod.collapse)
  then have "run_state (store E c t (src # rest)) w2' = (Inr (store_path E t ?dir ?w3), w')"
    by (simp add: hostPath_store [OF assms(5,6,4)])
  with 1 2 3 have "run_state (Checkpointer_Checkpoint E c t) w =
      (Inr \<lparr>rs_ArchivePath = store_path E t ?dir ?w3, rs_TakenAt = w_now w\<rparr>, w')"
    by (simp add: Checkpointer_Checkpoint_def)
  with src s show ?thesis by (intro that) auto
qed

text \<open>A freeze that fails.\<close>

lemma freeze_error:
  assumes "run_state (freeze_step E c t) w = (Some e, w')"
  shows "cp_GCRInterception c" and "(\<exists>s. e = SignalFreeze s) \<or> (\<exists>a. e = FreezeNoAck a \<and> \<not> cp_DryRun c)"
  using assms by (auto simp: freeze_step_def case_prod_unfold split: if_splits option.splits)

lemma Checkpoint_freeze_error:
  assumes "run_state (Checkpointer_Checkpoint E c t) w = (Inl (FreezeNoAck a), w')"
  shows "run_state (freeze_step E c t) w = (Some (FreezeNoAck a), w')"
  using assms
proof (cases rule: Checkpoint_cases)
  case (kubelet e w1)
  then show ?thesis using produce_failed by blast
next
  case (store produced s w1 w2 w3)
  then show ?thesis by (auto split: sum.splits)
qed simp

lemma Checkpoint_kubelet_error:
  assumes "run_state (Checkpointer_Checkpoint E c t) w = (Inl (KubeletFailed k), w')"
  obtains w1 where "run_state (freeze_step E c t) w = (None, w1)"
    and "run_state (produce_step E c t) w1 = (Inl (KubeletFailed k), w')"
  using assms
proof (cases rule: Checkpoint_cases)
  case (freeze e)
  with freeze_error(2) show ?thesis by blast
next
  case (store produced s w1 w2 w3)
  then show ?thesis by (auto split: sum.splits)
qed (use that in simp)

text \<open>A hook that is never heard makes the freeze time out.\<close>

lemma ack_loop_unheard:
  "(\<And>v. \<not> is_ack (fst (run_state (read_file E ctrl) v))) \<Longrightarrow> fst (ack_loop E ctrl deadline w) = Some (AckTimeout ctrl)"
proof (induction E ctrl deadline w rule: ack_loop.induct)
  case (1 E ctrl deadline w)
  obtain b w1 where r: "run_state (read_file E ctrl) w = (b, w1)" by fastforce
  with "1.prems" [of w] have nb: "\<not> is_ack b" by simp
  show ?case using "1.IH" [OF _ r [symmetric] nb "1.prems"] nb r by (subst ack_loop.simps) simp
qed

subsection \<open>Properties\<close>

text \<open>A node on which a checkpoint succeeds: the hook answers at once, the kubelet writes an archive,
  and the API server knows the resource and its Pod.\<close>

definition ckpt_mounts :: "mount list" where
  "ckpt_mounts =
    [\<lparr>mt_dev = ''overlay'', mt_point = ''/'', mt_type = ''overlay'', mt_opts = ''rw''\<rparr>,
     \<lparr>mt_dev = ''/dev/sdb'', mt_point = ''/ckpt'', mt_type = ''ext4'', mt_opts = ''rw''\<rparr>]"

definition train_pod :: Pod where
  "train_pod = \<lparr>pod_Name = ''train-0'', pod_Namespace = ''ml'', pod_UID = ''u1'', pod_NodeName = ''node-a'', pod_Labels = [],
     pod_Containers = [\<lparr>ct_Name = ''main'', ct_Limits = [(''nvidia.com/gpu'', 1)], ct_Requests = []\<rparr>],
     pod_Phase = ''Running'', pod_DeletionTimestamp = None\<rparr>"

definition train_cr :: GPUCheckpoint where
  "train_cr = \<lparr>
     gc_Meta = \<lparr>om_Name = ''ck'', om_Namespace = ''ml'', om_Labels = [], om_UID = [], om_Controller = None\<rparr>,
     gc_Spec = \<lparr>gs_WorkloadRef = \<lparr>wr_Kind = ''Pod'', wr_Namespace = ''ml'', wr_Name = ''train-0'', wr_Container = [], wr_NodeInfo = []\<rparr>,
       gs_Storage = empty_storage\<lparr>ss_Type := ''hostPath'', ss_Path := ''/ckpt''\<rparr>, gs_Schedule = [], gs_Incremental = False\<rparr>,
     gc_Status = empty_status\<rparr>"

definition train_env :: env where
  "train_env = prompt_hook\<lparr>
     e_getcr := (\<lambda>h. Inr train_cr), e_getpod := (\<lambda>h. Inr train_pod),
     e_update := (\<lambda>h. case last h of EvUpdateStatus cr \<Rightarrow> Inr cr | _ \<Rightarrow> Inl (ApiError ''no update'')),
     e_http := (\<lambda>h fs. (Inr \<lparr>hs_StatusCode = StatusOK, hs_Body = []\<rparr>, fs(train_src \<mapsto> ''TAR''))),
     e_items := (\<lambda>b. Inr [train_src]),
     e_interfere := (\<lambda>h fs. (case last h of
       EvReadFile p \<Rightarrow> if p = ''/var/lib/gpu-cr/run/u1/control'' then fs(p := Some ''0'') else fs | _ \<Rightarrow> fs)
       (proc_mounts := Some (print_mounts ckpt_mounts)))\<rparr>"

lemma train_ctrl: "tg_ctrl node_checkpointer train_target = ''/var/lib/gpu-cr/run/u1/control''"
  by code_simp

lemma train_rely: "p \<notin> {''/var/lib/gpu-cr/run/u1/control'', proc_mounts} \<Longrightarrow> rely train_env p"
  by (auto simp: rely_def train_env_def split: event.splits)

lemma ckpt_mounts_ok: "\<forall>t\<in>set ckpt_mounts. mount_ok t"
proof -
  have "word_ok ''/dev/sdb''" "escapeMount ''/ckpt'' = ''/ckpt''" "word_ok ''/ckpt''" "Clean ''/ckpt'' = ''/ckpt''"
    by code_simp+
  then show ?thesis by (simp add: ckpt_mounts_def mount_ok_def some_words mount_line_def)
qed

lemma train_env_ok:
  "no_faults train_env" "answers_after train_env (tg_ctrl node_checkpointer train_target) k"
  "kubelet_writes train_env train_src ''TAR''" "rely train_env train_src" "rely train_env train_blob"
  "train_src \<noteq> tg_ctrl node_checkpointer train_target" "mounted_volume train_env ''/ckpt''"
proof -
  show "no_faults train_env" by (simp add: no_faults_def train_env_def)
  show "answers_after train_env (tg_ctrl node_checkpointer train_target) k"
    unfolding train_ctrl by (simp add: answers_after_def idle_text train_env_def proc_mounts_def)
  show "kubelet_writes train_env train_src ''TAR''"
    by (simp add: kubelet_writes_def train_env_def prompt_hook_def)
  show "rely train_env train_src" "rely train_env train_blob"
    by (rule train_rely, simp add: train_src_def train_blob_def proc_mounts_def)+
  show "train_src \<noteq> tg_ctrl node_checkpointer train_target" unfolding train_ctrl by (simp add: train_src_def)
  have "\<not> on_overlay (map (\<lambda>t. (mt_point t, mt_type t)) ckpt_mounts) ''/ckpt''" by code_simp
  then show "mounted_volume train_env ''/ckpt''"
    using ensureRealMount_printed [OF _ ckpt_mounts_ok, of "''/ckpt''" train_env]
    by (auto simp: mounted_volume_def train_env_def)
qed

lemma train_hostPath:
  "ss_Path (tg_Storage train_target) = ''/ckpt''" "ss_Type (tg_Storage train_target) = StorageHostPath"
  by (simp_all add: train_target_def storage_types)

lemma train_checkpoint:
  obtains w3 w' where "run_state (Checkpointer_Checkpoint train_env node_checkpointer train_target) w =
    (Inr \<lparr>rs_ArchivePath = store_path train_env train_target ''/ckpt'' w3, rs_TakenAt = w_now w\<rparr>, w')"
  using checkpoint_completes [OF train_env_ok(1,2,3) _ train_hostPath(2) train_flags(1) train_env_ok(6), of w]
    train_env_ok(4,5,7) unfolding train_hostPath(1) train_paths(1) by metis



text \<open>C3: A checkpoint completes when nothing fails: if no call fails, the hook answers, the kubelet
  writes its archive and the hostPath is a mounted volume, \<^verbatim>\<open>Checkpoint\<close> returns a result, and the
  stored archive holds exactly the bytes the kubelet wrote.\<close>

theorem checkpoint_live:
  assumes "no_faults E" and "answers_after E (tg_ctrl c t) 0" and "kubelet_writes E src bytes"
    and "mounted_volume E (ss_Path (tg_Storage t))" and "ss_Type (tg_Storage t) = StorageHostPath"
    and "\<not> cp_DryRun c" and "src \<noteq> tg_ctrl c t"
    and "\<And>v. files_apart c t src (store_path E t (ss_Path (tg_Storage t)) v) \<and>
      rely_store E c t src (store_path E t (ss_Path (tg_Storage t)) v)"
  shows "\<exists>res w'. run_state (Checkpointer_Checkpoint E c t) w = (Inr res, w') \<and> rs_TakenAt res = w_now w \<and>
    w_files w' (rs_ArchivePath res) = Some bytes"
proof -
  let ?dir = "ss_Path (tg_Storage t)"
  have rel: "rely E (blob_source c t)" "rely E src" using assms(8) by (auto simp: rely_store_def)
  obtain w3 w' rest where run: "run_state (Checkpointer_Checkpoint E c t) w =
      (Inr \<lparr>rs_ArchivePath = store_path E t ?dir w3, rs_TakenAt = w_now w\<rparr>, w')" and src: "w_files w3 src = Some bytes"
    and st: "run_state (storeToDir E c t (src # rest) ?dir) w3 = (Inr (store_path E t ?dir w3), w')"
    using checkpoint_completes [OF assms(1-7) rel, of w] by metis
  from storeToDir_stored [OF st assms(6) refl] assms(8) src
  have "w_files w' (store_path E t ?dir w3) = Some bytes" by auto
  with run show ?thesis by auto
qed

lemma train_dst_shape:
  "\<exists>n. store_path train_env train_target ''/ckpt'' v = ''/ckpt/checkpoint-train-0_ml-main-'' @ n @ ''.tar'' \<and> slash \<notin> set n"
proof -
  obtain at where sp: "store_path train_env train_target ''/ckpt'' v = Join [''/ckpt'', archive_name train_target at]"
    by (simp add: store_path_def)
  let ?n = "fmt_d (Unix at)"
  have an: "archive_name train_target at = ''checkpoint-train-0_ml-main-'' @ ?n @ ''.tar''"
    by (simp add: archive_name_def train_target_def)
  have n: "slash \<notin> set ?n" using fmt_nat_digits [of slash] by (auto simp: fmt_d_def slash_def is_digit_def)
  then have "path_elem (archive_name train_target at)" by (auto simp: an path_elem_def slash_def)
  moreover have "elems ''/ckpt'' = [''ckpt'']" by code_simp
  ultimately have "Join [''/ckpt'', archive_name train_target at] = abs_path [''ckpt'', archive_name train_target at]"
    using Join_abs [of "''/ckpt''" "[archive_name train_target at]"] by simp
  with sp n show ?thesis by (intro exI [of _ ?n]) (simp add: abs_path_def an slash_def)
qed

lemma train_all_apart:
  "files_apart node_checkpointer train_target train_src (store_path train_env train_target ''/ckpt'' v) \<and>
   rely_store train_env node_checkpointer train_target train_src (store_path train_env train_target ''/ckpt'' v)"
proof -
  obtain n where n: "store_path train_env train_target ''/ckpt'' v = ''/ckpt/checkpoint-train-0_ml-main-'' @ n @ ''.tar''"
    using train_dst_shape by blast
  let ?d = "''/ckpt/checkpoint-train-0_ml-main-'' @ n @ ''.tar''"
  have b: "blob_target ?d = ''/ckpt/checkpoint-train-0_ml-main-'' @ n @ ''.blob''"
    using TrimSuffix_append [of "''/ckpt/checkpoint-train-0_ml-main-'' @ n" "''.tar''"] by (simp add: blob_target_def)
  have "rely train_env ?d" "rely train_env (blob_target ?d)"
    unfolding b by (rule train_rely, simp add: proc_mounts_def)+
  then show ?thesis
    unfolding n files_apart_def rely_store_def train_paths(1) b
    using train_env_ok(4,5) by (simp add: train_src_def train_blob_def)
qed

theorem checkpoint_live_witness:
  "\<exists>res w'. run_state (Checkpointer_Checkpoint train_env node_checkpointer train_target) empty_world = (Inr res, w') \<and>
    w_files w' (rs_ArchivePath res) = Some ''TAR''"
  using checkpoint_live [OF train_env_ok(1,2,3) _ train_hostPath(2) train_flags(1) train_env_ok(6), of empty_world]
    train_all_apart train_env_ok(7) unfolding train_hostPath(1) by metis

text \<open>C11: When the kubelet cannot dump the container, nothing is stored and the frozen workload is told to
  resume: the calls are those to the control file and the kubelet request, the signals sent
  are 1 and then 2, and the control file holds 2 at the end.\<close>

theorem kubelet_failure_resumes:
  assumes "run_state (Checkpointer_Checkpoint E c t) w = (Inl (KubeletFailed k), w')" and "cp_GCRInterception c"
    and "\<And>h. e_fault E (h @ [EvMkdirAll (Join [im_HostRunDir (cp_Interceptor c), tg_PodUID t])]) = None"
    and "\<And>h. e_fault E (h @ [EvWriteFile (tg_ctrl c t) ''2'']) = None"
  shows "calls (\<lambda>e. tg_channel c t e \<or> e = EvHttp (tg_request c t)) w w' \<and>
    sent (tg_ctrl c t) w w' = [''1'', ''2''] \<and> w_files w' (tg_ctrl c t) = Some ''2''"
proof -
  obtain w1 where f: "run_state (freeze_step E c t) w = (None, w1)"
    and p: "run_state (produce_step E c t) w1 = (Inl (KubeletFailed k), w')"
    using assms(1) by (rule Checkpoint_kubelet_error)
  let ?P = "\<lambda>e. tg_channel c t e \<or> e = EvHttp (tg_request c t)"
  have c1: "calls ?P w w1" by (rule calls_mono [OF state_io_relD [OF freeze_calls f]]) (simp add: hook_ev_def)
  have c2: "calls ?P w1 w'" by (rule calls_mono [OF state_io_relD [OF produce_calls p]]) (auto simp: hook_ev_def)
  show ?thesis
    using calls_rel.rel_trans [OF c1 c2] sent_trans [OF c1 c2, of "tg_ctrl c t"] freeze_sent(1) [OF f assms(2)]
      produce_failed_sent [OF p assms(2-4)] by simp
qed

definition refusing_env :: env where
  "refusing_env = train_env\<lparr>e_http := (\<lambda>h fs. (Inl ''connection refused'', fs))\<rparr>"

theorem kubelet_failure_resumes_witness:
  "\<exists>k w'. run_state (Checkpointer_Checkpoint refusing_env node_checkpointer train_target) empty_world = (Inl (KubeletFailed k), w') \<and>
    sent (tg_ctrl node_checkpointer train_target) empty_world w' = [''1'', ''2'']"
proof -
  have ok: "no_faults refusing_env" "answers_after refusing_env (tg_ctrl node_checkpointer train_target) 0"
    using train_env_ok(1) train_env_ok(2) [of 0] by (simp_all add: refusing_env_def no_faults_def answers_after_def)
  obtain w1 where f: "run_state (freeze_step refusing_env node_checkpointer train_target) empty_world = (None, w1)"
    using freeze_succeeds [OF ok] by (metis prod.collapse)
  have "e_urlerr refusing_env u = None" for u by (simp add: refusing_env_def train_env_def prompt_hook_def)
  then obtain w' where run: "run_state (Checkpointer_Checkpoint refusing_env node_checkpointer train_target) empty_world
      = (Inl (KubeletFailed (KubeletCall ''connection refused'')), w')"
    using f by (simp add: Checkpointer_Checkpoint_def produce_step_def KubeletClient_Checkpoint_def http_do_def
        case_prod_unfold refusing_env_def)
  show ?thesis using kubelet_failure_resumes [OF run] run ok(1) by auto
qed

text \<open>C37: When the hook does not acknowledge the freeze in time, the checkpoint is given up with signal 1 as
  the only one sent: the workload is not told to resume, although it may yet freeze.\<close>

theorem freeze_timeout_no_resume:
  assumes "run_state (Checkpointer_Checkpoint E c t) w = (Inl (FreezeNoAck a), w')"
  shows "sent (tg_ctrl c t) w w' = [''1''] \<and> calls (tg_channel c t) w w'"
proof -
  have f: "run_state (freeze_step E c t) w = (Some (FreezeNoAck a), w')"
    by (rule Checkpoint_freeze_error [OF assms])
  have "calls (tg_channel c t) w w'" by (rule calls_mono [OF state_io_relD [OF freeze_calls f]]) (simp add: hook_ev_def)
  then show ?thesis using freeze_sent(2) [OF f freeze_error(1) [OF f]] by blast
qed

definition mute_env :: env where
  "mute_env = quiet_env\<lparr>e_fault := (\<lambda>h. case last h of EvReadFile p \<Rightarrow> Some ''I/O error'' | _ \<Rightarrow> None)\<rparr>"

theorem freeze_timeout_no_resume_witness:
  "\<exists>a w'. run_state (Checkpointer_Checkpoint mute_env node_checkpointer train_target) empty_world = (Inl (FreezeNoAck a), w') \<and>
    sent (tg_ctrl node_checkpointer train_target) empty_world w' = [''1'']"
proof -
  have "\<not> is_ack (fst (run_state (read_file mute_env p) v))" for p v
    by (simp add: mute_env_def read_file_def is_ack_def)
  then have a: "fst (run_state (WaitForAck mute_env m key d) v) = Some (AckTimeout (ctrl_path m key))" for m key d v
    unfolding run_WaitForAck by (rule ack_loop_unheard)
  have s: "fst (run_state (Signal mute_env m key n) v) = None" for m key n v
    by (simp add: Signal_def Let_def mkdir_all_def write_file_def mute_env_def)
  obtain w' where run: "run_state (Checkpointer_Checkpoint mute_env node_checkpointer train_target) empty_world
      = (Inl (FreezeNoAck (AckTimeout (tg_ctrl node_checkpointer train_target))), w')"
    by (simp add: Checkpointer_Checkpoint_def freeze_step_def case_prod_unfold a s)
  show ?thesis using freeze_timeout_no_resume [OF run] run by blast
qed

text \<open>A dry run is harmless: it only creates directories and writes files; it runs no command, sends
  no request, waits for nobody and removes nothing.\<close>

theorem dry_run_harmless:
  assumes "run_state (Checkpointer_Checkpoint E c t) w = (r, w')" and "cp_DryRun c"
  shows "calls (\<lambda>e. (\<exists>d. e = EvMkdirAll d) \<or> (\<exists>p b. e = EvWriteFile p b)) w w'"
proof -
  let ?P = "\<lambda>e. (\<exists>d. e = EvMkdirAll d) \<or> (\<exists>p b. e = EvWriteFile p b)"
  have sig: "state_io_rel (calls ?P) (Signal E m k n)" for m k n
    unfolding Signal_def Let_def by (intro calls_rel.rel_intros io_syscalls) simp_all
  have st: "state_io_rel (calls ?P) (store E c t produced)" for produced
  proof (rule io_calls_mono [OF store_calls])
    fix e assume "store_ev (cp_DryRun c) e"
    with assms(2) show "?P e" by (cases e) simp_all
  qed
  have "state_io_rel (calls ?P) (Checkpointer_Checkpoint E c t)"
    unfolding Checkpointer_Checkpoint_def freeze_step_def produce_step_def resume_step_def
    using assms(2) by (intro calls_rel.rel_intros io_basic_calls sig st) simp_all
  from state_io_relD [OF this assms(1)] show ?thesis .
qed

theorem dry_run_harmless_witness:
  "calls (\<lambda>e. (\<exists>d. e = EvMkdirAll d) \<or> (\<exists>p b. e = EvWriteFile p b)) empty_world
    (snd (run_state (Checkpointer_Checkpoint quiet_env (node_checkpointer\<lparr>cp_DryRun := True\<rparr>) train_target) empty_world))"
  by (rule dry_run_harmless [OF surjective_pairing]) simp

text \<open>With interception switched off the agent never touches a control file: every call is the kubelet
  request or a call of the store.\<close>

theorem no_interception_no_signals:
  assumes "run_state (Checkpointer_Checkpoint E c t) w = (r, w')" and "\<not> cp_GCRInterception c"
  shows "calls (\<lambda>e. e = EvHttp (tg_request c t) \<or> store_ev (cp_DryRun c) e) w w'"
proof -
  let ?P = "\<lambda>e. e = EvHttp (tg_request c t) \<or> store_ev (cp_DryRun c) e"
  have "state_io_rel (calls ?P) (Checkpointer_Checkpoint E c t)"
    unfolding Checkpointer_Checkpoint_def freeze_step_def produce_step_def resume_step_def
    using assms(2)
    by (intro calls_rel.rel_intros io_basic_calls KubeletClient_Checkpoint_calls io_calls_mono [OF store_calls]) simp_all
  from state_io_relD [OF this assms(1)] show ?thesis .
qed

theorem no_interception_no_signals_witness:
  "calls (\<lambda>e. e = EvHttp (tg_request node_checkpointer train_target) \<or> store_ev False e) empty_world
    (snd (run_state (Checkpointer_Checkpoint train_env (node_checkpointer\<lparr>cp_GCRInterception := False\<rparr>) train_target) empty_world))"
  using no_interception_no_signals [OF surjective_pairing,
      where E = train_env and c = "node_checkpointer\<lparr>cp_GCRInterception := False\<rparr>"
        and t = train_target and w = empty_world] by simp

end
