(* ===== verification/Agent_Reconciler.thy ===== *)
theory Agent_Reconciler
  imports Pipeline
begin

text \<open>
  \<^verbatim>\<open>internal/agent/reconciler.go\<close>: the per-node controller of GPUCheckpoint resources. The API
  server is part of the environment: it answers reads with any object or error, and a status
  update with an error or with the object as stored, which replaces the local copy.
\<close>

record Reconciler =
  rc_NodeName :: string
  rc_Checkpointer :: Checkpointer

definition ConditionTrue :: string where "ConditionTrue = ''True''"
definition ConditionFalse :: string where "ConditionFalse = ''False''"

subsection \<open>API calls\<close>

definition get_cr :: "env \<Rightarrow> nsname \<Rightarrow> (api_error + GPUCheckpoint) go" where
  "get_cr E key = do { h \<leftarrow> call E (EvGetCR key); State_Monad.return (e_getcr E h) }"

definition get_pod :: "env \<Rightarrow> nsname \<Rightarrow> (api_error + Pod) go" where
  "get_pod E key = do { h \<leftarrow> call E (EvGetPod key); State_Monad.return (e_getpod E h) }"

definition update_status :: "env \<Rightarrow> GPUCheckpoint \<Rightarrow> (api_error option \<times> GPUCheckpoint) go" where
  "update_status E cr = do {
     h \<leftarrow> call E (EvUpdateStatus cr);
     State_Monad.return (case e_update E h of Inl err \<Rightarrow> (Some err, cr) | Inr cr' \<Rightarrow> (None, cr')) }"

subsection \<open>Conditions\<close>

fun put_condition :: "Condition list \<Rightarrow> string \<Rightarrow> string \<Rightarrow> string \<Rightarrow> string \<Rightarrow> go_time \<Rightarrow> Condition list" where
  "put_condition [] condType s reason msg at =
    [\<lparr>cd_Type = condType, cd_Status = s, cd_Reason = reason, cd_Message = msg, cd_LastTransitionTime = at\<rparr>]"
| "put_condition (c # cs) condType s reason msg at =
    (if cd_Type c = condType then
       (c\<lparr>cd_LastTransitionTime := (if cd_Status c \<noteq> s then at else cd_LastTransitionTime c),
          cd_Status := s, cd_Reason := reason, cd_Message := msg\<rparr>) # cs
     else c # put_condition cs condType s reason msg at)"

definition setCondition ::
  "GPUCheckpointStatus \<Rightarrow> string \<Rightarrow> string \<Rightarrow> string \<Rightarrow> string \<Rightarrow> go_time \<Rightarrow> GPUCheckpointStatus" where
  "setCondition status condType s reason msg at =
    status\<lparr>st_Conditions := put_condition (st_Conditions status) condType s reason msg at\<rparr>"

subsection \<open>Reconcile\<close>

definition failed_status :: "GPUCheckpointStatus \<Rightarrow> string \<Rightarrow> go_time \<Rightarrow> GPUCheckpointStatus" where
  "failed_status st msg at =
    setCondition (st\<lparr>st_Phase := PhaseFailed, st_Message := msg\<rparr>) ''Ready'' ConditionFalse ''CheckpointFailed'' msg at"

definition fail :: "env \<Rightarrow> GPUCheckpoint \<Rightarrow> string \<Rightarrow> (ctrl_Result \<times> api_error option) go" where
  "fail E cr msg = do {
     at \<leftarrow> now;
     _ \<leftarrow> update_status E (cr\<lparr>gc_Status := failed_status (gc_Status cr) msg at\<rparr>);
     State_Monad.return (requeue_after (30 * second), None) }"

definition started_status :: "GPUCheckpointStatus \<Rightarrow> string \<Rightarrow> GPUCheckpointStatus" where
  "started_status st node = st\<lparr>st_Phase := PhaseCheckpointing, st_ObservedNode := node\<rparr>"

definition stored_status :: "GPUCheckpointStatus \<Rightarrow> Result \<Rightarrow> go_time \<Rightarrow> GPUCheckpointStatus" where
  "stored_status st res at =
    setCondition
      (st\<lparr>st_Phase := PhaseCompleted, st_LastCheckpointTime := Some (rs_TakenAt res),
         st_LastCheckpointPath := rs_ArchivePath res, st_CheckpointCount := st_CheckpointCount st + 1,
         st_Message := ''checkpoint stored successfully''\<rparr>)
      ''Ready'' ConditionTrue ''CheckpointStored'' (rs_ArchivePath res) at"

definition target_node :: "GPUCheckpoint \<Rightarrow> Pod \<Rightarrow> string" where
  "target_node cr pod =
    (let n = wr_NodeInfo (gs_WorkloadRef (gc_Spec cr)) in if n = [] then pod_NodeName pod else n)"

definition target_container :: "GPUCheckpoint \<Rightarrow> Pod \<Rightarrow> string" where
  "target_container cr pod =
    (let c = wr_Container (gs_WorkloadRef (gc_Spec cr))
     in if c = [] then (case pod_Containers pod of [] \<Rightarrow> c | ct # cts \<Rightarrow> ct_Name ct) else c)"

definition cr_target :: "GPUCheckpoint \<Rightarrow> Pod \<Rightarrow> string \<Rightarrow> Target" where
  "cr_target cr pod container =
    \<lparr>tg_Namespace = wr_Namespace (gs_WorkloadRef (gc_Spec cr)), tg_Pod = wr_Name (gs_WorkloadRef (gc_Spec cr)),
     tg_PodUID = pod_UID pod, tg_Container = container, tg_Storage = gs_Storage (gc_Spec cr)\<rparr>"

text \<open>From marking the resource in progress to the end: the resource is the one the update returned.\<close>

definition run_checkpoint ::
  "env \<Rightarrow> Reconciler \<Rightarrow> GPUCheckpoint \<Rightarrow> Pod \<Rightarrow> bool \<Rightarrow> (ctrl_Result \<times> api_error option) go" where
  "run_checkpoint E r cr0 pod recurring = do {
     u \<leftarrow> update_status E (cr0\<lparr>gc_Status := started_status (gc_Status cr0) (target_node cr0 pod)\<rparr>);
     let cr = snd u;
     c \<leftarrow> Checkpointer_Checkpoint E (rc_Checkpointer r) (cr_target cr pod (target_container cr0 pod));
     case c of
       Inl err \<Rightarrow> fail E cr (''checkpoint failed: '' @ checkpoint_text err)
     | Inr res \<Rightarrow> do {
         at \<leftarrow> now;
         u2 \<leftarrow> update_status E (cr\<lparr>gc_Status := stored_status (gc_Status cr) res at\<rparr>);
         case fst u2 of
           Some err \<Rightarrow> State_Monad.return (no_requeue, Some err)
         | None \<Rightarrow>
             if \<not> recurring then State_Monad.return (no_requeue, None)
             else do {
               t \<leftarrow> now;
               let nextDue = (case NextRun (e_sched E) (gs_Schedule (gc_Spec (snd u2))) t of
                 Inl err \<Rightarrow> zero_time | Inr (n, rec) \<Rightarrow> n);
               State_Monad.return (requeue_after (Until nextDue t), None) } } }"

definition Reconcile :: "env \<Rightarrow> Reconciler \<Rightarrow> nsname \<Rightarrow> (ctrl_Result \<times> api_error option) go" where
  "Reconcile E r req = do {
     g \<leftarrow> get_cr E req;
     case g of
       Inl err \<Rightarrow> State_Monad.return (no_requeue, if IsNotFound err then None else Some err)
     | Inr cr \<Rightarrow>
         let ref = gs_WorkloadRef (gc_Spec cr); k = wr_Kind ref; schedule = gs_Schedule (gc_Spec cr)
         in if k \<noteq> [] \<and> k \<noteq> ''Pod'' then
              fail E cr (''workloadRef.kind '' @ k @ '' not supported yet (only Pod)'')
            else do {
              p \<leftarrow> get_pod E (wr_Namespace ref, wr_Name ref);
              case p of
                Inl err \<Rightarrow>
                  if IsNotFound err then fail E cr ''target Pod not found''
                  else State_Monad.return (no_requeue, Some err)
              | Inr pod \<Rightarrow>
                  if target_node cr pod \<noteq> rc_NodeName r then State_Monad.return (no_requeue, None)
                  else do {
                    t \<leftarrow> now;
                    case NextRun (e_sched E) schedule t of
                      Inl err \<Rightarrow> fail E cr (''invalid schedule: '' @ err)
                    | Inr _ \<Rightarrow>
                        let recurring = \<not> IsOneShot (e_sched E) schedule t
                        in (case st_LastCheckpointTime (gc_Status cr) of
                              None \<Rightarrow> run_checkpoint E r cr pod recurring
                            | Some last_time \<Rightarrow>
                                if \<not> recurring then State_Monad.return (no_requeue, None)
                                else (case NextRun (e_sched E) schedule last_time of
                                  Inl err \<Rightarrow> fail E cr (''invalid schedule: '' @ err)
                                | Inr (nextDue, _) \<Rightarrow>
                                    if t < nextDue then State_Monad.return (requeue_after (Until nextDue t), None)
                                    else run_checkpoint E r cr pod recurring)) } } }"

subsection \<open>Conditions as a map\<close>

text \<open>
  Interface of a condition store, keyed by condition type: a lookup after a set, and a set that
  keeps the entries of a duplicate-free list unique.
\<close>

locale condition_store =
  fixes put :: "Condition list \<Rightarrow> string \<Rightarrow> string \<Rightarrow> string \<Rightarrow> string \<Rightarrow> go_time \<Rightarrow> Condition list"
    and find_cond :: "Condition list \<Rightarrow> string \<Rightarrow> Condition option"
    and uniq :: "Condition list \<Rightarrow> bool"
  assumes find_put_same: "\<exists>c. find_cond (put cs ty s re m at) ty = Some c \<and>
      cd_Status c = s \<and> cd_Reason c = re \<and> cd_Message c = m \<and>
      cd_LastTransitionTime c = (case find_cond cs ty of
        None \<Rightarrow> at | Some c0 \<Rightarrow> if cd_Status c0 = s then cd_LastTransitionTime c0 else at)"
    and find_put_other: "ty' \<noteq> ty \<Longrightarrow> find_cond (put cs ty s re m at) ty' = find_cond cs ty'"
    and uniq_put: "uniq cs \<Longrightarrow> uniq (put cs ty s re m at)"
begin

text \<open>Setting twice is setting once: only the last reason and message count, and the transition
  time of the first set stays when the status does not change.\<close>

lemma put_put_status:
  assumes "find_cond (put (put cs ty s re m at) ty s re' m' at') ty = Some c"
    and "find_cond (put cs ty s re m at) ty = Some c0"
  shows "cd_LastTransitionTime c = cd_LastTransitionTime c0 \<and> cd_Reason c = re' \<and> cd_Message c = m'"
  using find_put_same [of "put cs ty s re m at" ty s re' m' at'] find_put_same [of cs ty s re m at] assms by auto

lemma put_flip_status:
  assumes "s' \<noteq> s" and "find_cond (put (put cs ty s re m at) ty s' re' m' at') ty = Some c"
  shows "cd_Status c = s' \<and> cd_LastTransitionTime c = at'"
  using find_put_same [of "put cs ty s re m at" ty s' re' m' at'] find_put_same [of cs ty s re m at] assms by auto

end

definition find_condition :: "Condition list \<Rightarrow> string \<Rightarrow> Condition option" where
  "find_condition cs ty = find (\<lambda>c. cd_Type c = ty) cs"

definition uniq_types :: "Condition list \<Rightarrow> bool" where
  "uniq_types cs \<longleftrightarrow> distinct (map cd_Type cs)"

lemma put_condition_types:
  "set (map cd_Type (put_condition cs ty s re m at)) = insert ty (set (map cd_Type cs))"
  by (induction cs) auto

lemma find_put_condition_same: "\<exists>c. find_condition (put_condition cs ty s re m at) ty = Some c \<and>
      cd_Status c = s \<and> cd_Reason c = re \<and> cd_Message c = m \<and>
      cd_LastTransitionTime c = (case find_condition cs ty of
        None \<Rightarrow> at | Some c0 \<Rightarrow> if cd_Status c0 = s then cd_LastTransitionTime c0 else at)"
  by (induction cs) (auto simp: find_condition_def)

lemma find_put_condition_other:
  "ty' \<noteq> ty \<Longrightarrow> find_condition (put_condition cs ty s re m at) ty' = find_condition cs ty'"
  by (induction cs) (auto simp: find_condition_def)

lemma uniq_put_condition: "uniq_types cs \<Longrightarrow> uniq_types (put_condition cs ty s re m at)"
proof (induction cs)
  case (Cons c cs)
  then show ?case using put_condition_types [of cs ty s re m at] by (auto simp: uniq_types_def)
qed (simp add: uniq_types_def)

interpretation agent_conditions: condition_store put_condition find_condition uniq_types
  by unfold_locales (fact find_put_condition_same, fact find_put_condition_other, fact uniq_put_condition)

subsection \<open>Runs of the reconciler\<close>

text \<open>The world after the two reads every reconcile starts with.\<close>

abbreviation pod_key :: "GPUCheckpoint \<Rightarrow> nsname" where
  "pod_key cr \<equiv> (wr_Namespace (gs_WorkloadRef (gc_Spec cr)), wr_Name (gs_WorkloadRef (gc_Spec cr)))"

definition resolved :: "env \<Rightarrow> nsname \<Rightarrow> GPUCheckpoint \<Rightarrow> world \<Rightarrow> world" where
  "resolved E req cr w = after_call E (EvGetPod (pod_key cr)) (after_call E (EvGetCR req) w)"

text \<open>The API server has the resource, which is about a Pod, and the Pod.\<close>

definition serves :: "env \<Rightarrow> world \<Rightarrow> nsname \<Rightarrow> GPUCheckpoint \<Rightarrow> Pod \<Rightarrow> bool" where
  "serves E w req cr pod \<longleftrightarrow>
    e_getcr E (w_hist w @ [EvGetCR req]) = Inr cr \<and>
    wr_Kind (gs_WorkloadRef (gc_Spec cr)) \<in> {[], ''Pod''} \<and>
    e_getpod E (w_hist w @ [EvGetCR req, EvGetPod (pod_key cr)]) = Inr pod"

lemma resolved_simps [simp]:
  "w_hist (resolved E req cr w) = w_hist w @ [EvGetCR req, EvGetPod (pod_key cr)]"
  by (simp add: resolved_def)

text \<open>What the schedule asks for, from the last checkpoint and the time.\<close>

datatype decision = Invalid string | Finished | Wait duration | RunNow bool

definition decide :: "sched_lib \<Rightarrow> string \<Rightarrow> go_time option \<Rightarrow> go_time \<Rightarrow> decision" where
  "decide L schedule last_time t =
    (case NextRun L schedule t of
       Inl err \<Rightarrow> Invalid err
     | Inr (n, recurring) \<Rightarrow>
         (case last_time of
            None \<Rightarrow> RunNow recurring
          | Some l \<Rightarrow>
              if \<not> recurring then Finished
              else let due = fst (projr (NextRun L schedule l))
                   in if t < due then Wait (Until due t) else RunNow True))"

definition act :: "env \<Rightarrow> Reconciler \<Rightarrow> GPUCheckpoint \<Rightarrow> Pod \<Rightarrow> decision \<Rightarrow> (ctrl_Result \<times> api_error option) go" where
  "act E r cr pod d =
    (case d of
       Invalid err \<Rightarrow> fail E cr (''invalid schedule: '' @ err)
     | Finished \<Rightarrow> State_Monad.return (no_requeue, None)
     | Wait d \<Rightarrow> State_Monad.return (requeue_after d, None)
     | RunNow recurring \<Rightarrow> run_checkpoint E r cr pod recurring)"

lemma Reconcile_other_node:
  assumes "serves E w req cr pod" and "target_node cr pod \<noteq> rc_NodeName r"
  shows "run_state (Reconcile E r req) w = ((no_requeue, None), resolved E req cr w)"
  using assms by (auto simp: Reconcile_def serves_def get_cr_def get_pod_def resolved_def Let_def)

lemma Reconcile_decides:
  assumes "serves E w req cr pod" and "target_node cr pod = rc_NodeName r"
  shows "run_state (Reconcile E r req) w = run_state
    (act E r cr pod (decide (e_sched E) (gs_Schedule (gc_Spec cr)) (st_LastCheckpointTime (gc_Status cr))
      (w_now (resolved E req cr w)))) (resolved E req cr w)"
proof -
  let ?t = "w_now (resolved E req cr w)" and ?s = "gs_Schedule (gc_Spec cr)"
  have run: "run_state (Reconcile E r req) w = (case NextRun (e_sched E) ?s ?t of
      Inl err \<Rightarrow> run_state (fail E cr (''invalid schedule: '' @ err)) (resolved E req cr w)
    | Inr _ \<Rightarrow> (case st_LastCheckpointTime (gc_Status cr) of
        None \<Rightarrow> run_state (run_checkpoint E r cr pod (\<not> IsOneShot (e_sched E) ?s ?t)) (resolved E req cr w)
      | Some l \<Rightarrow> if IsOneShot (e_sched E) ?s ?t then ((no_requeue, None), resolved E req cr w)
          else (case NextRun (e_sched E) ?s l of
            Inl err \<Rightarrow> run_state (fail E cr (''invalid schedule: '' @ err)) (resolved E req cr w)
          | Inr (nextDue, _) \<Rightarrow> if ?t < nextDue then ((requeue_after (Until nextDue ?t), None), resolved E req cr w)
              else run_state (run_checkpoint E r cr pod True) (resolved E req cr w))))"
    using assms
    by (auto simp: Reconcile_def serves_def get_cr_def get_pod_def resolved_def Let_def split: sum.splits option.splits prod.splits)
  show ?thesis
  proof (cases "NextRun (e_sched E) ?s ?t")
    case (Inl err)
    with run show ?thesis by (simp add: decide_def act_def)
  next
    case (Inr p)
    obtain n rec where p: "p = (n, rec)" by fastforce
    have one: "IsOneShot (e_sched E) ?s ?t = (\<not> rec)" using Inr p by (simp add: IsOneShot_def)
    show ?thesis
    proof (cases "st_LastCheckpointTime (gc_Status cr)")
      case None
      with run Inr p one show ?thesis by (simp add: decide_def act_def)
    next
      case (Some l)
      obtain n' where "NextRun (e_sched E) ?s l = Inr (n', rec)"
        using agent_sched.rec_indep [OF Inr [unfolded p], of l] by blast
      with run Inr p one Some show ?thesis by (simp add: decide_def act_def Let_def)
    qed
  qed
qed

text \<open>One run of the pipeline, by its outcome. \<open>cr\<close> is the resource after the first update.\<close>

definition marked :: "GPUCheckpoint \<Rightarrow> Pod \<Rightarrow> GPUCheckpoint" where
  "marked cr pod = cr\<lparr>gc_Status := started_status (gc_Status cr) (target_node cr pod)\<rparr>"

definition after_mark :: "env \<Rightarrow> GPUCheckpoint \<Rightarrow> Pod \<Rightarrow> world \<Rightarrow> GPUCheckpoint" where
  "after_mark E cr pod w =
    (case e_update E (w_hist w @ [EvUpdateStatus (marked cr pod)]) of Inl err \<Rightarrow> marked cr pod | Inr cr' \<Rightarrow> cr')"

lemma run_checkpoint_error:
  assumes "run_state (Checkpointer_Checkpoint E (rc_Checkpointer r)
      (cr_target (after_mark E cr pod w) pod (target_container cr pod))) (after_call E (EvUpdateStatus (marked cr pod)) w)
      = (Inl err, w1)"
  shows "run_state (run_checkpoint E r cr pod recurring) w =
    run_state (fail E (after_mark E cr pod w) (''checkpoint failed: '' @ checkpoint_text err)) w1"
  using assms by (auto simp: run_checkpoint_def update_status_def marked_def after_mark_def Let_def split: sum.splits)

lemma run_checkpoint_ok:
  assumes "run_state (Checkpointer_Checkpoint E (rc_Checkpointer r)
      (cr_target (after_mark E cr pod w) pod (target_container cr pod))) (after_call E (EvUpdateStatus (marked cr pod)) w)
      = (Inr res, w1)"
    and "cr2 = (after_mark E cr pod w)\<lparr>gc_Status := stored_status (gc_Status (after_mark E cr pod w)) res (w_now w1)\<rparr>"
    and "w2 = after_call E (EvUpdateStatus cr2) w1"
  shows "run_state (run_checkpoint E r cr pod recurring) w =
    (case e_update E (w_hist w1 @ [EvUpdateStatus cr2]) of
       Inl err \<Rightarrow> ((no_requeue, Some err), w2)
     | Inr cr3 \<Rightarrow>
         ((if recurring then requeue_after (Until (case NextRun (e_sched E) (gs_Schedule (gc_Spec cr3)) (w_now w2) of
             Inl e \<Rightarrow> zero_time | Inr (n, rec) \<Rightarrow> n) (w_now w2)) else no_requeue, None), w2))"
  using assms by (auto simp: run_checkpoint_def update_status_def marked_def after_mark_def Let_def split: sum.splits)

subsection \<open>Properties\<close>

definition node_agent :: "string \<Rightarrow> Reconciler" where
  "node_agent n = \<lparr>rc_NodeName = n, rc_Checkpointer = node_checkpointer\<rparr>"

lemma node_agent_simps [simp]:
  "rc_NodeName (node_agent n) = n" "rc_Checkpointer (node_agent n) = node_checkpointer"
  by (simp_all add: node_agent_def)

lemma train_serves: "serves train_env w req train_cr train_pod"
  by (simp add: serves_def train_env_def train_cr_def)

lemma train_node: "target_node train_cr train_pod = ''node-a''"
  by (simp add: target_node_def train_cr_def train_pod_def)



text \<open>C14: The reconciler implements the abstract decision: for a resource of its own node it fails on an
  invalid schedule, stops when a one-shot was taken, waits until the next run is due, and
  otherwise runs the pipeline, nothing else.\<close>

theorem Reconcile_refines_decide:
  assumes "serves E w req cr pod" and "target_node cr pod = rc_NodeName r"
  shows "run_state (Reconcile E r req) w = run_state
    (act E r cr pod (decide (e_sched E) (gs_Schedule (gc_Spec cr)) (st_LastCheckpointTime (gc_Status cr))
      (w_now (resolved E req cr w)))) (resolved E req cr w)"
  by (rule Reconcile_decides [OF assms])

theorem Reconcile_refines_decide_witness:
  "run_state (Reconcile train_env (node_agent ''node-a'') (''ml'', ''ck'')) empty_world =
   run_state (act train_env (node_agent ''node-a'') train_cr train_pod (RunNow False)) (resolved train_env (''ml'', ''ck'') train_cr empty_world)"
proof -
  have "TrimSpace [] = []" by (simp add: TrimSpace_ws_free)
  then have "decide L [] None t = RunNow False" for L t by (simp add: decide_def NextRun_def)
  moreover have "gs_Schedule (gc_Spec train_cr) = []" "st_LastCheckpointTime (gc_Status train_cr) = None"
    by (simp_all add: train_cr_def empty_status_def)
  ultimately show ?thesis
    using Reconcile_refines_decide [OF train_serves, of "node_agent ''node-a''"] train_node by simp
qed

text \<open>C18: A schedule given in whole units is kept: after a checkpoint at time \<open>l\<close> with period \<open>n\<close>, a
  reconcile before \<open>l + n\<close> makes no further call and asks to be called again exactly when
  the rest of the period has passed; from \<open>l + n\<close> on it runs the pipeline.\<close>

theorem periodic_schedule:
  assumes "serves E w req cr pod" and "target_node cr pod = rc_NodeName r"
    and "gs_Schedule (gc_Spec cr) = fmt_segs segs" and "segs_ok segs"
    and "0 < segs_nanos segs" and "segs_nanos segs < 2 ^ 63"
    and "st_LastCheckpointTime (gc_Status cr) = Some l" and "t = w_now (resolved E req cr w)" and "l \<le> t"
  shows "run_state (Reconcile E r req) w =
    (if t < l + int (segs_nanos segs)
     then ((requeue_after (l + int (segs_nanos segs) - t), None), resolved E req cr w)
     else run_state (run_checkpoint E r cr pod True) (resolved E req cr w))"
proof -
  note next_run = NextRun_duration [OF ParseDuration_segs [OF assms(4) _ assms(6)], of "e_sched E"]
  have "segs \<noteq> []" using assms(5) by auto
  then have nr: "NextRun (e_sched E) (fmt_segs segs) u = Inr (u + int (segs_nanos segs), True)" for u
    using next_run [of u] assms(5) by simp
  have "Until (l + int (segs_nanos segs)) t = l + int (segs_nanos segs) - t" if "t < l + int (segs_nanos segs)"
    using that assms(6,9) by (simp add: Until_def)
  then show ?thesis
    unfolding Reconcile_decides [OF assms(1,2)] assms(3,7) assms(8) [symmetric] by (simp add: decide_def act_def nr)
qed

definition hourly_cr :: GPUCheckpoint where
  "hourly_cr = train_cr\<lparr>gc_Spec := (gc_Spec train_cr)\<lparr>gs_Schedule := fmt_segs [(1, ''h'')]\<rparr>,
     gc_Status := empty_status\<lparr>st_LastCheckpointTime := Some 0\<rparr>\<rparr>"

definition hourly_env :: env where
  "hourly_env = train_env\<lparr>e_getcr := (\<lambda>h. Inr hourly_cr)\<rparr>"

theorem periodic_schedule_witness:
  "run_state (Reconcile hourly_env (node_agent ''node-a'') (''ml'', ''ck'')) empty_world =
    ((requeue_after (3600000000000 - 2000000), None), resolved hourly_env (''ml'', ''ck'') hourly_cr empty_world)"
proof -
  have s: "serves hourly_env empty_world (''ml'', ''ck'') hourly_cr train_pod"
    by (simp add: serves_def hourly_env_def hourly_cr_def train_env_def train_cr_def)
  have n: "target_node hourly_cr train_pod = rc_NodeName (node_agent ''node-a'')"
    by (simp add: target_node_def hourly_cr_def train_cr_def train_pod_def)
  have t: "2000000 = w_now (resolved hourly_env (''ml'', ''ck'') hourly_cr empty_world)"
    by (simp add: resolved_def hourly_env_def train_env_def)
  have segs: "segs_nanos [(1, ''h'')] = 3600000000000" "segs_ok [(1, ''h'')]" by (simp_all add: unitMap_def)
  show ?thesis
    using periodic_schedule [OF s n _ segs(2) _ _ _ t, of 0] unfolding segs(1) by (simp add: hourly_cr_def)
qed

text \<open>C17: A one-shot checkpoint is taken once: a resource whose status was written after a successful
  checkpoint is not checkpointed again, at any later time and by no agent, as long as its
  schedule is one-shot.\<close>

theorem one_shot_once:
  assumes "serves E w req cr pod" and "gc_Status cr = stored_status st res at"
    and "IsOneShot (e_sched E) (gs_Schedule (gc_Spec cr)) t"
    and "NextRun (e_sched E) (gs_Schedule (gc_Spec cr)) t = Inr n"
  shows "run_state (Reconcile E r req) w = ((no_requeue, None), resolved E req cr w)"
proof (cases "target_node cr pod = rc_NodeName r")
  case True
  let ?s = "gs_Schedule (gc_Spec cr)" and ?t = "w_now (resolved E req cr w)"
  obtain d rec where n: "n = (d, rec)" by fastforce
  with assms(3,4) have "\<not> rec" by (simp add: IsOneShot_def)
  moreover obtain d' where "NextRun (e_sched E) ?s ?t = Inr (d', rec)"
    using agent_sched.rec_indep [OF assms(4) [unfolded n], of ?t] by blast
  ultimately show ?thesis
    unfolding Reconcile_decides [OF assms(1) True]
    by (simp add: decide_def act_def assms(2) stored_status_def setCondition_def)
qed (rule Reconcile_other_node [OF assms(1)])

definition done_cr :: GPUCheckpoint where
  "done_cr = train_cr\<lparr>gc_Status := stored_status empty_status \<lparr>rs_ArchivePath = train_dst, rs_TakenAt = 5\<rparr> 9\<rparr>"

definition done_env :: env where
  "done_env = train_env\<lparr>e_getcr := (\<lambda>h. Inr done_cr)\<rparr>"

theorem one_shot_once_witness:
  "run_state (Reconcile done_env (node_agent ''node-a'') (''ml'', ''ck'')) empty_world =
    ((no_requeue, None), resolved done_env (''ml'', ''ck'') done_cr empty_world)"
proof -
  have s: "serves done_env empty_world (''ml'', ''ck'') done_cr train_pod"
    by (simp add: serves_def done_env_def done_cr_def train_env_def train_cr_def)
  have sch: "gs_Schedule (gc_Spec done_cr) = []" by (simp add: done_cr_def train_cr_def)
  have "NextRun L [] t = Inr (zero_time, False)" for L t by (simp add: NextRun_def TrimSpace_ws_free)
  then show ?thesis
    using one_shot_once [OF s, where t = 0 and r = "node_agent ''node-a''"] unfolding sch
    by (simp add: IsOneShot_def done_cr_def)
qed

text \<open>
  The API server stores a status as it was sent, and changes nothing else the program reads.
  Times are kept to the second.
\<close>

definition whole_seconds :: "go_time option \<Rightarrow> bool" where
  "whole_seconds t \<longleftrightarrow> (case t of None \<Rightarrow> True | Some x \<Rightarrow> x mod second = 0)"

definition echoes :: "env \<Rightarrow> bool" where
  "echoes E \<longleftrightarrow> (\<forall>h cr cr'. e_update E (h @ [EvUpdateStatus cr]) = Inr cr' \<longrightarrow>
    gc_Spec cr' = gc_Spec cr \<and> gc_Meta cr' = gc_Meta cr \<and>
    st_CheckpointCount (gc_Status cr') = st_CheckpointCount (gc_Status cr) \<and>
    (whole_seconds (st_LastCheckpointTime (gc_Status cr)) \<longrightarrow>
      st_LastCheckpointTime (gc_Status cr') = st_LastCheckpointTime (gc_Status cr)))"

lemma after_mark_kept:
  assumes "echoes E"
  shows "gc_Spec (after_mark E cr pod w) = gc_Spec cr" and "gc_Meta (after_mark E cr pod w) = gc_Meta cr"
    and "st_CheckpointCount (gc_Status (after_mark E cr pod w)) = st_CheckpointCount (gc_Status cr)"
    and "whole_seconds (st_LastCheckpointTime (gc_Status cr)) \<Longrightarrow>
      st_LastCheckpointTime (gc_Status (after_mark E cr pod w)) = st_LastCheckpointTime (gc_Status cr)"
proof -
  let ?m = "marked cr pod"
  have m: "gc_Spec ?m = gc_Spec cr" "gc_Meta ?m = gc_Meta cr"
    "st_CheckpointCount (gc_Status ?m) = st_CheckpointCount (gc_Status cr)"
    "st_LastCheckpointTime (gc_Status ?m) = st_LastCheckpointTime (gc_Status cr)"
    by (simp_all add: marked_def started_status_def)
  consider "after_mark E cr pod w = ?m" | "e_update E (w_hist w @ [EvUpdateStatus ?m]) = Inr (after_mark E cr pod w)"
    by (cases "e_update E (w_hist w @ [EvUpdateStatus ?m])") (simp_all add: after_mark_def)
  then have "gc_Spec (after_mark E cr pod w) = gc_Spec cr \<and> gc_Meta (after_mark E cr pod w) = gc_Meta cr \<and>
      st_CheckpointCount (gc_Status (after_mark E cr pod w)) = st_CheckpointCount (gc_Status cr) \<and>
      (whole_seconds (st_LastCheckpointTime (gc_Status cr)) \<longrightarrow>
        st_LastCheckpointTime (gc_Status (after_mark E cr pod w)) = st_LastCheckpointTime (gc_Status cr))"
  proof cases
    case 2
    with assms m show ?thesis unfolding echoes_def by metis
  qed (use m in simp)
  then show "gc_Spec (after_mark E cr pod w) = gc_Spec cr" "gc_Meta (after_mark E cr pod w) = gc_Meta cr"
    "st_CheckpointCount (gc_Status (after_mark E cr pod w)) = st_CheckpointCount (gc_Status cr)"
    "whole_seconds (st_LastCheckpointTime (gc_Status cr)) \<Longrightarrow>
      st_LastCheckpointTime (gc_Status (after_mark E cr pod w)) = st_LastCheckpointTime (gc_Status cr)"
    by blast+
qed

text \<open>What a status says about a stored and about a failed checkpoint.\<close>

definition reports_stored :: "GPUCheckpoint \<Rightarrow> GPUCheckpoint \<Rightarrow> string \<Rightarrow> go_time \<Rightarrow> bool" where
  "reports_stored cr cr' path taken \<longleftrightarrow>
    gc_Meta cr' = gc_Meta cr \<and> st_Phase (gc_Status cr') = PhaseCompleted \<and>
    st_LastCheckpointTime (gc_Status cr') = Some taken \<and> st_LastCheckpointPath (gc_Status cr') = path \<and>
    st_CheckpointCount (gc_Status cr') = st_CheckpointCount (gc_Status cr) + 1 \<and>
    (\<exists>c. find_condition (st_Conditions (gc_Status cr')) ''Ready'' = Some c \<and> cd_Status c = ConditionTrue \<and> cd_Message c = path)"

definition reports_failed :: "GPUCheckpoint \<Rightarrow> GPUCheckpoint \<Rightarrow> string \<Rightarrow> bool" where
  "reports_failed cr cr' msg \<longleftrightarrow>
    gc_Meta cr' = gc_Meta cr \<and> st_Phase (gc_Status cr') = PhaseFailed \<and> st_Message (gc_Status cr') = msg \<and>
    st_LastCheckpointTime (gc_Status cr') = st_LastCheckpointTime (gc_Status cr) \<and>
    st_CheckpointCount (gc_Status cr') = st_CheckpointCount (gc_Status cr) \<and>
    (\<exists>c. find_condition (st_Conditions (gc_Status cr')) ''Ready'' = Some c \<and> cd_Status c = ConditionFalse \<and> cd_Message c = msg)"

lemma stored_reported:
  "echoes E \<Longrightarrow> reports_stored cr ((after_mark E cr pod w)\<lparr>gc_Status := stored_status (gc_Status (after_mark E cr pod w)) res at\<rparr>)
    (rs_ArchivePath res) (rs_TakenAt res)"
  using agent_conditions.find_put_same [of _ "''Ready''" ConditionTrue "''CheckpointStored''" "rs_ArchivePath res" at]
  by (auto simp: reports_stored_def stored_status_def setCondition_def after_mark_kept)

lemma failed_reported:
  assumes "gc_Meta cr1 = gc_Meta cr" "st_CheckpointCount (gc_Status cr1) = st_CheckpointCount (gc_Status cr)"
    "st_LastCheckpointTime (gc_Status cr1) = st_LastCheckpointTime (gc_Status cr)"
  shows "reports_failed cr (cr1\<lparr>gc_Status := failed_status (gc_Status cr1) msg at\<rparr>) msg"
  using assms agent_conditions.find_put_same [of _ "''Ready''" ConditionFalse "''CheckpointFailed''" msg at]
  by (auto simp: reports_failed_def failed_status_def setCondition_def)

lemma run_fail: "run_state (fail E cr msg) w = ((requeue_after (30 * second), None),
    after_call E (EvUpdateStatus (cr\<lparr>gc_Status := failed_status (gc_Status cr) msg (w_now w)\<rparr>)) w)"
  by (simp add: fail_def update_status_def)

text \<open>The pipeline run of a reconcile.\<close>

definition pipeline_run :: "env \<Rightarrow> Reconciler \<Rightarrow> nsname \<Rightarrow> GPUCheckpoint \<Rightarrow> Pod \<Rightarrow> world \<Rightarrow> (checkpoint_error + Result) \<times> world" where
  "pipeline_run E r req cr pod w =
    run_state (Checkpointer_Checkpoint E (rc_Checkpointer r) (cr_target cr pod (target_container cr pod)))
      (after_call E (EvUpdateStatus (marked cr pod)) (resolved E req cr w))"

lemma cr_target_spec: "gc_Spec cr' = gc_Spec cr \<Longrightarrow> cr_target cr' pod c = cr_target cr pod c"
  by (simp add: cr_target_def)

lemma Reconcile_runs:
  assumes "serves E w req cr pod" and "target_node cr pod = rc_NodeName r" and "echoes E"
    and "decide (e_sched E) (gs_Schedule (gc_Spec cr)) (st_LastCheckpointTime (gc_Status cr))
      (w_now (resolved E req cr w)) = RunNow recurring"
    and "pipeline_run E r req cr pod w = (outcome, w1)"
  obtains cr' where "run_state (Reconcile E r req) w = (res, w') \<Longrightarrow> w' = after_call E (EvUpdateStatus cr') w1"
    and "\<And>err. outcome = Inl err \<Longrightarrow> fst (run_state (Reconcile E r req) w) = (requeue_after (30 * second), None) \<and>
      (whole_seconds (st_LastCheckpointTime (gc_Status cr)) \<longrightarrow>
        reports_failed cr cr' (''checkpoint failed: '' @ checkpoint_text err))"
    and "\<And>rs. outcome = Inr rs \<Longrightarrow> reports_stored cr cr' (rs_ArchivePath rs) (rs_TakenAt rs)"
proof -
  let ?w = "resolved E req cr w"
  let ?m = "after_mark E cr pod ?w"
  have run: "run_state (Reconcile E r req) w = run_state (run_checkpoint E r cr pod recurring) ?w"
    by (simp add: Reconcile_decides [OF assms(1,2)] assms(4) act_def)
  have pipe: "run_state (Checkpointer_Checkpoint E (rc_Checkpointer r) (cr_target ?m pod (target_container cr pod)))
      (after_call E (EvUpdateStatus (marked cr pod)) ?w) = (outcome, w1)"
    using assms(5) cr_target_spec [OF after_mark_kept(1) [OF assms(3)]] by (simp add: pipeline_run_def)
  show ?thesis
  proof (cases outcome)
    case (Inl err)
    let ?cr' = "?m\<lparr>gc_Status := failed_status (gc_Status ?m) (''checkpoint failed: '' @ checkpoint_text err) (w_now w1)\<rparr>"
    have "run_state (Reconcile E r req) w = ((requeue_after (30 * second), None), after_call E (EvUpdateStatus ?cr') w1)"
      unfolding run run_checkpoint_error [OF pipe [unfolded Inl]] run_fail ..
    moreover have "whole_seconds (st_LastCheckpointTime (gc_Status cr)) \<Longrightarrow>
        reports_failed cr ?cr' (''checkpoint failed: '' @ checkpoint_text err)"
      by (rule failed_reported) (simp_all add: after_mark_kept [OF assms(3)])
    ultimately show ?thesis using Inl by (intro that [of ?cr']) auto
  next
    case (Inr rs)
    let ?cr' = "?m\<lparr>gc_Status := stored_status (gc_Status ?m) rs (w_now w1)\<rparr>"
    have "snd (run_state (Reconcile E r req) w) = after_call E (EvUpdateStatus ?cr') w1"
      unfolding run run_checkpoint_ok [OF pipe [unfolded Inr] refl refl] by (simp split: sum.splits)
    with Inr stored_reported [OF assms(3)] show ?thesis by (intro that [of ?cr']) auto
  qed
qed

text \<open>C5: A reconcile that runs the pipeline always ends with one status update that tells its outcome. On
  success it says Completed, with the stored path, the time the checkpoint was taken, a
  count one higher and the Ready condition true; on failure it says Failed with the
  error, leaves count and last checkpoint as they were, and retries in 30 seconds.\<close>

theorem Reconcile_reports:
  assumes "serves E w req cr pod" and "target_node cr pod = rc_NodeName r" and "echoes E"
    and "decide (e_sched E) (gs_Schedule (gc_Spec cr)) (st_LastCheckpointTime (gc_Status cr))
      (w_now (resolved E req cr w)) = RunNow recurring"
    and "whole_seconds (st_LastCheckpointTime (gc_Status cr))"
    and "run_state (Reconcile E r req) w = (res, w')"
  shows "\<exists>cr'. last (w_hist w') = EvUpdateStatus cr' \<and>
    (case fst (pipeline_run E r req cr pod w) of
       Inr rs \<Rightarrow> reports_stored cr cr' (rs_ArchivePath rs) (rs_TakenAt rs)
     | Inl err \<Rightarrow> reports_failed cr cr' (''checkpoint failed: '' @ checkpoint_text err) \<and>
         res = (requeue_after (30 * second), None))"
proof -
  obtain outcome w1 where p: "pipeline_run E r req cr pod w = (outcome, w1)" by fastforce
  obtain cr' where cr': "w' = after_call E (EvUpdateStatus cr') w1"
    "\<And>err. outcome = Inl err \<Longrightarrow> res = (requeue_after (30 * second), None) \<and>
      reports_failed cr cr' (''checkpoint failed: '' @ checkpoint_text err)"
    "\<And>rs. outcome = Inr rs \<Longrightarrow> reports_stored cr cr' (rs_ArchivePath rs) (rs_TakenAt rs)"
    using Reconcile_runs [OF assms(1-4) p, of res w'] assms(5,6) by auto
  then show ?thesis using p by (intro exI [of _ cr']) (auto split: sum.splits)
qed

lemma train_echoes: "echoes train_env"
  by (simp add: echoes_def train_env_def)

lemma train_decide: "decide L (gs_Schedule (gc_Spec train_cr)) (st_LastCheckpointTime (gc_Status train_cr)) t = RunNow False"
  by (simp add: decide_def NextRun_def TrimSpace_ws_free train_cr_def empty_status_def)

lemma train_cr_target: "cr_target train_cr train_pod (target_container train_cr train_pod) = train_target"
  by (simp add: cr_target_def train_cr_def train_pod_def target_container_def train_target_def)

theorem Reconcile_reports_witness:
  "\<exists>cr' path. last (w_hist (snd (run_state (Reconcile train_env (node_agent ''node-a'') (''ml'', ''ck'')) empty_world)))
      = EvUpdateStatus cr' \<and> reports_stored train_cr cr' path 3000000"
proof -
  let ?r = "node_agent ''node-a''" and ?q = "(''ml'', ''ck'')"
  let ?w = "after_call train_env (EvUpdateStatus (marked train_cr train_pod)) (resolved train_env ?q train_cr empty_world)"
  have t: "w_now ?w = 3000000" by (simp add: resolved_def train_env_def)
  obtain w3 w' where "run_state (Checkpointer_Checkpoint train_env node_checkpointer train_target) ?w =
      (Inr \<lparr>rs_ArchivePath = store_path train_env train_target ''/ckpt'' w3, rs_TakenAt = w_now ?w\<rparr>, w')"
    by (rule train_checkpoint)
  then have p: "fst (pipeline_run train_env ?r ?q train_cr train_pod empty_world) =
      Inr \<lparr>rs_ArchivePath = store_path train_env train_target ''/ckpt'' w3, rs_TakenAt = 3000000\<rparr>"
    unfolding pipeline_run_def train_cr_target node_agent_simps(2) t by simp
  have ws: "whole_seconds (st_LastCheckpointTime (gc_Status train_cr))"
    by (simp add: whole_seconds_def train_cr_def empty_status_def)
  have node: "target_node train_cr train_pod = rc_NodeName ?r" by (simp add: train_node)
  from Reconcile_reports [OF train_serves node train_echoes train_decide ws surjective_pairing, where w = empty_world and req = ?q]
  show ?thesis by (auto simp: p)
qed

text \<open>The node check comes too late for some failures: a resource with a workload kind other than Pod
  is marked Failed by the agent of every node, also of nodes that have nothing to do with
  it.\<close>

theorem unsupported_kind_any_node:
  assumes "e_getcr E (w_hist w @ [EvGetCR req]) = Inr cr" and "wr_Kind (gs_WorkloadRef (gc_Spec cr)) \<notin> {[], ''Pod''}"
  shows "\<exists>cr'. w_hist (snd (run_state (Reconcile E (node_agent n) req) w)) = w_hist w @ [EvGetCR req, EvUpdateStatus cr'] \<and>
    st_Phase (gc_Status cr') = PhaseFailed"
proof -
  have "run_state (Reconcile E (node_agent n) req) w = run_state
      (fail E cr (''workloadRef.kind '' @ wr_Kind (gs_WorkloadRef (gc_Spec cr)) @ '' not supported yet (only Pod)''))
      (after_call E (EvGetCR req) w)"
    using assms by (simp add: Reconcile_def get_cr_def Let_def)
  then show ?thesis by (simp add: run_fail failed_status_def setCondition_def)
qed

definition job_cr :: GPUCheckpoint where
  "job_cr = train_cr\<lparr>gc_Spec := (gc_Spec train_cr)\<lparr>gs_WorkloadRef := (gs_WorkloadRef (gc_Spec train_cr))
     \<lparr>wr_Kind := ''Deployment'', wr_NodeInfo := ''node-a''\<rparr>\<rparr>\<rparr>"

theorem unsupported_kind_any_node_witness:
  "\<exists>cr'. w_hist (snd (run_state (Reconcile (train_env\<lparr>e_getcr := \<lambda>h. Inr job_cr\<rparr>) (node_agent ''node-b'') (''ml'', ''ck'')) empty_world))
    = [EvGetCR (''ml'', ''ck''), EvUpdateStatus cr'] \<and> st_Phase (gc_Status cr') = PhaseFailed"
  using unsupported_kind_any_node [of "train_env\<lparr>e_getcr := \<lambda>h. Inr job_cr\<rparr>" empty_world "(''ml'', ''ck'')" job_cr "''node-b''"]
  by (simp add: job_cr_def train_cr_def)

text \<open>A resource whose node information names another node than the one its Pod runs on is taken by the
  agent of the named node, which starts the pipeline for a Pod it does not host.\<close>

theorem node_info_wins:
  assumes "serves E w req cr pod" and "wr_NodeInfo (gs_WorkloadRef (gc_Spec cr)) = rc_NodeName r" and "rc_NodeName r \<noteq> []"
    and "pod_NodeName pod \<noteq> rc_NodeName r"
    and "decide (e_sched E) (gs_Schedule (gc_Spec cr)) (st_LastCheckpointTime (gc_Status cr))
      (w_now (resolved E req cr w)) = RunNow recurring"
  shows "\<exists>evs. w_hist (snd (run_state (Reconcile E r req) w)) =
    w_hist w @ [EvGetCR req, EvGetPod (pod_key cr), EvUpdateStatus (marked cr pod)] @ evs \<and> evs \<noteq> []"
proof -
  let ?w = "resolved E req cr w"
  let ?c = "Checkpointer_Checkpoint E (rc_Checkpointer r) (cr_target (after_mark E cr pod ?w) pod (target_container cr pod))"
  have node: "target_node cr pod = rc_NodeName r" using assms(2,3) by (simp add: target_node_def)
  obtain outcome w1 where p: "run_state ?c (after_call E (EvUpdateStatus (marked cr pod)) ?w) = (outcome, w1)" by fastforce
  have "state_io_rel (calls (\<lambda>_. True)) ?c"
    unfolding Checkpointer_Checkpoint_def
    by (intro calls_rel.rel_intros io_basic_calls any_call [OF freeze_calls] any_call [OF produce_calls]
        any_call [OF resume_calls] any_call [OF store_calls])
  from state_io_relD [OF this p] obtain evs where evs: "w_hist w1 = w_hist ?w @ EvUpdateStatus (marked cr pod) # evs"
    by (auto simp: calls_def)
  have run: "run_state (Reconcile E r req) w = run_state (run_checkpoint E r cr pod recurring) ?w"
    by (simp add: Reconcile_decides [OF assms(1) node] assms(5) act_def)
  show ?thesis
  proof (cases outcome)
    case (Inl err)
    show ?thesis unfolding run run_checkpoint_error [OF p [unfolded Inl]] run_fail by (simp add: evs)
  next
    case (Inr rs)
    show ?thesis unfolding run run_checkpoint_ok [OF p [unfolded Inr] refl refl] by (simp add: evs split: sum.splits)
  qed
qed

definition moved_cr :: GPUCheckpoint where
  "moved_cr = train_cr\<lparr>gc_Spec := (gc_Spec train_cr)\<lparr>gs_WorkloadRef := (gs_WorkloadRef (gc_Spec train_cr))
     \<lparr>wr_NodeInfo := ''node-b''\<rparr>\<rparr>\<rparr>"

theorem node_info_wins_witness:
  "\<exists>evs. w_hist (snd (run_state (Reconcile (train_env\<lparr>e_getcr := \<lambda>h. Inr moved_cr\<rparr>) (node_agent ''node-b'') (''ml'', ''ck'')) empty_world)) =
    [EvGetCR (''ml'', ''ck''), EvGetPod (''ml'', ''train-0''), EvUpdateStatus (marked moved_cr train_pod)] @ evs \<and> evs \<noteq> []"
proof -
  let ?E = "train_env\<lparr>e_getcr := \<lambda>h. Inr moved_cr\<rparr>"
  have s: "serves ?E empty_world (''ml'', ''ck'') moved_cr train_pod"
    by (simp add: serves_def train_env_def moved_cr_def train_cr_def)
  have d: "decide (e_sched ?E) (gs_Schedule (gc_Spec moved_cr)) (st_LastCheckpointTime (gc_Status moved_cr)) t = RunNow False" for t
    using train_decide [of "e_sched ?E" t] by (simp add: moved_cr_def)
  show ?thesis
    using node_info_wins [OF s _ _ _ d, of "node_agent ''node-b''"] by (simp add: moved_cr_def train_cr_def train_pod_def)
qed

text \<open>Setting a condition keeps condition types unique, leaves the other conditions as they are, sets
  status, reason and message of its own type, and moves the transition time only when the
  status changes.\<close>

theorem setCondition_map:
  "(uniq_types (st_Conditions st) \<longrightarrow> uniq_types (st_Conditions (setCondition st ty s re m at))) \<and>
   (\<forall>ty'. find_condition (st_Conditions (setCondition st ty s re m at)) ty' =
     (if ty' = ty then Some \<lparr>cd_Type = ty, cd_Status = s, cd_Reason = re, cd_Message = m,
        cd_LastTransitionTime = (case find_condition (st_Conditions st) ty of
          None \<Rightarrow> at | Some c \<Rightarrow> if cd_Status c = s then cd_LastTransitionTime c else at)\<rparr>
      else find_condition (st_Conditions st) ty'))"
proof -
  have ty: "find_condition cs ty = Some c \<Longrightarrow> cd_Type c = ty" for cs c
    by (auto simp: find_condition_def find_Some_iff)
  obtain c where c: "find_condition (put_condition (st_Conditions st) ty s re m at) ty = Some c" "cd_Status c = s"
    "cd_Reason c = re" "cd_Message c = m" "cd_LastTransitionTime c = (case find_condition (st_Conditions st) ty of
      None \<Rightarrow> at | Some c0 \<Rightarrow> if cd_Status c0 = s then cd_LastTransitionTime c0 else at)"
    using agent_conditions.find_put_same [of "st_Conditions st" ty s re m at] by blast
  have "c = \<lparr>cd_Type = ty, cd_Status = s, cd_Reason = re, cd_Message = m, cd_LastTransitionTime = cd_LastTransitionTime c\<rparr>"
    using c ty by (intro Condition.equality) auto
  with c have "find_condition (put_condition (st_Conditions st) ty s re m at) ty = Some \<lparr>cd_Type = ty, cd_Status = s,
      cd_Reason = re, cd_Message = m, cd_LastTransitionTime = (case find_condition (st_Conditions st) ty of
      None \<Rightarrow> at | Some c0 \<Rightarrow> if cd_Status c0 = s then cd_LastTransitionTime c0 else at)\<rparr>" by metis
  with agent_conditions.find_put_other agent_conditions.uniq_put show ?thesis
    by (simp add: setCondition_def)
qed

theorem setCondition_map_witness:
  "uniq_types (st_Conditions (setCondition empty_status ''Ready'' ConditionTrue ''CheckpointStored'' ''/x'' 3))"
  using setCondition_map [of empty_status "''Ready''" ConditionTrue "''CheckpointStored''" "''/x''" 3]
  by (simp add: uniq_types_def empty_status_def)

end
