(* ===== verification/Go_Flag.thy ===== *)
theory Go_Flag
  imports Go_Time
begin

text \<open>
  Go's \<^verbatim>\<open>flag\<close> package, as far as the two \<^verbatim>\<open>main\<close> functions use it: a flag set maps names to
  flags, a flag says whether it is boolean and which values its \<^verbatim>\<open>Set\<close> method refuses, and parsing
  the command line gives the assignments in order, or the message of the error that makes
  \<^verbatim>\<open>flag.Parse\<close> exit. A flag given more than once keeps its last value.
\<close>

record flag_def =
  fd_bool :: bool
  fd_check :: "string \<Rightarrow> string option"

type_synonym flag_set = "string \<Rightarrow> flag_def option"

subsection \<open>Values\<close>

definition ParseBool :: "string \<Rightarrow> bool option" where
  "ParseBool s =
    (if s \<in> {''1'', ''t'', ''T'', ''true'', ''TRUE'', ''True''} then Some True
     else if s \<in> {''0'', ''f'', ''F'', ''false'', ''FALSE'', ''False''} then Some False
     else None)"

definition string_flag :: flag_def where
  "string_flag = \<lparr>fd_bool = False, fd_check = (\<lambda>v. None)\<rparr>"

definition bool_flag :: flag_def where
  "bool_flag = \<lparr>fd_bool = True, fd_check = (\<lambda>v. case ParseBool v of None \<Rightarrow> Some ''parse error'' | Some b \<Rightarrow> None)\<rparr>"

definition duration_flag :: "(nat \<Rightarrow> nat \<Rightarrow> nat \<Rightarrow> nat) \<Rightarrow> flag_def" where
  "duration_flag fmul = \<lparr>fd_bool = False,
     fd_check = (\<lambda>v. case ParseDuration fmul v of Inl err \<Rightarrow> Some ''parse error'' | Inr d \<Rightarrow> None)\<rparr>"

subsection \<open>Parsing\<close>

datatype flag_step =
    Stop "string list"
  | BadFlag string
  | Help
  | Assign string string "string list"

text \<open>One flag of the command line: \<^verbatim>\<open>(*FlagSet).parseOne\<close>.\<close>

fun parse_one :: "flag_set \<Rightarrow> string list \<Rightarrow> flag_step" where
  "parse_one formal [] = Stop []"
| "parse_one formal (s # args) =
    (if length s < 2 \<or> hd s \<noteq> CHR ''-'' then Stop (s # args)
     else if s = ''--'' then Stop args
     else let name = (if s ! 1 = CHR ''-'' then drop 2 s else drop 1 s)
     in if name = [] \<or> hd name = CHR ''-'' \<or> hd name = CHR ''='' then BadFlag (''bad flag syntax: '' @ s)
     else let key = takeWhile (\<lambda>c. c \<noteq> CHR ''='') name;
              has_value = (CHR ''='' \<in> set name);
              val = drop (Suc (length key)) name
     in case formal key of
          None \<Rightarrow> if key = ''help'' \<or> key = ''h'' then Help else BadFlag (''flag provided but not defined: -'' @ key)
        | Some fd \<Rightarrow>
            if fd_bool fd then
              (if has_value then
                 (case fd_check fd val of
                    Some err \<Rightarrow> BadFlag (''invalid boolean value '' @ fmt_q val @ '' for -'' @ key @ '': '' @ err)
                  | None \<Rightarrow> Assign key val args)
               else
                 (case fd_check fd ''true'' of
                    Some err \<Rightarrow> BadFlag (''invalid boolean flag '' @ key @ '': '' @ err)
                  | None \<Rightarrow> Assign key ''true'' args))
            else if has_value then
              (case fd_check fd val of
                 Some err \<Rightarrow> BadFlag (''invalid value '' @ fmt_q val @ '' for flag -'' @ key @ '': '' @ err)
               | None \<Rightarrow> Assign key val args)
            else (case args of
              [] \<Rightarrow> BadFlag (''flag needs an argument: -'' @ key)
            | v # rest \<Rightarrow>
                (case fd_check fd v of
                   Some err \<Rightarrow> BadFlag (''invalid value '' @ fmt_q v @ '' for flag -'' @ key @ '': '' @ err)
                 | None \<Rightarrow> Assign key v rest)))"

datatype parsed =
    Parsed "(string \<times> string) list" "string list"
  | ParseHelp
  | ParseError string

lemma parse_one_shorter: "parse_one formal args = Assign n v rest \<Longrightarrow> length rest < length args"
  by (cases args) (auto simp: Let_def split: if_splits option.splits list.splits)

function parse_args :: "flag_set \<Rightarrow> string list \<Rightarrow> (string \<times> string) list \<Rightarrow> parsed" where
  "parse_args formal args acc =
    (case parse_one formal args of
       Stop rest \<Rightarrow> Parsed acc rest
     | BadFlag msg \<Rightarrow> ParseError msg
     | Help \<Rightarrow> ParseHelp
     | Assign n v rest \<Rightarrow> parse_args formal rest (acc @ [(n, v)]))"
  by pat_completeness auto

termination
  by (relation "measure (\<lambda>(formal, args, acc). length args)") (auto dest: parse_one_shorter)

declare parse_args.simps [simp del]

text \<open>The value a flag ends up with.\<close>

definition flag_value :: "(string \<times> string) list \<Rightarrow> string \<Rightarrow> string option" where
  "flag_value asg name = map_of (rev asg) name"

definition flag_string :: "(string \<times> string) list \<Rightarrow> string \<Rightarrow> string \<Rightarrow> string" where
  "flag_string asg name def = (case flag_value asg name of None \<Rightarrow> def | Some v \<Rightarrow> v)"

definition flag_bool :: "(string \<times> string) list \<Rightarrow> string \<Rightarrow> bool \<Rightarrow> bool" where
  "flag_bool asg name def = (case flag_value asg name of None \<Rightarrow> def | Some v \<Rightarrow> ParseBool v = Some True)"

definition flag_duration ::
  "(nat \<Rightarrow> nat \<Rightarrow> nat \<Rightarrow> nat) \<Rightarrow> (string \<times> string) list \<Rightarrow> string \<Rightarrow> duration \<Rightarrow> duration" where
  "flag_duration fmul asg name def =
    (case flag_value asg name of None \<Rightarrow> def
     | Some v \<Rightarrow> (case ParseDuration fmul v of Inl err \<Rightarrow> def | Inr d \<Rightarrow> d))"

subsection \<open>Every assignment was checked\<close>

lemma parse_one_checked:
  "parse_one formal args = Assign n v rest \<Longrightarrow> \<exists>fd. formal n = Some fd \<and> fd_check fd v = None"
  by (cases args) (auto simp: Let_def split: if_splits option.splits list.splits)

lemma parse_args_checked:
  assumes "parse_args formal args acc = Parsed asg rest"
    and "\<forall>(n, v)\<in>set acc. \<exists>fd. formal n = Some fd \<and> fd_check fd v = None"
  shows "\<forall>(n, v)\<in>set asg. \<exists>fd. formal n = Some fd \<and> fd_check fd v = None"
  using assms
proof (induction formal args acc rule: parse_args.induct)
  case (1 formal args acc)
  show ?case
  proof (cases "parse_one formal args")
    case (Assign n v r)
    then show ?thesis
      using "1.IH" [OF Assign] "1.prems" parse_one_checked [OF Assign] by (auto simp: parse_args.simps [of formal args acc])
  qed (use "1.prems" in \<open>simp_all add: parse_args.simps [of formal args acc]\<close>)
qed

lemma flag_value_checked:
  assumes "parse_args formal args [] = Parsed asg rest" and "flag_value asg n = Some v"
  shows "\<exists>fd. formal n = Some fd \<and> fd_check fd v = None"
proof -
  have "(n, v) \<in> set asg" using map_of_SomeD [OF assms(2) [unfolded flag_value_def]] by simp
  with parse_args_checked [OF assms(1)] show ?thesis by auto
qed

subsection \<open>Printing a command line\<close>

definition flag_name :: "string \<Rightarrow> bool" where
  "flag_name n \<longleftrightarrow> n \<noteq> [] \<and> hd n \<noteq> CHR ''-'' \<and> CHR ''='' \<notin> set n"

definition print_flag :: "string \<times> string \<Rightarrow> string" where
  "print_flag a = ''--'' @ fst a @ ''='' @ snd a"

definition assignable :: "flag_set \<Rightarrow> string \<times> string \<Rightarrow> bool" where
  "assignable formal a \<longleftrightarrow> flag_name (fst a) \<and>
    (case formal (fst a) of None \<Rightarrow> False | Some fd \<Rightarrow> fd_check fd (snd a) = None)"

lemma parse_one_print:
  assumes "assignable formal a"
  shows "parse_one formal (print_flag a # args) = Assign (fst a) (snd a) args"
proof -
  obtain n v where a: "a = (n, v)" by fastforce
  obtain fd where fd: "formal n = Some fd" "fd_check fd v = None" and n: "flag_name n"
    using assms by (auto simp: assignable_def a split: option.splits)
  obtain x xs where x: "n = x # xs" "x \<noteq> CHR ''-''" "x \<noteq> CHR ''=''" using n by (cases n) (auto simp: flag_name_def)
  have key: "takeWhile (\<lambda>c. c \<noteq> CHR ''='') (n @ ''='' @ v) = n"
    using n by (subst takeWhile_append2) (auto simp: flag_name_def)
  show ?thesis
    using x key fd by (simp add: print_flag_def a Let_def)
qed

lemma parse_args_print:
  "list_all (assignable formal) asg \<Longrightarrow> parse_args formal (map print_flag asg) acc = Parsed (acc @ asg) []"
proof (induction asg arbitrary: acc)
  case (Cons a asg)
  have "parse_one formal (map print_flag (a # asg)) = Assign (fst a) (snd a) (map print_flag asg)"
    using parse_one_print [of formal a] Cons.prems by simp
  then show ?case using Cons by (subst parse_args.simps) simp
qed (simp add: parse_args.simps)

end
