(* ===== verification/Startup.thy ===== *)
theory Startup
  imports Go_Flag
begin

text \<open>
  What the two \<^verbatim>\<open>main\<close> functions share: the process they run in, the registration of the API types with
  a scheme (\<^verbatim>\<open>groupversion_info.go\<close> of both API packages), and the controller-runtime calls. The
  process gives the arguments, the environment variables (an unset one reads as the empty
  string), the flags the logging library adds, the kinds of Kubernetes' own scheme, and what
  controller-runtime answers: whether a kubeconfig is found, whether the manager can be
  created, whether the controller can be registered, how the manager ends.
\<close>

subsection \<open>Schemes\<close>

record GroupVersionKind =
  gvk_Group :: string
  gvk_Version :: string
  gvk_Kind :: string

type_synonym scheme = "GroupVersionKind list"

definition GroupVersion :: "string \<times> string" where
  "GroupVersion = (''gpu-cr.io'', ''v1alpha1'')"

definition in_group :: "string \<Rightarrow> GroupVersionKind" where
  "in_group kind = \<lparr>gvk_Group = fst GroupVersion, gvk_Version = snd GroupVersion, gvk_Kind = kind\<rparr>"

text \<open>\<^verbatim>\<open>AddToScheme\<close> of the two packages, after their \<^verbatim>\<open>init\<close> registered the types with the builder.\<close>

definition gpu_AddToScheme :: "scheme \<Rightarrow> scheme" where
  "gpu_AddToScheme s = s @ [in_group ''GPUCheckpoint'', in_group ''GPUCheckpointList'']"

definition wc_AddToScheme :: "scheme \<Rightarrow> scheme" where
  "wc_AddToScheme s = s @ [in_group ''WorkloadCheckpoint'', in_group ''WorkloadCheckpointList'']"

subsection \<open>The process\<close>

record manager_options =
  mg_Scheme :: scheme
  mg_MetricsBindAddress :: string
  mg_HealthProbeBindAddress :: string
  mg_LeaderElection :: bool
  mg_LeaderElectionID :: string

text \<open>What a controller watches: the kind it is for, the kinds it owns, and its event filters.\<close>

record controller_spec =
  cs_For :: GroupVersionKind
  cs_Owns :: "GroupVersionKind list"
  cs_Predicates :: "string list"

record process =
  ps_args :: "string list"
  ps_getenv :: "string \<Rightarrow> string"
  ps_logflags :: flag_set
  ps_clientgo :: scheme
  ps_config :: "string option"
  ps_newmgr :: "manager_options \<Rightarrow> string option"
  ps_complete :: "manager_options \<Rightarrow> controller_spec \<Rightarrow> string option"
  ps_start :: "string option"

text \<open>Exit status and message.\<close>

datatype exit_status = Exit nat string

definition parse_flags :: "flag_set \<Rightarrow> process \<Rightarrow> exit_status + (string \<times> string) list" where
  "parse_flags formal P =
    (case parse_args formal (ps_args P) [] of
       Parsed asg rest \<Rightarrow> Inr asg
     | ParseHelp \<Rightarrow> Inl (Exit 0 [])
     | ParseError msg \<Rightarrow> Inl (Exit 2 msg))"

lemma parse_flags_print:
  "ps_args P = map print_flag asg \<Longrightarrow> list_all (assignable formal) asg \<Longrightarrow> parse_flags formal P = Inr asg"
  by (simp add: parse_flags_def parse_args_print)

lemma parse_flags_none: "ps_args P = [] \<Longrightarrow> parse_flags formal P = Inr []"
  using parse_flags_print [of P "[]"] by simp

text \<open>A process for examples: no arguments, no variables, a controller-runtime that works.\<close>

definition plain_process :: process where
  "plain_process = \<lparr>ps_args = [], ps_getenv = (\<lambda>k. []), ps_logflags = Map.empty, ps_clientgo = [], ps_config = None,
     ps_newmgr = (\<lambda>m. None), ps_complete = (\<lambda>m c. if cs_For c \<in> set (mg_Scheme m) then None else Some ''no kind is registered''),
     ps_start = None\<rparr>"

end
