(* ===== verification/Agent_Main.thy ===== *)
theory Agent_Main
  imports Agent_Reconciler Startup
begin

text \<open>
  \<^verbatim>\<open>cmd/node-agent/main.go\<close>: the start of the Node Agent, from the command line and the environment
  variables to the running manager, and \<^verbatim>\<open>SetupWithManager\<close> of the reconciler.
  \<^verbatim>\<open>klog.Fatal\<close> logs and exits with status 255, bad flags exit with 2, \<^verbatim>\<open>-h\<close> with 0, a missing
  kubeconfig with 1. Health checks only register a constant reply and are left out.
\<close>

text \<open>\<^verbatim>\<open>klog.Fatal\<close>.\<close>

definition Fatal :: "string \<Rightarrow> exit_status" where
  "Fatal msg = Exit 255 msg"

subsection \<open>Settings\<close>

definition envOr :: "process \<Rightarrow> string \<Rightarrow> string \<Rightarrow> string" where
  "envOr P key def = (if ps_getenv P key \<noteq> [] then ps_getenv P key else def)"

definition durOr :: "(nat \<Rightarrow> nat \<Rightarrow> nat \<Rightarrow> nat) \<Rightarrow> process \<Rightarrow> string \<Rightarrow> duration \<Rightarrow> duration" where
  "durOr fmul P key def =
    (if ps_getenv P key \<noteq> [] then
       (case ParseDuration fmul (ps_getenv P key) of Inr d \<Rightarrow> d | Inl err \<Rightarrow> def)
     else def)"

record agent_settings =
  ag_metricsAddr :: string
  ag_probeAddr :: string
  ag_kubeletURL :: string
  ag_kubeletCA :: string
  ag_kubeletInsec :: bool
  ag_distDir :: string
  ag_hostLibDir :: string
  ag_hostRunDir :: string
  ag_dryRun :: bool
  ag_kubeletTimeout :: duration

definition agent_flags :: "(nat \<Rightarrow> nat \<Rightarrow> nat \<Rightarrow> nat) \<Rightarrow> process \<Rightarrow> flag_set" where
  "agent_flags fmul P = ps_logflags P ++ map_of [
     (''metrics-bind-address'', string_flag), (''health-probe-bind-address'', string_flag),
     (''kubelet-url'', string_flag), (''kubelet-ca'', string_flag), (''kubelet-insecure'', bool_flag),
     (''interceptor-dist-dir'', string_flag), (''host-lib-dir'', string_flag), (''host-run-dir'', string_flag),
     (''dry-run'', bool_flag), (''kubelet-timeout'', duration_flag fmul)]"

text \<open>The variables after \<^verbatim>\<open>flag.Parse\<close>, from the assignments of the command line.\<close>

definition agent_settings_of :: "(nat \<Rightarrow> nat \<Rightarrow> nat \<Rightarrow> nat) \<Rightarrow> process \<Rightarrow> (string \<times> string) list \<Rightarrow> agent_settings" where
  "agent_settings_of fmul P asg = \<lparr>
     ag_metricsAddr = flag_string asg ''metrics-bind-address'' '':8080'',
     ag_probeAddr = flag_string asg ''health-probe-bind-address'' '':8081'',
     ag_kubeletURL = flag_string asg ''kubelet-url'' (envOr P ''KUBELET_URL'' ''https://127.0.0.1:10250''),
     ag_kubeletCA = flag_string asg ''kubelet-ca'' (envOr P ''KUBELET_CA'' []),
     ag_kubeletInsec = flag_bool asg ''kubelet-insecure'' (envOr P ''KUBELET_INSECURE'' ''true'' = ''true''),
     ag_distDir = flag_string asg ''interceptor-dist-dir'' (envOr P ''INTERCEPTOR_DIST_DIR'' ''/opt/gpu-cr-dist''),
     ag_hostLibDir = flag_string asg ''host-lib-dir'' (envOr P ''HOST_LIB_DIR'' ''/host/gpu-cr/lib''),
     ag_hostRunDir = flag_string asg ''host-run-dir'' (envOr P ''HOST_RUN_DIR'' ''/host/gpu-cr/run''),
     ag_dryRun = flag_bool asg ''dry-run'' (envOr P ''DRY_RUN'' ''false'' = ''true''),
     ag_kubeletTimeout = flag_duration fmul asg ''kubelet-timeout'' (durOr fmul P ''KUBELET_TIMEOUT'' (30 * (60 * second)))\<rparr>"

subsection \<open>The reconciler's registration\<close>

definition Reconciler_SetupWithManager :: "process \<Rightarrow> manager_options \<Rightarrow> Reconciler \<Rightarrow> string + controller_spec" where
  "Reconciler_SetupWithManager P mgr r = (
     let c = \<lparr>cs_For = in_group ''GPUCheckpoint'', cs_Owns = [], cs_Predicates = [''GenerationChangedPredicate'']\<rparr>
     in case ps_complete P mgr c of Some err \<Rightarrow> Inl err | None \<Rightarrow> Inr c)"

definition agent_scheme :: "process \<Rightarrow> scheme" where
  "agent_scheme P = gpu_AddToScheme (ps_clientgo P)"

subsection \<open>main\<close>

definition tokenFile :: string where
  "tokenFile = ''/var/run/secrets/kubernetes.io/serviceaccount/token''"

definition agent_checkpointer :: "process \<Rightarrow> agent_settings \<Rightarrow> InterceptorManager \<Rightarrow> KubeletClient \<Rightarrow> Checkpointer" where
  "agent_checkpointer P s im kc = (
     let cp = NewCheckpointer im kc (ag_dryRun s);
         cp = (if ps_getenv P ''GCR_INTERCEPTION'' = ''false'' then cp\<lparr>cp_GCRInterception := False\<rparr> else cp);
         cp = (let v = envOr P ''GCR_HOST_DATA_DIR'' [] in if v \<noteq> [] then cp\<lparr>cp_DataDir := v\<rparr> else cp);
         cp = (if ps_getenv P ''GCR_PERSIST_BLOB'' = ''false'' then cp\<lparr>cp_PersistBlob := False\<rparr> else cp)
     in cp)"

text \<open>Everything before \<^verbatim>\<open>mgr.Start\<close>: an exit, or the reconciler the manager will run.\<close>

definition agent_setup :: "env \<Rightarrow> process \<Rightarrow> (exit_status + Reconciler) go" where
  "agent_setup E P =
    (case parse_flags (agent_flags (sl_fmul (e_sched E)) P) P of
       Inl ex \<Rightarrow> State_Monad.return (Inl ex)
     | Inr asg \<Rightarrow>
         let s = agent_settings_of (sl_fmul (e_sched E)) P asg; nodeName = ps_getenv P ''NODE_NAME''
         in if nodeName = [] then
              State_Monad.return (Inl (Fatal ''NODE_NAME env var is required (set via Downward API spec.nodeName)''))
            else let im = NewInterceptorManager (ag_distDir s) (ag_hostLibDir s) (ag_hostRunDir s)
            in do {
              i \<leftarrow> Install E im;
              case i of
                Some err \<Rightarrow> State_Monad.return (Inl (Fatal (''install interceptor library: '' @ install_text err)))
              | None \<Rightarrow> do {
                  tok \<leftarrow> read_file E tokenFile;
                  let token = (case tok of Inl err \<Rightarrow> [] | Inr b \<Rightarrow> b);
                  k \<leftarrow> NewKubeletClient E (ag_kubeletURL s) token (ag_kubeletCA s) (ag_kubeletInsec s) (ag_kubeletTimeout s);
                  State_Monad.return (case k of
                    Inl err \<Rightarrow> Inl (Fatal (''kubelet client: '' @ client_text err))
                  | Inr kc \<Rightarrow> (case ps_config P of
                      Some err \<Rightarrow> Inl (Exit 1 err)
                    | None \<Rightarrow>
                        let mgr = \<lparr>mg_Scheme = agent_scheme P, mg_MetricsBindAddress = ag_metricsAddr s,
                          mg_HealthProbeBindAddress = ag_probeAddr s, mg_LeaderElection = False, mg_LeaderElectionID = []\<rparr>
                        in (case ps_newmgr P mgr of
                          Some err \<Rightarrow> Inl (Fatal (''create manager: '' @ err))
                        | None \<Rightarrow>
                            let r = \<lparr>rc_NodeName = nodeName, rc_Checkpointer = agent_checkpointer P s im kc\<rparr>
                            in (case Reconciler_SetupWithManager P mgr r of
                              Inl err \<Rightarrow> Inl (Fatal (''setup reconciler: '' @ err))
                            | Inr c \<Rightarrow> Inr r)))) } })"

text \<open>The end of the process, and the reconciler that ran if the manager was started.\<close>

definition agent_main :: "env \<Rightarrow> process \<Rightarrow> (exit_status option \<times> Reconciler option) go" where
  "agent_main E P = do {
     s \<leftarrow> agent_setup E P;
     State_Monad.return (case s of
       Inl ex \<Rightarrow> (Some ex, None)
     | Inr r \<Rightarrow> (case ps_start P of
         Some err \<Rightarrow> (Some (Fatal (''manager exited: '' @ err)), Some r)
       | None \<Rightarrow> (None, Some r))) }"

subsection \<open>How far a start gets\<close>

lemma agent_setup_exits:
  "parse_flags (agent_flags (sl_fmul (e_sched E)) P) P = Inl ex \<Longrightarrow> run_state (agent_setup E P) w = (Inl ex, w)"
  "parse_flags (agent_flags (sl_fmul (e_sched E)) P) P = Inr asg \<Longrightarrow> ps_getenv P ''NODE_NAME'' = [] \<Longrightarrow>
    run_state (agent_setup E P) w = (Inl (Fatal ''NODE_NAME env var is required (set via Downward API spec.nodeName)''), w)"
  by (simp_all add: agent_setup_def Let_def)

lemma NewKubeletClient_built:
  assumes "run_state (NewKubeletClient E url token ca insecure timeout) w = (Inr k, w')"
  shows "tls_InsecureSkipVerify (hc_TLSClientConfig (kc_http k)) = insecure \<and> hc_Timeout (kc_http k) = timeout \<and> kc_Token k = token"
  using assms by (auto simp: NewKubeletClient_def kubelet_client_def Let_def split: prod.splits sum.splits if_splits)

definition settings_manager :: "agent_settings \<Rightarrow> InterceptorManager" where
  "settings_manager s = NewInterceptorManager (ag_distDir s) (ag_hostLibDir s) (ag_hostRunDir s)"

lemma agent_setup_install_fails:
  assumes "parse_flags (agent_flags (sl_fmul (e_sched E)) P) P = Inr asg" and "ps_getenv P ''NODE_NAME'' \<noteq> []"
    and "run_state (Install E (settings_manager (agent_settings_of (sl_fmul (e_sched E)) P asg))) w = (Some err, w1)"
  shows "run_state (agent_setup E P) w = (Inl (Fatal (''install interceptor library: '' @ install_text err)), w1)"
  using assms by (simp add: agent_setup_def settings_manager_def Let_def)

lemma agent_setup_ok:
  assumes "run_state (agent_setup E P) w = (Inr r, w')"
  obtains asg s im w1 tok w2 kc where
    "parse_flags (agent_flags (sl_fmul (e_sched E)) P) P = Inr asg" and "s = agent_settings_of (sl_fmul (e_sched E)) P asg"
    and "im = settings_manager s" and "ps_getenv P ''NODE_NAME'' \<noteq> []"
    and "run_state (Install E im) w = (None, w1)" and "run_state (read_file E tokenFile) w1 = (tok, w2)"
    and "run_state (NewKubeletClient E (ag_kubeletURL s) (case tok of Inl err \<Rightarrow> [] | Inr b \<Rightarrow> b) (ag_kubeletCA s)
      (ag_kubeletInsec s) (ag_kubeletTimeout s)) w2 = (Inr kc, w')"
    and "r = \<lparr>rc_NodeName = ps_getenv P ''NODE_NAME'', rc_Checkpointer = agent_checkpointer P s im kc\<rparr>"
    and "ps_config P = None"
proof -
  obtain asg where asg: "parse_flags (agent_flags (sl_fmul (e_sched E)) P) P = Inr asg"
    using assms agent_setup_exits(1) [of E P] by (cases "parse_flags (agent_flags (sl_fmul (e_sched E)) P) P") auto
  have node: "ps_getenv P ''NODE_NAME'' \<noteq> []" using assms agent_setup_exits(2) [OF asg] by auto
  define s where "s = agent_settings_of (sl_fmul (e_sched E)) P asg"
  obtain i w1 where i: "run_state (Install E (settings_manager s)) w = (i, w1)" by fastforce
  have "i = None" using assms agent_setup_install_fails [OF asg node] i by (cases i) (auto simp: s_def)
  with i have inst: "run_state (Install E (settings_manager s)) w = (None, w1)" by simp
  obtain tok w2 where tok: "run_state (read_file E tokenFile) w1 = (tok, w2)" by fastforce
  let ?t = "case tok of Inl err \<Rightarrow> [] | Inr b \<Rightarrow> b"
  obtain k w3 where k: "run_state (NewKubeletClient E (ag_kubeletURL s) ?t (ag_kubeletCA s)
      (ag_kubeletInsec s) (ag_kubeletTimeout s)) w2 = (k, w3)" by fastforce
  show ?thesis
    by (rule that [where kc = "projr k", OF asg s_def refl node inst tok])
      (use assms asg node inst tok k in \<open>auto simp: agent_setup_def s_def [symmetric] settings_manager_def Let_def
        split: sum.splits option.splits\<close>)
qed

subsection \<open>Settings by precedence\<close>

text \<open>The last value given on the command line, else the environment variable if it is set, else the default.\<close>

definition configured :: "(string \<times> string) list \<Rightarrow> string \<Rightarrow> string \<Rightarrow> string \<Rightarrow> string" where
  "configured asg name var def =
    hd (map snd (filter (\<lambda>a. fst a = name) (rev asg)) @ (if var = [] then [] else [var]) @ [def])"

lemma map_of_filter_hd:
  "map_of xs n = (case map snd (filter (\<lambda>a. fst a = n) xs) of [] \<Rightarrow> None | v # vs \<Rightarrow> Some v)"
  by (induction xs) auto

lemma flag_string_configured: "flag_string asg name (envOr P key def) = configured asg name (ps_getenv P key) def"
  by (simp add: flag_string_def flag_value_def configured_def envOr_def map_of_filter_hd split: list.splits)

lemma agent_flags_simps:
  "agent_flags fmul P ''kubelet-timeout'' = Some (duration_flag fmul)"
  "agent_flags fmul P ''kubelet-url'' = Some string_flag" "agent_flags fmul P ''host-run-dir'' = Some string_flag"
  by (simp_all add: agent_flags_def)

subsection \<open>Properties\<close>

definition node_process :: process where
  "node_process = plain_process\<lparr>
     ps_args := map print_flag [(''kubelet-url'', ''https://a''), (''host-run-dir'', ''/run/x''), (''kubelet-url'', ''https://b'')],
     ps_getenv := (\<lambda>k. if k = ''NODE_NAME'' then ''node-a'' else if k = ''KUBELET_URL'' then ''https://c''
       else if k = ''HOST_LIB_DIR'' then ''/lib/x'' else [])\<rparr>"




definition start_process :: process where
  "start_process = plain_process\<lparr>ps_getenv := (\<lambda>k. if k = ''NODE_NAME'' then ''node-a'' else [])\<rparr>"

lemma start_main:
  obtains r w' where "run_state (agent_main quiet_env start_process) empty_world = ((None, Some r), w')"
proof -
  have "parse_flags (agent_flags fmul start_process) start_process = Inr []" for fmul
    by (simp add: parse_flags_none start_process_def plain_process_def)
  moreover have "ag_kubeletInsec (agent_settings_of fmul start_process [])" for fmul
    by (simp add: agent_settings_of_def flag_bool_def flag_value_def envOr_def start_process_def)
  ultimately have "fst (run_state (agent_main quiet_env start_process) empty_world) = (None, Some
      (projr (fst (run_state (agent_setup quiet_env start_process) empty_world))))"
    by (simp add: agent_main_def agent_setup_def Let_def Install_def syscall_defs NewKubeletClient_def
        Reconciler_SetupWithManager_def start_process_def plain_process_def agent_scheme_def gpu_AddToScheme_def)
  then show ?thesis by (intro that) (rule prod_eqI, simp_all)
qed


end
