(* ===== verification/Agent_Lifecycle.thy ===== *)
theory Agent_Lifecycle
  imports Agent_Reconciler
begin

text \<open>
  The life of a GPUCheckpoint resource under its agents: a step relation whose steps are reconciles of
  any agent in any environment, cut off after any of its calls (an agent may be killed at any
  moment), and the invariant its status keeps. The API server stores what it is sent; it may
  refuse any update.
\<close>

subsection \<open>What the API server holds\<close>

text \<open>The resource after a sequence of calls: each accepted status update replaces it.\<close>

fun replay :: "env \<Rightarrow> history \<Rightarrow> event list \<Rightarrow> GPUCheckpoint \<Rightarrow> GPUCheckpoint" where
  "replay E h [] cr = cr"
| "replay E h (ev # evs) cr = replay E (h @ [ev]) evs
    (case ev of
       EvUpdateStatus c \<Rightarrow> (case e_update E (h @ [ev]) of Inl err \<Rightarrow> cr | Inr stored \<Rightarrow> stored)
     | _ \<Rightarrow> cr)"

definition condition_states :: "GPUCheckpointStatus \<Rightarrow> (string \<times> string) list" where
  "condition_states st = map (\<lambda>c. (cd_Type c, cd_Status c)) (st_Conditions st)"

text \<open>A stored object is the one sent, but for the precision of times.\<close>

definition server_keeps :: "env \<Rightarrow> bool" where
  "server_keeps E \<longleftrightarrow> (\<forall>h cr cr'. e_update E (h @ [EvUpdateStatus cr]) = Inr cr' \<longrightarrow>
    gc_Spec cr' = gc_Spec cr \<and> st_Phase (gc_Status cr') = st_Phase (gc_Status cr) \<and>
    st_CheckpointCount (gc_Status cr') = st_CheckpointCount (gc_Status cr) \<and>
    (st_LastCheckpointTime (gc_Status cr') = None \<longleftrightarrow> st_LastCheckpointTime (gc_Status cr) = None) \<and>
    condition_states (gc_Status cr') = condition_states (gc_Status cr))"

text \<open>The resources reached from a newly created one, with a fixed cron library.\<close>

inductive lifecycle :: "sched_lib \<Rightarrow> GPUCheckpoint \<Rightarrow> GPUCheckpoint \<Rightarrow> bool" for L cr0 where
  created: "gc_Status cr0 = empty_status \<Longrightarrow> lifecycle L cr0 cr0"
| reconciled: "lifecycle L cr0 cr \<Longrightarrow> e_sched E = L \<Longrightarrow> server_keeps E \<Longrightarrow>
    e_getcr E (w_hist w @ [EvGetCR req]) = Inr cr \<Longrightarrow> run_state (Reconcile E r req) w = (res, w') \<Longrightarrow>
    w_hist w' = w_hist w @ evs \<Longrightarrow> lifecycle L cr0 (replay E (w_hist w) (take n evs) cr)"

subsection \<open>The invariant\<close>

definition one_shot :: "sched_lib \<Rightarrow> string \<Rightarrow> bool" where
  "one_shot L s \<longleftrightarrow> (case NextRun L s 0 of Inl err \<Rightarrow> False | Inr (n, recurring) \<Rightarrow> \<not> recurring)"

definition valid_status :: "GPUCheckpointStatus \<Rightarrow> bool" where
  "valid_status st \<longleftrightarrow>
    st_Phase st \<in> {[], PhaseCheckpointing, PhaseCompleted, PhaseFailed} \<and>
    condition_states st \<in> {[], [(''Ready'', ConditionTrue)], [(''Ready'', ConditionFalse)]} \<and>
    (st_LastCheckpointTime st = None \<longrightarrow> st_CheckpointCount st = 0) \<and>
    (st_Phase st = PhaseCompleted \<longrightarrow> st_LastCheckpointTime st \<noteq> None \<and> condition_states st = [(''Ready'', ConditionTrue)]) \<and>
    (st_Phase st = PhaseFailed \<longrightarrow> condition_states st = [(''Ready'', ConditionFalse)])"

definition valid_resource :: "sched_lib \<Rightarrow> GPUCheckpoint \<Rightarrow> bool" where
  "valid_resource L cr \<longleftrightarrow> valid_status (gc_Status cr) \<and>
    (one_shot L (gs_Schedule (gc_Spec cr)) \<longrightarrow> unat (st_CheckpointCount (gc_Status cr)) \<le> 1)"

lemma phases_distinct:
  "distinct [[], PhaseCheckpointing, PhaseCompleted, PhaseFailed]"
  by (simp add: phases)

lemma states_neq [simp]: "ConditionTrue \<noteq> ConditionFalse" "ConditionFalse \<noteq> ConditionTrue"
  by (simp_all add: ConditionTrue_def ConditionFalse_def)

lemma valid_empty: "gc_Status cr = empty_status \<Longrightarrow> valid_resource L cr"
  by (simp add: valid_resource_def valid_status_def condition_states_def empty_status_def phases)

text \<open>Setting the one condition there is.\<close>

lemma put_ready:
  assumes "map (\<lambda>c. (cd_Type c, cd_Status c)) cs \<in> {[], [(''Ready'', a)], [(''Ready'', b)]}"
  shows "map (\<lambda>c. (cd_Type c, cd_Status c)) (put_condition cs ''Ready'' s re m at) = [(''Ready'', s)]"
proof (cases cs)
  case (Cons c rest)
  with assms have "cd_Type c = ''Ready''" "rest = []" by auto
  with Cons show ?thesis by simp
qed simp

lemma valid_started:
  assumes "valid_status st"
  shows "valid_status (started_status st node)" and "st_CheckpointCount (started_status st node) = st_CheckpointCount st"
    and "st_LastCheckpointTime (started_status st node) = st_LastCheckpointTime st"
  using assms phases_distinct by (auto simp: valid_status_def started_status_def condition_states_def)

lemma valid_failed:
  assumes "valid_status st"
  shows "valid_status (failed_status st msg at)" and "st_CheckpointCount (failed_status st msg at) = st_CheckpointCount st"
proof -
  have "condition_states (failed_status st msg at) = [(''Ready'', ConditionFalse)]"
    using put_ready [of "st_Conditions st" ConditionTrue ConditionFalse] assms
    by (simp add: valid_status_def condition_states_def failed_status_def setCondition_def)
  then show "valid_status (failed_status st msg at)"
    using assms phases_distinct by (auto simp: valid_status_def failed_status_def setCondition_def)
  show "st_CheckpointCount (failed_status st msg at) = st_CheckpointCount st"
    by (simp add: failed_status_def setCondition_def)
qed

lemma valid_stored:
  assumes "valid_status st"
  shows "valid_status (stored_status st res at)" and "st_CheckpointCount (stored_status st res at) = st_CheckpointCount st + 1"
proof -
  have "condition_states (stored_status st res at) = [(''Ready'', ConditionTrue)]"
    using put_ready [of "st_Conditions st" ConditionTrue ConditionFalse] assms
    by (simp add: valid_status_def condition_states_def stored_status_def setCondition_def)
  then show "valid_status (stored_status st res at)"
    using phases_distinct by (auto simp: valid_status_def stored_status_def setCondition_def)
  show "st_CheckpointCount (stored_status st res at) = st_CheckpointCount st + 1"
    by (simp add: stored_status_def setCondition_def)
qed

lemma valid_kept:
  assumes "server_keeps E" and "e_update E (h @ [EvUpdateStatus cr]) = Inr cr'" and "valid_resource L cr"
  shows "valid_resource L cr' \<and> gc_Spec cr' = gc_Spec cr \<and>
    st_CheckpointCount (gc_Status cr') = st_CheckpointCount (gc_Status cr)"
proof -
  have "gc_Spec cr' = gc_Spec cr \<and> st_Phase (gc_Status cr') = st_Phase (gc_Status cr) \<and>
      st_CheckpointCount (gc_Status cr') = st_CheckpointCount (gc_Status cr) \<and>
      (st_LastCheckpointTime (gc_Status cr') = None \<longleftrightarrow> st_LastCheckpointTime (gc_Status cr) = None) \<and>
      condition_states (gc_Status cr') = condition_states (gc_Status cr)"
    using assms(1,2) unfolding server_keeps_def by blast
  with assms(3) show ?thesis unfolding valid_resource_def valid_status_def by simp
qed

subsection \<open>Which updates a reconcile sends\<close>

definition updates :: "event list \<Rightarrow> GPUCheckpoint set" where
  "updates evs = {c. EvUpdateStatus c \<in> set evs}"

lemma updates_simps [simp]:
  "updates [] = {}" "updates (evs @ evs') = updates evs \<union> updates evs'"
  "updates (EvUpdateStatus c # evs) = insert c (updates evs)" "updates (EvGetCR k # evs) = updates evs"
  "updates (EvGetPod k # evs) = updates evs"
  by (auto simp: updates_def)

lemma updates_none: "list_all (\<lambda>e. \<forall>c. e \<noteq> EvUpdateStatus c) evs \<Longrightarrow> updates evs = {}"
  by (auto simp: updates_def list_all_iff)

text \<open>The pipeline writes no status.\<close>

lemma pipeline_no_updates:
  "state_io_rel (calls (\<lambda>e. \<forall>cr. e \<noteq> EvUpdateStatus cr)) (Checkpointer_Checkpoint E c t)"
proof -
  have hook: "hook_ev c t e \<Longrightarrow> \<forall>cr. e \<noteq> EvUpdateStatus cr" for e
    by (auto simp: hook_ev_def channel_event_def)
  have stores: "store_ev d e \<Longrightarrow> \<forall>cr. e \<noteq> EvUpdateStatus cr" for d e by (cases e) auto
  show ?thesis
    unfolding Checkpointer_Checkpoint_def
    by (intro calls_rel.rel_intros io_basic_calls io_calls_mono [OF freeze_calls] io_calls_mono [OF produce_calls]
        io_calls_mono [OF resume_calls] io_calls_mono [OF store_calls]) (auto dest: hook stores)
qed

lemma run_checkpoint_sends:
  assumes "run_state (run_checkpoint E r cr pod recurring) w = (res, w')"
  obtains evs final where "w_hist w' = w_hist w @ EvUpdateStatus (marked cr pod) # evs @ [EvUpdateStatus final]"
    and "updates evs = {}" and "gc_Spec final = gc_Spec (after_mark E cr pod w)"
    and "\<exists>msg at rs. gc_Status final \<in> {failed_status (gc_Status (after_mark E cr pod w)) msg at,
      stored_status (gc_Status (after_mark E cr pod w)) rs at}"
proof -
  let ?m = "after_mark E cr pod w" and ?w = "after_call E (EvUpdateStatus (marked cr pod)) w"
  let ?c = "Checkpointer_Checkpoint E (rc_Checkpointer r) (cr_target ?m pod (target_container cr pod))"
  obtain outcome w1 where p: "run_state ?c ?w = (outcome, w1)" by fastforce
  from state_io_relD [OF pipeline_no_updates p] obtain evs where
    evs: "w_hist w1 = w_hist ?w @ evs" "updates evs = {}" by (auto simp: calls_def dest: updates_none)
  show ?thesis
  proof (cases outcome)
    case (Inl err)
    let ?f = "?m\<lparr>gc_Status := failed_status (gc_Status ?m) (''checkpoint failed: '' @ checkpoint_text err) (w_now w1)\<rparr>"
    have "w' = after_call E (EvUpdateStatus ?f) w1"
      using assms unfolding run_checkpoint_error [OF p [unfolded Inl]] run_fail by simp
    with evs show ?thesis by (intro that [of evs ?f]) auto
  next
    case (Inr rs)
    let ?f = "?m\<lparr>gc_Status := stored_status (gc_Status ?m) rs (w_now w1)\<rparr>"
    have "w' = after_call E (EvUpdateStatus ?f) w1"
      using assms unfolding run_checkpoint_ok [OF p [unfolded Inr] refl refl] by (auto split: sum.splits)
    with evs show ?thesis by (intro that [of evs ?f]) auto
  qed
qed

text \<open>A one-shot resource is only run as long as it has no checkpoint.\<close>

lemma decide_one_shot:
  assumes "one_shot L s" and "decide L s l t = RunNow recurring"
  shows "l = None"
proof -
  obtain n where "NextRun L s 0 = Inr (n, False)" using assms(1) by (auto simp: one_shot_def split: sum.splits)
  then obtain n' where "NextRun L s t = Inr (n', False)" using agent_sched.rec_indep by blast
  with assms(2) show ?thesis by (auto simp: decide_def split: option.splits)
qed

lemma marked_valid:
  assumes "valid_resource L cr"
  shows "valid_resource L (marked cr pod)" and "gc_Spec (marked cr pod) = gc_Spec cr"
    and "st_CheckpointCount (gc_Status (marked cr pod)) = st_CheckpointCount (gc_Status cr)"
  using assms valid_started [of "gc_Status cr"] by (auto simp: valid_resource_def marked_def)

lemma after_mark_valid:
  assumes "valid_resource L cr" and "server_keeps E"
  shows "valid_resource L (after_mark E cr pod w) \<and> gc_Spec (after_mark E cr pod w) = gc_Spec cr \<and>
    st_CheckpointCount (gc_Status (after_mark E cr pod w)) = st_CheckpointCount (gc_Status cr)"
proof (cases "e_update E (w_hist w @ [EvUpdateStatus (marked cr pod)])")
  case (Inl err)
  then show ?thesis using marked_valid [OF assms(1)] by (simp add: after_mark_def)
next
  case (Inr cr')
  with valid_kept [OF assms(2) Inr marked_valid(1) [OF assms(1)]] marked_valid(2,3) [OF assms(1), of pod]
  show ?thesis by (simp add: after_mark_def)
qed

lemma fail_sends:
  assumes "valid_resource L cr" and "run_state (fail E cr msg) w = (res, w')"
  shows "\<exists>c. w_hist w' = w_hist w @ [EvUpdateStatus c] \<and> valid_resource L c \<and> gc_Spec c = gc_Spec cr"
  using assms valid_failed [of "gc_Status cr"] by (auto simp: run_fail valid_resource_def)

lemma run_checkpoint_valid:
  assumes "valid_resource L cr" and "server_keeps E" and "run_state (run_checkpoint E r cr pod recurring) w = (res, w')"
    and "one_shot L (gs_Schedule (gc_Spec cr)) \<Longrightarrow> st_LastCheckpointTime (gc_Status cr) = None"
  shows "\<exists>evs. w_hist w' = w_hist w @ evs \<and> (\<forall>c\<in>updates evs. valid_resource L c \<and> gc_Spec c = gc_Spec cr)"
proof -
  let ?m = "after_mark E cr pod w"
  obtain evs final where sent: "w_hist w' = w_hist w @ EvUpdateStatus (marked cr pod) # evs @ [EvUpdateStatus final]"
    "updates evs = {}" "gc_Spec final = gc_Spec ?m"
    and st: "\<exists>msg at rs. gc_Status final \<in> {failed_status (gc_Status ?m) msg at, stored_status (gc_Status ?m) rs at}"
    by (rule run_checkpoint_sends [OF assms(3)])
  note m = after_mark_valid [OF assms(1,2), of pod w]
  have "st_CheckpointCount (gc_Status ?m) = 0" if "one_shot L (gs_Schedule (gc_Spec cr))"
    using assms(1) assms(4) [OF that] m by (simp add: valid_resource_def valid_status_def)
  then have "valid_resource L final"
    using st m sent(3) valid_failed [of "gc_Status ?m"] valid_stored [of "gc_Status ?m"]
    by (auto simp: valid_resource_def)
  with sent m marked_valid [OF assms(1), of pod] show ?thesis
    by (intro exI [of _ "EvUpdateStatus (marked cr pod) # evs @ [EvUpdateStatus final]"]) auto
qed

lemma Reconcile_sends_valid:
  assumes "valid_resource L cr" and "server_keeps E" and "e_sched E = L"
    and "e_getcr E (w_hist w @ [EvGetCR req]) = Inr cr" and "run_state (Reconcile E r req) w = (res, w')"
    and "w_hist w' = w_hist w @ evs"
  shows "\<forall>c\<in>updates evs. valid_resource L c \<and> gc_Spec c = gc_Spec cr"
proof -
  let ?ref = "gs_WorkloadRef (gc_Spec cr)" and ?w1 = "after_call E (EvGetCR req) w"
  consider (kind) "wr_Kind ?ref \<noteq> [] \<and> wr_Kind ?ref \<noteq> ''Pod''"
    | (pod_error) err where "wr_Kind ?ref = [] \<or> wr_Kind ?ref = ''Pod''"
        "e_getpod E (w_hist w @ [EvGetCR req, EvGetPod (pod_key cr)]) = Inl err"
    | (served) pod where "serves E w req cr pod"
    using assms(4) by (cases "e_getpod E (w_hist w @ [EvGetCR req, EvGetPod (pod_key cr)])") (auto simp: serves_def)
  then show ?thesis
  proof cases
    case kind
    then have "run_state (fail E cr (''workloadRef.kind '' @ wr_Kind ?ref @ '' not supported yet (only Pod)'')) ?w1 = (res, w')"
      using assms(4,5) by (simp add: Reconcile_def get_cr_def Let_def)
    from fail_sends [OF assms(1) this] show ?thesis using assms(6) by auto
  next
    case (pod_error err)
    let ?w2 = "after_call E (EvGetPod (pod_key cr)) ?w1"
    have run: "(res, w') = (if IsNotFound err then run_state (fail E cr ''target Pod not found'') ?w2 else ((no_requeue, Some err), ?w2))"
      using assms(4,5) pod_error by (auto simp: Reconcile_def get_cr_def get_pod_def Let_def)
    show ?thesis
    proof (cases "IsNotFound err")
      case True
      with run fail_sends [OF assms(1), of E "''target Pod not found''" ?w2 res w'] show ?thesis
        using assms(6) by auto
    next
      case False
      with run show ?thesis using assms(6) by auto
    qed
  next
    case (served pod)
    let ?v = "resolved E req cr w"
    let ?d = "decide L (gs_Schedule (gc_Spec cr)) (st_LastCheckpointTime (gc_Status cr)) (w_now ?v)"
    show ?thesis
    proof (cases "target_node cr pod = rc_NodeName r")
      case False
      from Reconcile_other_node [OF served False] assms(5) show ?thesis using assms(6) by auto
    next
      case True
      note run = assms(5) [unfolded Reconcile_decides [OF served True] assms(3)]
      show ?thesis
      proof (cases ?d)
        case (Invalid err)
        with run have "run_state (fail E cr (''invalid schedule: '' @ err)) ?v = (res, w')" by (simp add: act_def)
        from fail_sends [OF assms(1) this] show ?thesis using assms(6) by auto
      next
        case (RunNow recurring)
        with run have "run_state (run_checkpoint E r cr pod recurring) ?v = (res, w')" by (simp add: act_def)
        from run_checkpoint_valid [OF assms(1,2) this] decide_one_shot [OF _ RunNow] show ?thesis
          using assms(6) by auto
      qed (use run assms(6) in \<open>auto simp: act_def\<close>)
    qed
  qed
qed

lemma updates_take: "updates (take n evs) \<subseteq> updates evs"
  by (auto simp: updates_def dest: in_set_takeD)

lemma replay_valid:
  assumes "\<forall>c\<in>updates evs. valid_resource L c \<and> gc_Spec c = sp" and "server_keeps E"
    and "valid_resource L cr" and "gc_Spec cr = sp"
  shows "valid_resource L (replay E h evs cr) \<and> gc_Spec (replay E h evs cr) = sp"
  using assms(1,3,4)
proof (induction evs arbitrary: h cr)
  case (Cons ev evs)
  let ?next = "case ev of EvUpdateStatus c \<Rightarrow> (case e_update E (h @ [ev]) of Inl err \<Rightarrow> cr | Inr stored \<Rightarrow> stored) | _ \<Rightarrow> cr"
  have "valid_resource L ?next \<and> gc_Spec ?next = sp"
  proof (cases "\<exists>c. ev = EvUpdateStatus c")
    case True
    then obtain c where c: "ev = EvUpdateStatus c" by blast
    with Cons.prems have "valid_resource L c" "gc_Spec c = sp" by auto
    with Cons.prems(2,3) valid_kept [OF assms(2)] c show ?thesis by (auto split: sum.splits)
  next
    case False
    then show ?thesis using Cons.prems(2,3) by (cases ev) auto
  qed
  moreover have "\<forall>c\<in>updates evs. valid_resource L c \<and> gc_Spec c = sp" using Cons.prems(1) by (auto simp: updates_def)
  ultimately show ?case using Cons.IH by simp
qed simp

inductive_cases lifecycleE: "lifecycle L cr0 cr"

subsection \<open>Properties\<close>

text \<open>C9: Through its whole life, with agents on any nodes reconciling it, being killed after any call, the API
  server refusing any update, Pods coming and going and pipelines failing, the status of a
  GPUCheckpoint stays meaningful: one of four phases; no condition but Ready, at most once;
  Completed only with a checkpoint time and Ready true, Failed only with Ready false; no
  count without a checkpoint time; the spec never changed; and for a one-shot schedule the
  count never exceeds one.\<close>

theorem lifecycle_valid:
  assumes "lifecycle L cr0 cr"
  shows "valid_status (gc_Status cr) \<and> gc_Spec cr = gc_Spec cr0 \<and>
    (one_shot L (gs_Schedule (gc_Spec cr)) \<longrightarrow> unat (st_CheckpointCount (gc_Status cr)) \<le> 1)"
proof -
  from assms have "valid_resource L cr \<and> gc_Spec cr = gc_Spec cr0"
  proof induction
    case created
    then show ?case using valid_empty by blast
  next
    case (reconciled cr E w req r res w' evs n)
    have "\<forall>c\<in>updates evs. valid_resource L c \<and> gc_Spec c = gc_Spec cr0"
      using Reconcile_sends_valid [of L cr E w req r res w' evs] reconciled by simp
    then have "\<forall>c\<in>updates (take n evs). valid_resource L c \<and> gc_Spec c = gc_Spec cr0"
      using updates_take [of n evs] by blast
    from replay_valid [OF this] reconciled show ?case by simp
  qed
  then show ?thesis by (simp add: valid_resource_def)
qed

lemma train_server_keeps: "server_keeps train_env"
  by (simp add: server_keeps_def train_env_def)

lemma train_lifecycle:
  obtains cr where "lifecycle (e_sched train_env) train_cr cr" and "st_Phase (gc_Status cr) = PhaseCheckpointing"
proof -
  have new: "gc_Status train_cr = empty_status" by (simp add: train_cr_def)
  have get: "e_getcr train_env (w_hist empty_world @ [EvGetCR (''ml'', ''ck'')]) = Inr train_cr"
    using train_serves [of empty_world "(''ml'', ''ck'')"] by (simp add: serves_def)
  have node: "target_node train_cr train_pod = rc_NodeName (node_agent ''node-a'')" by (simp add: train_node)
  obtain res w' where run: "run_state (Reconcile train_env (node_agent ''node-a'') (''ml'', ''ck'')) empty_world = (res, w')"
    by fastforce
  have chk: "run_state (run_checkpoint train_env (node_agent ''node-a'') train_cr train_pod False)
      (resolved train_env (''ml'', ''ck'') train_cr empty_world) = (res, w')"
    using run unfolding Reconcile_decides [OF train_serves node] train_decide by (simp add: act_def)
  obtain evs where evs: "w_hist w' = w_hist empty_world @ [EvGetCR (''ml'', ''ck''), EvGetPod (pod_key train_cr),
      EvUpdateStatus (marked train_cr train_pod)] @ evs"
    using run_checkpoint_sends [OF chk] by (metis append_Cons append_Nil append_assoc resolved_simps)
  have "lifecycle (e_sched train_env) train_cr (replay train_env (w_hist empty_world) (take 3 ([EvGetCR (''ml'', ''ck''),
      EvGetPod (pod_key train_cr), EvUpdateStatus (marked train_cr train_pod)] @ evs)) train_cr)"
    by (rule lifecycle.reconciled [OF lifecycle.created [OF new] refl train_server_keeps get run evs])
  then show ?thesis
    by (rule that) (simp add: train_env_def marked_def started_status_def)
qed

theorem lifecycle_valid_witness:
  "\<exists>cr. lifecycle (e_sched train_env) train_cr cr \<and> st_Phase (gc_Status cr) = PhaseCheckpointing \<and>
    valid_status (gc_Status cr) \<and> gc_Spec cr = gc_Spec train_cr"
proof -
  obtain cr where "lifecycle (e_sched train_env) train_cr cr" "st_Phase (gc_Status cr) = PhaseCheckpointing"
    by (rule train_lifecycle)
  then show ?thesis using lifecycle_valid by blast
qed

text \<open>C39: A resource whose Pod is gone is marked Failed by the agent of whatever node looks at it, its own or
  another, and whatever it said before: a checkpoint that was completed and stored is reported
  Failed once its Pod was deleted and an agent sees the resource again, although its path
  stays; and each such agent comes back every 30 seconds.\<close>

theorem missing_pod_fails:
  assumes "e_getcr E (w_hist w @ [EvGetCR req]) = Inr cr" and "wr_Kind (gs_WorkloadRef (gc_Spec cr)) \<in> {[], ''Pod''}"
    and "e_getpod E (w_hist w @ [EvGetCR req, EvGetPod (pod_key cr)]) = Inl (NotFound m)"
  shows "\<exists>cr'. run_state (Reconcile E r req) w = ((requeue_after (30 * second), None),
      after_call E (EvUpdateStatus cr') (resolved E req cr w)) \<and>
    st_Phase (gc_Status cr') = PhaseFailed \<and>
    st_LastCheckpointPath (gc_Status cr') = st_LastCheckpointPath (gc_Status cr) \<and>
    st_CheckpointCount (gc_Status cr') = st_CheckpointCount (gc_Status cr)"
proof -
  have "run_state (Reconcile E r req) w = run_state (fail E cr ''target Pod not found'') (resolved E req cr w)"
    using assms by (auto simp: Reconcile_def get_cr_def get_pod_def resolved_def Let_def)
  then show ?thesis
    by (intro exI [of _ "cr\<lparr>gc_Status := failed_status (gc_Status cr) ''target Pod not found'' (w_now (resolved E req cr w))\<rparr>"])
       (simp add: run_fail failed_status_def setCondition_def)
qed

theorem missing_pod_fails_witness:
  "\<exists>cr'. snd (run_state (Reconcile (done_env\<lparr>e_getpod := \<lambda>h. Inl (NotFound [])\<rparr>) (node_agent ''node-b'') (''ml'', ''ck'')) empty_world) =
      after_call (done_env\<lparr>e_getpod := \<lambda>h. Inl (NotFound [])\<rparr>) (EvUpdateStatus cr')
        (resolved (done_env\<lparr>e_getpod := \<lambda>h. Inl (NotFound [])\<rparr>) (''ml'', ''ck'') done_cr empty_world) \<and>
    st_Phase (gc_Status done_cr) = PhaseCompleted \<and> st_Phase (gc_Status cr') = PhaseFailed"
proof -
  let ?E = "done_env\<lparr>e_getpod := \<lambda>h. Inl (NotFound [])\<rparr>"
  have "e_getcr ?E (w_hist empty_world @ [EvGetCR (''ml'', ''ck'')]) = Inr done_cr"
    "wr_Kind (gs_WorkloadRef (gc_Spec done_cr)) \<in> {[], ''Pod''}" "st_Phase (gc_Status done_cr) = PhaseCompleted"
    by (simp_all add: done_env_def done_cr_def train_cr_def stored_status_def setCondition_def)
  then show ?thesis
    using missing_pod_fails [of ?E empty_world "(''ml'', ''ck'')" done_cr "[]" "node_agent ''node-b''"] by auto
qed

end
