(* ===== verification/Workload_Types.thy ===== *)
theory Workload_Types
  imports Api_Types
begin

text \<open>
  \<^verbatim>\<open>orchestrator/api/v1alpha1/workloadcheckpoint_types.go\<close>: the WorkloadCheckpoint custom resource, with
  int32 counters as 32-bit words. A label selector (Kubernetes' own type) keeps its two parts.
\<close>

type_synonym label_set = "(string \<times> string) list"

record LabelSelector =
  ls_MatchLabels :: label_set
  ls_MatchExpressions :: "(string \<times> string \<times> string list) list"

definition ActionCheckpoint :: string where "ActionCheckpoint = ''Checkpoint''"
definition ActionRestore :: string where "ActionRestore = ''Restore''"
definition CoordinationNone :: string where "CoordinationNone = ''None''"
definition CoordinationBarrier :: string where "CoordinationBarrier = ''Barrier''"

record WorkloadTargetRef =
  tr_Kind :: string
  tr_Namespace :: string
  tr_Name :: string
  tr_Container :: string

record WorkloadCheckpointSpec =
  ws_WorkloadRef :: WorkloadTargetRef
  ws_Action :: string
  ws_Storage :: StorageSpec
  ws_PodSelector :: "LabelSelector option"
  ws_Coordination :: string
  ws_Schedule :: string
  ws_Incremental :: bool
  ws_RequireGPU :: "bool option"
  ws_MaxConcurrent :: "32 word"

definition WCPhasePending :: string where "WCPhasePending = ''Pending''"
definition WCPhaseResolving :: string where "WCPhaseResolving = ''Resolving''"
definition WCPhaseInProgress :: string where "WCPhaseInProgress = ''InProgress''"
definition WCPhaseCompleted :: string where "WCPhaseCompleted = ''Completed''"
definition WCPhasePartiallyFailed :: string where "WCPhasePartiallyFailed = ''PartiallyFailed''"
definition WCPhaseFailed :: string where "WCPhaseFailed = ''Failed''"

lemmas wc_phases = WCPhasePending_def WCPhaseResolving_def WCPhaseInProgress_def WCPhaseCompleted_def
  WCPhasePartiallyFailed_def WCPhaseFailed_def

record TargetStatus =
  ts_PodName :: string
  ts_Node :: string
  ts_ChildName :: string
  ts_Phase :: string
  ts_Path :: string
  ts_Message :: string

record WorkloadCheckpointStatus =
  wt_Phase :: string
  wt_ObservedWorkloadKind :: string
  wt_Total :: "32 word"
  wt_Active :: "32 word"
  wt_Completed :: "32 word"
  wt_Failed :: "32 word"
  wt_Targets :: "TargetStatus list"
  wt_StartTime :: "go_time option"
  wt_CompletionTime :: "go_time option"
  wt_Message :: string
  wt_Conditions :: "Condition list"

record WorkloadCheckpoint =
  wc_Meta :: ObjectMeta
  wc_Spec :: WorkloadCheckpointSpec
  wc_Status :: WorkloadCheckpointStatus

end
