(* ===== verification/Sha1.thy ===== *)
theory Sha1
  imports Go_Strings
begin

text \<open>
  SHA-1 (FIPS 180-4) as \<^verbatim>\<open>crypto/sha1\<close> computes it, and \<^verbatim>\<open>hex.EncodeToString\<close>; the orchestrator uses
  them for the names of children of Pods with long names.
\<close>

unbundle bit_operations_syntax

type_synonym w32 = "32 word"

definition byte_word :: "char \<Rightarrow> w32" where
  "byte_word c = word_of_nat (of_char c)"

definition be32 :: "char \<Rightarrow> char \<Rightarrow> char \<Rightarrow> char \<Rightarrow> w32" where
  "be32 a b c d =
    push_bit 24 (byte_word a) OR push_bit 16 (byte_word b) OR push_bit 8 (byte_word c) OR byte_word d"

fun words_of :: "string \<Rightarrow> w32 list" where
  "words_of (a # b # c # d # s) = be32 a b c d # words_of s"
| "words_of _ = []"

definition length_bytes :: "nat \<Rightarrow> string" where
  "length_bytes n = map (\<lambda>i. char_of (unat (take_bit 8 (drop_bit (56 - 8 * i) (word_of_nat n :: 64 word))))) [0..<8]"

definition sha1_pad :: "string \<Rightarrow> string" where
  "sha1_pad s = s @ [CHR 0x80] @ replicate ((119 - length s mod 64) mod 64) (CHR 0x00) @ length_bytes (8 * length s)"

definition rotl :: "nat \<Rightarrow> w32 \<Rightarrow> w32" where
  "rotl n w = push_bit n w OR drop_bit (32 - n) w"

text \<open>The message schedule, newest word first.\<close>

fun expand :: "nat \<Rightarrow> w32 list \<Rightarrow> w32 list" where
  "expand 0 ws = ws"
| "expand (Suc n) ws = expand n (rotl 1 (ws ! 2 XOR ws ! 7 XOR ws ! 13 XOR ws ! 15) # ws)"

definition sha1_f :: "nat \<Rightarrow> w32 \<Rightarrow> w32 \<Rightarrow> w32 \<Rightarrow> w32" where
  "sha1_f i b c d =
    (if i < 20 then (b AND c) OR (NOT b AND d)
     else if i < 40 then b XOR c XOR d
     else if i < 60 then (b AND c) OR (b AND d) OR (c AND d)
     else b XOR c XOR d)"

definition sha1_k :: "nat \<Rightarrow> w32" where
  "sha1_k i = (if i < 20 then 0x5A827999 else if i < 40 then 0x6ED9EBA1 else if i < 60 then 0x8F1BBCDC else 0xCA62C1D6)"

type_synonym sha1_state = "w32 \<times> w32 \<times> w32 \<times> w32 \<times> w32"

fun sha1_rounds :: "nat \<Rightarrow> w32 list \<Rightarrow> sha1_state \<Rightarrow> sha1_state" where
  "sha1_rounds i [] st = st"
| "sha1_rounds i (w # ws) (a, b, c, d, e) =
    sha1_rounds (Suc i) ws (rotl 5 a + sha1_f i b c d + e + sha1_k i + w, a, rotl 30 b, c, d)"

definition sha1_block :: "sha1_state \<Rightarrow> w32 list \<Rightarrow> sha1_state" where
  "sha1_block h ws =
    (case (h, sha1_rounds 0 (rev (expand 64 (rev ws))) h) of
       ((a, b, c, d, e), (a', b', c', d', e')) \<Rightarrow> (a + a', b + b', c + c', d + d', e + e'))"

function sha1_blocks :: "sha1_state \<Rightarrow> w32 list \<Rightarrow> sha1_state" where
  "sha1_blocks h ws = (if length ws < 16 then h else sha1_blocks (sha1_block h (take 16 ws)) (drop 16 ws))"
  by pat_completeness auto
termination by (relation "measure (\<lambda>(h, ws). length ws)") auto

declare sha1_blocks.simps [simp del]

definition sha1_init :: sha1_state where
  "sha1_init = (0x67452301, 0xEFCDAB89, 0x98BADCFE, 0x10325476, 0xC3D2E1F0)"

definition word_bytes :: "w32 \<Rightarrow> string" where
  "word_bytes w = map (\<lambda>i. char_of (unat (take_bit 8 (drop_bit (24 - 8 * i) w)))) [0..<4]"

definition sha1 :: "string \<Rightarrow> string" where
  "sha1 s = (case sha1_blocks sha1_init (words_of (sha1_pad s)) of
     (a, b, c, d, e) \<Rightarrow> concat (map word_bytes [a, b, c, d, e]))"

definition hex_encode :: "string \<Rightarrow> string" where
  "hex_encode s = concat (map hex_byte s)"

lemma length_hex_encode [simp]: "length (hex_encode s) = 2 * length s"
  by (induction s) (simp_all add: hex_encode_def hex_byte_def)

lemma length_sha1 [simp]: "length (sha1 s) = 20"
  by (simp add: sha1_def word_bytes_def split: prod.splits)

definition hex_chars :: string where
  "hex_chars = ''0123456789abcdef''"

lemma hex_digit_alnum:
  assumes "n < 16"
  shows "hex_digit n \<in> set hex_chars"
proof -
  have "n \<in> set [0..<16]" using assms by simp
  then have "hex_digit n \<in> hex_digit ` set [0..<16]" by (rule imageI)
  also have "hex_digit ` set [0..<16] \<subseteq> set hex_chars" by code_simp
  finally show ?thesis .
qed

lemma hex_encode_alnum: "c \<in> set (hex_encode s) \<Longrightarrow> c \<in> set hex_chars"
proof (induction s)
  case (Cons x s)
  have "(of_char x :: nat) div 16 < 16" using nat_of_char_less_256 [of x] by (simp add: div_less_iff_less_mult)
  moreover have "(of_char x :: nat) mod 16 < 16" by simp
  ultimately show ?case using Cons hex_digit_alnum by (auto simp: hex_encode_def hex_byte_def)
qed (simp add: hex_encode_def)

end
