(* ===== verification/Orchestrator.thy ===== *)
theory Orchestrator
  imports Os_World Workload_Types Sha1
begin

text \<open>
  \<^verbatim>\<open>orchestrator/controllers/workloadcheckpoint_controller.go\<close>: the controller that fans a WorkloadCheckpoint
  out to one GPUCheckpoint child per Pod and sums up their status. It only talks to the API
  server, so its world is a call history and a clock, and its environment answers the calls.
  Label selectors are Kubernetes library code: \<open>o_valid\<close> says which convert without an error,
  \<open>o_matches\<close> what they select; \<open>o_setref\<close> is \<^verbatim>\<open>ctrl.SetControllerReference\<close>.
\<close>

datatype selector = SelNothing | SelLabels LabelSelector | SelSet label_set

datatype oevent =
    OvGetWC nsname
  | OvGetPod nsname
  | OvGetOwner string nsname
  | OvListPods string "selector option"
  | OvGetChild nsname
  | OvCreate GPUCheckpoint
  | OvListChildren string string
  | OvUpdateWC WorkloadCheckpoint

record oworld =
  ow_hist :: "oevent list"
  ow_now :: go_time

record oenv =
  o_getwc :: "oevent list \<Rightarrow> api_error + WorkloadCheckpoint"
  o_getpod :: "oevent list \<Rightarrow> api_error + Pod"
  o_getowner :: "oevent list \<Rightarrow> api_error + LabelSelector option"
  o_listpods :: "oevent list \<Rightarrow> api_error + Pod list"
  o_getchild :: "oevent list \<Rightarrow> api_error + GPUCheckpoint"
  o_create :: "oevent list \<Rightarrow> api_error option"
  o_listchildren :: "oevent list \<Rightarrow> api_error + GPUCheckpoint list"
  o_update :: "oevent list \<Rightarrow> api_error + WorkloadCheckpoint"
  o_elapsed :: "oevent list \<Rightarrow> nat"
  o_valid :: "LabelSelector \<Rightarrow> bool"
  o_matches :: "selector \<Rightarrow> label_set \<Rightarrow> bool"
  o_setref :: "WorkloadCheckpoint \<Rightarrow> GPUCheckpoint \<Rightarrow> GPUCheckpoint or_err"

type_synonym 'a orch = "(oworld, 'a) state"

definition ocall :: "oenv \<Rightarrow> oevent \<Rightarrow> oevent list orch" where
  "ocall S ev = State (\<lambda>w. let h = ow_hist w @ [ev]
     in (h, \<lparr>ow_hist = h, ow_now = ow_now w + int (o_elapsed S h)\<rparr>))"

definition onow :: "go_time orch" where
  "onow = State (\<lambda>w. (ow_now w, w))"

definition after_ocall :: "oenv \<Rightarrow> oevent \<Rightarrow> oworld \<Rightarrow> oworld" where
  "after_ocall S ev w =
    \<lparr>ow_hist = ow_hist w @ [ev], ow_now = ow_now w + int (o_elapsed S (ow_hist w @ [ev]))\<rparr>"

lemma run_ocall [simp, run_simps]:
  "run_state (ocall S ev) w = (ow_hist w @ [ev], after_ocall S ev w)"
  "run_state onow w = (ow_now w, w)"
  by (simp_all add: ocall_def onow_def after_ocall_def Let_def)

lemma after_ocall_simps [simp]:
  "ow_hist (after_ocall S ev w) = ow_hist w @ [ev]"
  "ow_now (after_ocall S ev w) = ow_now w + int (o_elapsed S (ow_hist w @ [ev]))"
  by (simp_all add: after_ocall_def)

datatype orch_error = ApiErr api_error | RefErr string

fun orch_text :: "orch_error \<Rightarrow> string" where
  "orch_text (ApiErr e) = api_text e"
| "orch_text (RefErr s) = s"

subsection \<open>Constants\<close>

definition ownedByLabel :: string where "ownedByLabel = ''gpu-cr.io/workload-checkpoint''"
definition gpuResource :: string where "gpuResource = ''nvidia.com/gpu''"
definition resolveInterval :: duration where "resolveInterval = 30 * second"
definition activePollInterval :: duration where "activePollInterval = 15 * second"
definition PodRunning :: string where "PodRunning = ''Running''"

subsection \<open>Names and storage of children\<close>

definition childName :: "string \<Rightarrow> string \<Rightarrow> string" where
  "childName parent pod =
    (let base = parent @ ''-'' @ pod
     in if length base \<le> 253 then base
        else parent @ ''-'' @ take 12 (hex_encode (sha1 pod)))"

definition joinPath :: "string \<Rightarrow> string \<Rightarrow> string" where
  "joinPath base0 leaf =
    (let base = TrimRightByte base0 (CHR ''/'') in if base = [] then leaf else base @ ''/'' @ leaf)"

definition perPodStorage :: "StorageSpec \<Rightarrow> string \<Rightarrow> StorageSpec" where
  "perPodStorage s pod =
    (if ss_Type s \<in> {StorageMount, StorageNFS, StoragePVC, StorageS3}
     then s\<lparr>ss_SubPath := joinPath (ss_SubPath s) pod\<rparr>
     else s\<lparr>ss_Path := joinPath (ss_Path s) pod\<rparr>)"

definition buildChild :: "WorkloadCheckpoint \<Rightarrow> Pod \<Rightarrow> string \<Rightarrow> GPUCheckpoint" where
  "buildChild wc pod name = \<lparr>
     gc_Meta = \<lparr>om_Name = name, om_Namespace = om_Namespace (wc_Meta wc),
       om_Labels = [(ownedByLabel, om_Name (wc_Meta wc))], om_UID = [], om_Controller = None\<rparr>,
     gc_Spec = \<lparr>
       gs_WorkloadRef = \<lparr>wr_Kind = ''Pod'', wr_Namespace = pod_Namespace pod, wr_Name = pod_Name pod,
         wr_Container = tr_Container (ws_WorkloadRef (wc_Spec wc)), wr_NodeInfo = pod_NodeName pod\<rparr>,
       gs_Storage = perPodStorage (ws_Storage (wc_Spec wc)) (pod_Name pod),
       gs_Schedule = ws_Schedule (wc_Spec wc), gs_Incremental = ws_Incremental (wc_Spec wc)\<rparr>,
     gc_Status = empty_status\<rparr>"

definition isTerminal :: "string \<Rightarrow> bool" where
  "isTerminal p \<longleftrightarrow> p = PhaseCompleted \<or> p = PhaseFailed"

subsection \<open>Resolving Pods\<close>

text \<open>\<^verbatim>\<open>metav1.LabelSelectorAsSelector\<close>: no selector selects nothing, an invalid one gives nil.\<close>

definition as_selector :: "oenv \<Rightarrow> LabelSelector option \<Rightarrow> selector option" where
  "as_selector S ls = (case ls of None \<Rightarrow> Some SelNothing | Some l \<Rightarrow> if o_valid S l then Some (SelLabels l) else None)"

definition podRequestsGPU :: "Pod \<Rightarrow> bool" where
  "podRequestsGPU p =
    list_ex (\<lambda>c.
      (case map_of (ct_Limits c) gpuResource of Some v \<Rightarrow> v \<noteq> 0 | None \<Rightarrow> False) \<or>
      (case map_of (ct_Requests c) gpuResource of Some v \<Rightarrow> v \<noteq> 0 | None \<Rightarrow> False)) (pod_Containers p)"

fun filter_loop :: "oenv \<Rightarrow> bool \<Rightarrow> selector option \<Rightarrow> Pod list \<Rightarrow> Pod list" where
  "filter_loop S requireGPU extra [] = []"
| "filter_loop S requireGPU extra (p # ps) =
    (if pod_Phase p \<noteq> PodRunning \<or> pod_DeletionTimestamp p \<noteq> None then filter_loop S requireGPU extra ps
     else if (case extra of None \<Rightarrow> False | Some sel \<Rightarrow> \<not> o_matches S sel (pod_Labels p)) then filter_loop S requireGPU extra ps
     else if requireGPU \<and> \<not> podRequestsGPU p then filter_loop S requireGPU extra ps
     else p # filter_loop S requireGPU extra ps)"

definition filterPods :: "oenv \<Rightarrow> Pod list \<Rightarrow> WorkloadCheckpoint \<Rightarrow> Pod list" where
  "filterPods S ps wc =
    filter_loop S (case ws_RequireGPU (wc_Spec wc) of None \<Rightarrow> True | Some b \<Rightarrow> b)
      (case ws_PodSelector (wc_Spec wc) of None \<Rightarrow> None | Some ls \<Rightarrow> as_selector S (Some ls)) ps"

datatype resolve_error = ResolveApi api_error | UnsupportedKind string

fun resolve_text :: "resolve_error \<Rightarrow> string" where
  "resolve_text (ResolveApi e) = api_text e"
| "resolve_text (UnsupportedKind k) = ''unsupported workload kind '' @ fmt_q k"

definition list_pods :: "oenv \<Rightarrow> WorkloadCheckpoint \<Rightarrow> string \<Rightarrow> selector option \<Rightarrow> (resolve_error + Pod list) orch" where
  "list_pods S wc ns sel = do {
     h \<leftarrow> ocall S (OvListPods ns sel);
     State_Monad.return (case o_listpods S h of
       Inl err \<Rightarrow> Inl (ResolveApi err) | Inr items \<Rightarrow> Inr (filterPods S items wc)) }"

definition resolvePods :: "oenv \<Rightarrow> WorkloadCheckpoint \<Rightarrow> ((resolve_error + Pod list) \<times> string) orch" where
  "resolvePods S wc = (
     let ref = ws_WorkloadRef (wc_Spec wc); ns = tr_Namespace ref;
         kind = (if tr_Kind ref = [] then ''Pod'' else tr_Kind ref); key = (ns, tr_Name ref)
     in if kind = ''Pod'' then do {
          h \<leftarrow> ocall S (OvGetPod key);
          State_Monad.return (case o_getpod S h of
            Inl err \<Rightarrow> Inl (ResolveApi err) | Inr pod \<Rightarrow> Inr (filterPods S [pod] wc), kind) }
        else if kind \<in> {''Deployment'', ''ReplicaSet'', ''StatefulSet'', ''Job''} then do {
          h \<leftarrow> ocall S (OvGetOwner kind key);
          case o_getowner S h of
            Inl err \<Rightarrow> State_Monad.return (Inl (ResolveApi err), kind)
          | Inr ls \<Rightarrow> do {
              r \<leftarrow> list_pods S wc ns
                (if kind = ''Job'' \<and> ls = None then Some (SelSet [(''job-name'', tr_Name ref)]) else as_selector S ls);
              State_Monad.return (r, kind) } }
        else State_Monad.return (Inl (UnsupportedKind kind), kind))"

subsection \<open>Status\<close>

definition update_wc :: "oenv \<Rightarrow> WorkloadCheckpoint \<Rightarrow> (api_error option \<times> WorkloadCheckpoint) orch" where
  "update_wc S wc = do {
     h \<leftarrow> ocall S (OvUpdateWC wc);
     State_Monad.return (case o_update S h of Inl err \<Rightarrow> (Some err, wc) | Inr wc' \<Rightarrow> (None, wc')) }"

definition finish :: "oenv \<Rightarrow> WorkloadCheckpoint \<Rightarrow> string \<Rightarrow> string \<Rightarrow> (ctrl_Result \<times> orch_error option) orch" where
  "finish S wc phase msg = do {
     t \<leftarrow> onow;
     let st = (wc_Status wc)\<lparr>wt_Phase := phase, wt_Message := msg\<rparr>;
     let st = (if (phase = WCPhaseFailed \<or> phase = WCPhaseCompleted) \<and> wt_CompletionTime st = None
               then st\<lparr>wt_CompletionTime := Some t\<rparr> else st);
     u \<leftarrow> update_wc S (wc\<lparr>wc_Status := st\<rparr>);
     State_Monad.return (no_requeue, map_option ApiErr (fst u)) }"

text \<open>The counters of \<^verbatim>\<open>aggregate\<close>, int32 each.\<close>

record tally =
  ta_total :: "32 word"
  ta_active :: "32 word"
  ta_done :: "32 word"
  ta_failed :: "32 word"
  ta_targets :: "TargetStatus list"

definition by_name :: "GPUCheckpoint list \<Rightarrow> string \<Rightarrow> GPUCheckpoint option" where
  "by_name children = map_of (rev (map (\<lambda>c. (om_Name (gc_Meta c), c)) children))"

fun tally_pods :: "string \<Rightarrow> (string \<Rightarrow> GPUCheckpoint option) \<Rightarrow> Pod list \<Rightarrow> tally \<Rightarrow> tally" where
  "tally_pods parent byName [] a = a"
| "tally_pods parent byName (pod # pods) a =
    (let a = a\<lparr>ta_total := ta_total a + 1\<rparr>;
         ts = \<lparr>ts_PodName = pod_Name pod, ts_Node = pod_NodeName pod, ts_ChildName = childName parent (pod_Name pod),
               ts_Phase = [], ts_Path = [], ts_Message = []\<rparr>
     in case byName (ts_ChildName ts) of
          Some c \<Rightarrow>
            (let ts = ts\<lparr>ts_Phase := st_Phase (gc_Status c), ts_Path := st_LastCheckpointPath (gc_Status c),
                         ts_Message := st_Message (gc_Status c)\<rparr>;
                 a = (if st_Phase (gc_Status c) = PhaseCompleted then a\<lparr>ta_done := ta_done a + 1\<rparr>
                      else if st_Phase (gc_Status c) = PhaseFailed then a\<lparr>ta_failed := ta_failed a + 1\<rparr>
                      else a\<lparr>ta_active := ta_active a + 1\<rparr>)
             in tally_pods parent byName pods (a\<lparr>ta_targets := ta_targets a @ [ts]\<rparr>))
        | None \<Rightarrow>
            (let ts = ts\<lparr>ts_Phase := ''Pending''\<rparr>; a = a\<lparr>ta_active := ta_active a + 1\<rparr>
             in tally_pods parent byName pods (a\<lparr>ta_targets := ta_targets a @ [ts]\<rparr>)))"

definition zero_tally :: tally where
  "zero_tally = \<lparr>ta_total = 0, ta_active = 0, ta_done = 0, ta_failed = 0, ta_targets = []\<rparr>"

definition aggregate_status :: "WorkloadCheckpointStatus \<Rightarrow> tally \<Rightarrow> go_time \<Rightarrow> WorkloadCheckpointStatus" where
  "aggregate_status st a t =
    (let st = st\<lparr>wt_Total := ta_total a, wt_Active := ta_active a, wt_Completed := ta_done a,
                 wt_Failed := ta_failed a, wt_Targets := ta_targets a\<rparr>
     in if ta_done a = ta_total a then
          st\<lparr>wt_Phase := WCPhaseCompleted, wt_Message := ''all replicas checkpointed'',
             wt_CompletionTime := (if wt_CompletionTime st = None then Some t else wt_CompletionTime st)\<rparr>
        else if ta_done a + ta_failed a = ta_total a \<and> 0 < sint (ta_failed a) \<and> 0 < sint (ta_done a) then
          st\<lparr>wt_Phase := WCPhasePartiallyFailed,
             wt_Message := fmt_d (sint (ta_failed a)) @ ''/'' @ fmt_d (sint (ta_total a)) @ '' replicas failed''\<rparr>
        else if ta_done a + ta_failed a = ta_total a \<and> ta_done a = 0 then
          st\<lparr>wt_Phase := WCPhaseFailed, wt_Message := ''all replicas failed''\<rparr>
        else st\<lparr>wt_Phase := WCPhaseInProgress\<rparr>)"

definition aggregate :: "oenv \<Rightarrow> WorkloadCheckpoint \<Rightarrow> Pod list \<Rightarrow> (api_error option \<times> WorkloadCheckpoint) orch" where
  "aggregate S wc pods = do {
     h \<leftarrow> ocall S (OvListChildren (om_Namespace (wc_Meta wc)) (om_Name (wc_Meta wc)));
     case o_listchildren S h of
       Inl err \<Rightarrow> State_Monad.return (Some err, wc)
     | Inr children \<Rightarrow> do {
         t \<leftarrow> onow;
         update_wc S (wc\<lparr>wc_Status := aggregate_status (wc_Status wc)
           (tally_pods (om_Name (wc_Meta wc)) (by_name children) pods zero_tally) t\<rparr>) } }"

subsection \<open>Fan-out\<close>

definition applyBarrier :: "WorkloadCheckpoint \<Rightarrow> Pod list \<Rightarrow> orch_error option" where
  "applyBarrier wc pods = None"

fun ensure_children :: "oenv \<Rightarrow> WorkloadCheckpoint \<Rightarrow> Pod list \<Rightarrow> 32 word \<Rightarrow> orch_error option orch" where
  "ensure_children S wc [] inFlight = State_Monad.return None"
| "ensure_children S wc (pod # pods) inFlight = do {
     let name = childName (om_Name (wc_Meta wc)) (pod_Name pod);
     h \<leftarrow> ocall S (OvGetChild (om_Namespace (wc_Meta wc), name));
     case o_getchild S h of
       Inr child \<Rightarrow>
         ensure_children S wc pods (if \<not> isTerminal (st_Phase (gc_Status child)) then inFlight + 1 else inFlight)
     | Inl err \<Rightarrow>
         if \<not> IsNotFound err then State_Monad.return (Some (ApiErr err))
         else if 0 < sint (ws_MaxConcurrent (wc_Spec wc)) \<and> sint (ws_MaxConcurrent (wc_Spec wc)) \<le> sint inFlight
         then State_Monad.return None
         else (case o_setref S wc (buildChild wc pod name) of
           Inl err \<Rightarrow> State_Monad.return (Some (RefErr err))
         | Inr child \<Rightarrow> do {
             h2 \<leftarrow> ocall S (OvCreate child);
             case o_create S h2 of
               Some err \<Rightarrow>
                 if \<not> IsAlreadyExists err then State_Monad.return (Some (ApiErr err))
                 else ensure_children S wc pods (inFlight + 1)
             | None \<Rightarrow> ensure_children S wc pods (inFlight + 1) }) }"

definition mark_resolving :: "WorkloadCheckpointStatus \<Rightarrow> go_time \<Rightarrow> WorkloadCheckpointStatus" where
  "mark_resolving st t =
    (if wt_Phase st = [] \<or> wt_Phase st = WCPhasePending
     then st\<lparr>wt_Phase := WCPhaseResolving, wt_StartTime := (if wt_StartTime st = None then Some t else wt_StartTime st)\<rparr>
     else st)"

definition WC_Reconcile :: "oenv \<Rightarrow> nsname \<Rightarrow> (ctrl_Result \<times> orch_error option) orch" where
  "WC_Reconcile S req = do {
     h \<leftarrow> ocall S (OvGetWC req);
     case o_getwc S h of
       Inl err \<Rightarrow> State_Monad.return (no_requeue, if IsNotFound err then None else Some (ApiErr err))
     | Inr wc \<Rightarrow>
         if ws_Action (wc_Spec wc) = ActionRestore then
           finish S wc WCPhaseFailed ''Action=Restore is defined but the Node Agent restore path is not implemented yet''
         else do {
           r \<leftarrow> resolvePods S wc;
           case fst r of
             Inl err \<Rightarrow> finish S wc WCPhaseFailed (''resolve workload: '' @ resolve_text err)
           | Inr pods \<Rightarrow> do {
               let wc = wc\<lparr>wc_Status := (wc_Status wc)\<lparr>wt_ObservedWorkloadKind := snd r\<rparr>\<rparr>;
               if length pods = 0 then
                 finish S wc WCPhaseFailed ''no matching (GPU) Pods resolved from workloadRef''
               else do {
                 t \<leftarrow> onow;
                 let wc = wc\<lparr>wc_Status := mark_resolving (wc_Status wc) t\<rparr>;
                 case (if ws_Coordination (wc_Spec wc) = CoordinationBarrier then applyBarrier wc pods else None) of
                   Some err \<Rightarrow> State_Monad.return (no_requeue, Some err)
                 | None \<Rightarrow> do {
                     e \<leftarrow> ensure_children S wc pods 0;
                     case e of
                       Some err \<Rightarrow> State_Monad.return (no_requeue, Some err)
                     | None \<Rightarrow> do {
                         a \<leftarrow> aggregate S wc pods;
                         State_Monad.return (case fst a of
                           Some err \<Rightarrow> (no_requeue, Some (ApiErr err))
                         | None \<Rightarrow>
                             if ws_Schedule (wc_Spec (snd a)) \<noteq> [] then (requeue_after resolveInterval, None)
                             else if 0 < sint (wt_Active (wc_Status (snd a))) then (requeue_after activePollInterval, None)
                             else (no_requeue, None)) } } } } } }"

subsection \<open>Which Pods are kept\<close>

definition keeps_pod :: "oenv \<Rightarrow> WorkloadCheckpoint \<Rightarrow> Pod \<Rightarrow> bool" where
  "keeps_pod S wc p \<longleftrightarrow>
    pod_Phase p = PodRunning \<and> pod_DeletionTimestamp p = None \<and>
    (case ws_PodSelector (wc_Spec wc) of None \<Rightarrow> True | Some ls \<Rightarrow> \<not> o_valid S ls \<or> o_matches S (SelLabels ls) (pod_Labels p)) \<and>
    (ws_RequireGPU (wc_Spec wc) = Some False \<or> podRequestsGPU p)"

lemma filter_loop_filter:
  "filter_loop S g extra ps = filter (\<lambda>p. pod_Phase p = PodRunning \<and> pod_DeletionTimestamp p = None \<and>
    (case extra of None \<Rightarrow> True | Some sel \<Rightarrow> o_matches S sel (pod_Labels p)) \<and> (g \<longrightarrow> podRequestsGPU p)) ps"
  by (induction S g extra ps rule: filter_loop.induct) (auto split: option.splits)

lemma filterPods_filter: "filterPods S ps wc = filter (keeps_pod S wc) ps"
  unfolding filterPods_def filter_loop_filter keeps_pod_def
  by (rule filter_cong) (auto simp: as_selector_def split: option.splits)

lemma podRequestsGPU_iff:
  "podRequestsGPU p \<longleftrightarrow> (\<exists>c\<in>set (pod_Containers p). \<exists>v. v \<noteq> 0 \<and>
    (map_of (ct_Limits c) gpuResource = Some v \<or> map_of (ct_Requests c) gpuResource = Some v))"
proof -
  have "(case x of Some v \<Rightarrow> v \<noteq> 0 | None \<Rightarrow> False) \<longleftrightarrow> (\<exists>v. v \<noteq> 0 \<and> x = Some v)" for x :: "int option"
    by (cases x) auto
  then show ?thesis unfolding podRequestsGPU_def list_ex_iff by blast
qed

subsection \<open>Names of children\<close>

lemma childName_short: "length parent + length pod < 253 \<Longrightarrow> childName parent pod = parent @ ''-'' @ pod"
  by (simp add: childName_def)

lemma childName_length: "length parent \<le> 240 \<Longrightarrow> length (childName parent pod) \<le> 253"
  by (simp add: childName_def Let_def min_def)

lemma childName_inj_short:
  assumes "length parent + length p < 253" and "length parent + length q < 253"
    and "childName parent p = childName parent q"
  shows "p = q"
  using assms by (simp add: childName_short)

subsection \<open>Paths of children\<close>

lemma joinPath_abs:
  assumes "TrimRightByte base (CHR ''/'') \<noteq> []"
  shows "joinPath base leaf = TrimRightByte base slash @ slash # leaf"
  using assms by (simp add: joinPath_def slash_def)

lemma split_slashes: "split_byte slash (replicate n slash) = replicate (Suc n) []"
  by (induction n) auto

lemma clean_elems_blank: "clean_elems r st (xs @ replicate n []) = clean_elems r st xs"
proof -
  have "clean_elems r st' (replicate n []) = rev st'" for st' by (induction n arbitrary: st') auto
  then show ?thesis by (simp add: clean_elems_split)
qed

lemma TrimRightByte_decomp: "\<exists>n. s = TrimRightByte s c @ replicate n c"
proof (induction s rule: rev_induct)
  case (snoc x s)
  show ?case
  proof (cases "x = c")
    case True
    from snoc obtain n where "s = TrimRightByte s c @ replicate n c" by blast
    then have "s @ [c] = TrimRightByte s c @ replicate (Suc n) c"
      by (simp add: replicate_append_same [symmetric] flip: append_assoc)
    moreover have "TrimRightByte (s @ [c]) c = TrimRightByte s c" by (simp add: TrimRightByte_def)
    ultimately show ?thesis using True by metis
  qed (auto simp: TrimRightByte_def intro: exI [of _ 0])
qed (simp add: TrimRightByte_def)

lemma elems_TrimRight:
  assumes "TrimRightByte base slash \<noteq> []"
  shows "elems (TrimRightByte base slash) = elems base \<and> is_abs (TrimRightByte base slash) = is_abs base"
proof -
  let ?t = "TrimRightByte base slash"
  obtain n where n: "base = ?t @ replicate n slash" using TrimRightByte_decomp by blast
  have abs: "is_abs base = is_abs ?t" using n assms by (metis hd_append2 is_abs_def append_is_Nil_conv)
  show ?thesis
  proof (cases n)
    case 0
    with n show ?thesis by simp
  next
    case (Suc k)
    have "split_byte slash base = split_byte slash (?t @ slash # replicate k slash)" using n Suc by simp
    also have "\<dots> = split_byte slash ?t @ replicate (Suc k) []"
      by (simp only: split_byte_append_gen split_slashes)
    finally have "elems base = elems ?t" using abs clean_elems_blank by (simp add: elems_def del: replicate_Suc)
    with abs show ?thesis by simp
  qed
qed

text \<open>Below an absolute directory that is not the root, each Pod gets the sub-directory of its name.\<close>

lemma elems_joinPath:
  assumes "TrimRightByte base slash \<noteq> []" and "path_elem pod"
  shows "elems (joinPath base pod) = elems base @ [pod]" and "is_abs (joinPath base pod) = is_abs base"
proof -
  have j: "joinPath base pod = TrimRightByte base slash @ slash # pod"
    using assms(1) by (simp add: joinPath_def slash_def)
  show "elems (joinPath base pod) = elems base @ [pod]"
    unfolding j using elems_slash_elem [OF assms] elems_TrimRight [OF assms(1)] by simp
  show "is_abs (joinPath base pod) = is_abs base"
    unfolding j using assms(1) elems_TrimRight [OF assms(1)] by (auto simp: is_abs_def)
qed

subsection \<open>Counting children\<close>

definition child_phase :: "string \<Rightarrow> (string \<Rightarrow> GPUCheckpoint option) \<Rightarrow> Pod \<Rightarrow> string option" where
  "child_phase parent byName pod =
    map_option (\<lambda>c. st_Phase (gc_Status c)) (byName (childName parent (pod_Name pod)))"

definition n_with :: "(string option \<Rightarrow> bool) \<Rightarrow> string \<Rightarrow> (string \<Rightarrow> GPUCheckpoint option) \<Rightarrow> Pod list \<Rightarrow> nat" where
  "n_with P parent byName pods = length (filter (\<lambda>p. P (child_phase parent byName p)) pods)"

abbreviation completed_child :: "string option \<Rightarrow> bool" where
  "completed_child ph \<equiv> ph = Some PhaseCompleted"

abbreviation failed_child :: "string option \<Rightarrow> bool" where
  "failed_child ph \<equiv> ph = Some PhaseFailed"

abbreviation active_child :: "string option \<Rightarrow> bool" where
  "active_child ph \<equiv> \<not> completed_child ph \<and> \<not> failed_child ph"

lemma phase_neq [simp]: "PhaseCompleted \<noteq> PhaseFailed" "PhaseFailed \<noteq> PhaseCompleted"
  by (simp_all add: phases)

definition tally_one :: "string \<Rightarrow> (string \<Rightarrow> GPUCheckpoint option) \<Rightarrow> Pod \<Rightarrow> tally \<Rightarrow> tally" where
  "tally_one parent byName pod a = tally_pods parent byName [pod] a"

lemma tally_step:
  "tally_pods parent byName (pod # pods) a = tally_pods parent byName pods (tally_one parent byName pod a)"
  unfolding tally_one_def
  by (cases "byName (childName parent (pod_Name pod))") (simp_all add: Let_def)

lemma tally_one_counts:
  "ta_total (tally_one parent byName pod a) = ta_total a + 1"
  "ta_done (tally_one parent byName pod a) =
    ta_done a + of_bool (completed_child (child_phase parent byName pod))"
  "ta_failed (tally_one parent byName pod a) =
    ta_failed a + of_bool (failed_child (child_phase parent byName pod))"
  "ta_active (tally_one parent byName pod a) =
    ta_active a + of_bool (active_child (child_phase parent byName pod))"
  unfolding tally_one_def
  by (cases "byName (childName parent (pod_Name pod))"; simp add: child_phase_def Let_def)+

lemma n_with_Cons: "n_with P parent byName (pod # pods) = of_bool (P (child_phase parent byName pod)) + n_with P parent byName pods"
  by (simp add: n_with_def)

lemma n_with_Nil [simp]: "n_with P parent byName [] = 0"
  by (simp add: n_with_def)

lemma tally_pods_counts:
  "ta_total (tally_pods parent byName pods a) = ta_total a + word_of_nat (length pods)"
  "ta_done (tally_pods parent byName pods a) = ta_done a + word_of_nat (n_with completed_child parent byName pods)"
  "ta_failed (tally_pods parent byName pods a) = ta_failed a + word_of_nat (n_with failed_child parent byName pods)"
  "ta_active (tally_pods parent byName pods a) = ta_active a + word_of_nat (n_with active_child parent byName pods)"
  by (induction pods arbitrary: a; simp add: tally_step tally_one_counts n_with_Cons del: tally_pods.simps(2))+

lemma n_with_sum:
  "n_with completed_child parent byName pods + n_with failed_child parent byName pods +
    n_with active_child parent byName pods = length pods"
  by (induction pods) (auto simp: n_with_Cons)

text \<open>Counts below \<open>2 ^ 31\<close> are exact in an int32.\<close>

lemma int32_unat: "n < 2 ^ 31 \<Longrightarrow> unat (word_of_nat n :: 32 word) = n"
  by (simp add: unat_of_nat take_bit_nat_eq_self)

lemma int32_sint: "n < 2 ^ 31 \<Longrightarrow> sint (word_of_nat n :: 32 word) = int n"
  by (simp add: signed_of_nat signed_take_bit_int_eq_self)

lemma int32_eq: "m < 2 ^ 31 \<Longrightarrow> n < 2 ^ 31 \<Longrightarrow> (word_of_nat m :: 32 word) = word_of_nat n \<longleftrightarrow> m = n"
  using int32_unat by metis

definition phase_of :: "nat \<Rightarrow> nat \<Rightarrow> nat \<Rightarrow> string" where
  "phase_of completed failed n =
    (if completed = n then WCPhaseCompleted
     else if completed + failed = n then (if completed = 0 then WCPhaseFailed else WCPhasePartiallyFailed)
     else WCPhaseInProgress)"

lemma aggregate_phase:
  assumes "c + f + a = n" and "n < 2 ^ 31"
    and "ta_total T = word_of_nat n" and "ta_done T = word_of_nat c" and "ta_failed T = word_of_nat f"
  shows "wt_Phase (aggregate_status st T t) = phase_of c f n"
    and "wt_CompletionTime (aggregate_status st T t) =
      (if c = n \<and> wt_CompletionTime st = None then Some t else wt_CompletionTime st)"
proof -
  have b: "c < 2 ^ 31" "f < 2 ^ 31" "c + f < 2 ^ 31" using assms(1,2) by auto
  have eqs: "ta_done T = ta_total T \<longleftrightarrow> c = n" "ta_done T + ta_failed T = ta_total T \<longleftrightarrow> c + f = n"
    "sint (ta_failed T) = int f" "sint (ta_done T) = int c" "ta_done T = 0 \<longleftrightarrow> c = 0"
    using int32_eq [OF b(1) assms(2)] int32_eq [OF b(3) assms(2)] int32_sint [OF b(1)] int32_sint [OF b(2)]
      int32_eq [OF b(1), of 0] assms(3-5) by simp_all
  show "wt_Phase (aggregate_status st T t) = phase_of c f n"
    using eqs by (auto simp: aggregate_status_def Let_def phase_of_def)
  show "wt_CompletionTime (aggregate_status st T t) =
      (if c = n \<and> wt_CompletionTime st = None then Some t else wt_CompletionTime st)"
    using eqs by (auto simp: aggregate_status_def Let_def)
qed

lemma aggregate_counts:
  "wt_Total (aggregate_status st T t) = ta_total T" "wt_Completed (aggregate_status st T t) = ta_done T"
  "wt_Failed (aggregate_status st T t) = ta_failed T" "wt_Active (aggregate_status st T t) = ta_active T"
  "wt_Targets (aggregate_status st T t) = ta_targets T"
  by (simp_all add: aggregate_status_def Let_def)

subsection \<open>Fan-out\<close>

fun creates :: "oevent list \<Rightarrow> GPUCheckpoint list" where
  "creates [] = []"
| "creates (OvCreate c # h) = c # creates h"
| "creates (_ # h) = creates h"

lemma creates_append [simp]: "creates (h @ h') = creates h @ creates h'"
  by (induction h rule: creates.induct) auto

text \<open>One step of the fan-out loop.\<close>

lemma ensure_children_cases:
  assumes "run_state (ensure_children S wc (pod # pods) i) w = (r, w')"
    and "name = childName (om_Name (wc_Meta wc)) (pod_Name pod)"
    and "w1 = after_ocall S (OvGetChild (om_Namespace (wc_Meta wc), name)) w"
  obtains (exists) c where "o_getchild S (ow_hist w1) = Inr c"
      and "run_state (ensure_children S wc pods (if \<not> isTerminal (st_Phase (gc_Status c)) then i + 1 else i)) w1 = (r, w')"
  | (get_error) err where "o_getchild S (ow_hist w1) = Inl err" and "r = Some (ApiErr err)" and "w' = w1"
  | (limited) "0 < sint (ws_MaxConcurrent (wc_Spec wc))" and "sint (ws_MaxConcurrent (wc_Spec wc)) \<le> sint i"
      and "r = None" and "w' = w1"
  | (ref_error) err where "r = Some (RefErr err)" and "w' = w1"
  | (create_error) c err where "o_setref S wc (buildChild wc pod name) = Inr c" and "r = Some (ApiErr err)"
      and "w' = after_ocall S (OvCreate c) w1"
      and "\<not> (0 < sint (ws_MaxConcurrent (wc_Spec wc)) \<and> sint (ws_MaxConcurrent (wc_Spec wc)) \<le> sint i)"
  | (created) c where "o_setref S wc (buildChild wc pod name) = Inr c"
      and "\<exists>err. o_getchild S (ow_hist w1) = Inl err \<and> IsNotFound err"
      and "\<not> (0 < sint (ws_MaxConcurrent (wc_Spec wc)) \<and> sint (ws_MaxConcurrent (wc_Spec wc)) \<le> sint i)"
      and "run_state (ensure_children S wc pods (i + 1)) (after_ocall S (OvCreate c) w1) = (r, w')"
  using assms by (auto simp: Let_def split: sum.splits if_splits option.splits)

lemma ensure_children_bound:
  assumes "run_state (ensure_children S wc pods i) w = (r, w')" and "sint (ws_MaxConcurrent (wc_Spec wc)) = int m"
    and "0 < m" and "i = word_of_nat k" and "k + length pods < 2 ^ 31"
  shows "\<exists>evs. ow_hist w' = ow_hist w @ evs \<and> length (creates evs) \<le> m - k"
  using assms
proof (induction pods arbitrary: i k w)
  case (Cons pod pods)
  have k: "sint i = int k" using Cons.prems(4,5) int32_sint [of k] by simp
  have i1: "i + 1 = word_of_nat (Suc k)" using Cons.prems(4) by simp
  from Cons.prems(1) refl refl show ?case
  proof (cases rule: ensure_children_cases)
    case (exists c)
    let ?j = "if \<not> isTerminal (st_Phase (gc_Status c)) then Suc k else k"
    have "(if \<not> isTerminal (st_Phase (gc_Status c)) then i + 1 else i) = word_of_nat ?j" using i1 Cons.prems(4) by simp
    moreover have "?j + length pods < 2 ^ 31" using Cons.prems(5) by simp
    ultimately obtain evs where "ow_hist w' = ow_hist w @ OvGetChild (om_Namespace (wc_Meta wc),
        childName (om_Name (wc_Meta wc)) (pod_Name pod)) # evs" "length (creates evs) \<le> m - ?j"
      using Cons.IH [OF exists(2) Cons.prems(2,3)] by auto
    moreover have "m - ?j \<le> m - k" by (simp add: diff_le_mono2)
    ultimately show ?thesis
      by (intro exI [of _ "OvGetChild (om_Namespace (wc_Meta wc), childName (om_Name (wc_Meta wc)) (pod_Name pod)) # evs"]) simp
  next
    case (created c)
    have lt: "k < m" using created(3) Cons.prems(2,3) k by simp
    obtain evs where evs: "ow_hist w' = ow_hist (after_ocall S (OvCreate c)
        (after_ocall S (OvGetChild (om_Namespace (wc_Meta wc), childName (om_Name (wc_Meta wc)) (pod_Name pod))) w)) @ evs"
      "length (creates evs) \<le> m - Suc k"
      using Cons.IH [OF created(4) Cons.prems(2,3) i1] Cons.prems(5) by auto
    let ?evs = "[OvGetChild (om_Namespace (wc_Meta wc), childName (om_Name (wc_Meta wc)) (pod_Name pod)), OvCreate c] @ evs"
    have "ow_hist w' = ow_hist w @ ?evs \<and> length (creates ?evs) \<le> m - k" using evs lt by simp
    then show ?thesis by blast
  next
    case (create_error c err)
    then show ?thesis using Cons.prems(2,3) k by simp
  qed simp_all
qed simp

text \<open>Without a limit no Pod is left out: it has a child, or one was created for it.\<close>

definition handled :: "oenv \<Rightarrow> WorkloadCheckpoint \<Rightarrow> Pod \<Rightarrow> oevent list \<Rightarrow> oevent list \<Rightarrow> bool" where
  "handled S wc pod base evs \<longleftrightarrow>
    (let name = childName (om_Name (wc_Meta wc)) (pod_Name pod); get = OvGetChild (om_Namespace (wc_Meta wc), name)
     in (\<exists>h0 h1 c. evs = h0 @ get # h1 \<and> o_getchild S (base @ h0 @ [get]) = Inr c) \<or>
        (\<exists>c. o_setref S wc (buildChild wc pod name) = Inr c \<and> OvCreate c \<in> set evs))"

lemma handled_later: "handled S wc pod base evs \<Longrightarrow> handled S wc pod base (evs @ later)"
  unfolding handled_def Let_def by (elim disjE exE conjE) (simp_all, blast)

lemma handled_earlier: "handled S wc pod (base @ pre) evs \<Longrightarrow> handled S wc pod base (pre @ evs)"
proof -
  let ?get = "OvGetChild (om_Namespace (wc_Meta wc), childName (om_Name (wc_Meta wc)) (pod_Name pod))"
  assume h: "handled S wc pod (base @ pre) evs"
  show ?thesis
  proof (cases "\<exists>h0 h1 c. evs = h0 @ ?get # h1 \<and> o_getchild S ((base @ pre) @ h0 @ [?get]) = Inr c")
    case True
    then obtain h0 h1 c where "evs = h0 @ ?get # h1" "o_getchild S ((base @ pre) @ h0 @ [?get]) = Inr c" by blast
    then have "pre @ evs = (pre @ h0) @ ?get # h1 \<and> o_getchild S (base @ (pre @ h0) @ [?get]) = Inr c" by simp
    then show ?thesis unfolding handled_def Let_def by blast
  next
    case False
    with h show ?thesis unfolding handled_def Let_def by auto
  qed
qed

lemma ensure_children_grows:
  "run_state (ensure_children S wc pods i) w = (r, w') \<Longrightarrow> \<exists>evs. ow_hist w' = ow_hist w @ evs"
proof (induction pods arbitrary: i w)
  case (Cons q qs)
  from Cons.prems refl refl show ?case by (cases rule: ensure_children_cases) (auto dest!: Cons.IH)
qed simp

lemma ensure_children_complete:
  assumes "run_state (ensure_children S wc pods i) w = (None, w')" and "sint (ws_MaxConcurrent (wc_Spec wc)) \<le> 0"
    and "ow_hist w' = ow_hist w @ evs" and "pod \<in> set pods"
  shows "handled S wc pod (ow_hist w) evs"
  using assms
proof (induction pods arbitrary: i w evs)
  case (Cons p pods)
  let ?n = "childName (om_Name (wc_Meta wc)) (pod_Name p)"
  let ?g = "OvGetChild (om_Namespace (wc_Meta wc), ?n)"
  have rest: "handled S wc pod (ow_hist w) evs"
    if run: "run_state (ensure_children S wc pods j) v = (None, w')" and v: "ow_hist v = ow_hist w @ pre"
      and head: "pod = p \<Longrightarrow> handled S wc pod (ow_hist w) pre" for j v pre
  proof -
    obtain later where later: "ow_hist w' = ow_hist v @ later" using ensure_children_grows [OF run] by blast
    then have evs: "evs = pre @ later" using v Cons.prems(3) by simp
    show ?thesis
    proof (cases "pod = p")
      case True
      then show ?thesis unfolding evs by (rule handled_later [OF head])
    next
      case False
      with Cons.prems(4) have "handled S wc pod (ow_hist v) later"
        using Cons.IH [OF run Cons.prems(2) later] by simp
      then show ?thesis unfolding evs v by (rule handled_earlier)
    qed
  qed
  from Cons.prems(1) refl refl show ?case
  proof (cases rule: ensure_children_cases)
    case (exists c)
    show ?thesis
      by (rule rest [OF exists(2), of "[?g]"]) (use exists(1) in \<open>auto simp: handled_def Let_def intro!: exI [of _ "[]"]\<close>)
  next
    case (created c)
    show ?thesis
      by (rule rest [OF created(4), of "[?g, OvCreate c]"]) (use created(1) in \<open>auto simp: handled_def Let_def\<close>)
  qed (use Cons.prems(2) in auto)
qed simp

subsection \<open>Properties\<close>

text \<open>An API server for examples: one WorkloadCheckpoint over two Pods without children.\<close>

definition gpu_pod :: "string \<Rightarrow> string \<Rightarrow> Pod" where
  "gpu_pod name node = \<lparr>pod_Name = name, pod_Namespace = ''ml'', pod_UID = name, pod_NodeName = node, pod_Labels = [],
     pod_Containers = [\<lparr>ct_Name = ''main'', ct_Limits = [(''nvidia.com/gpu'', 1)], ct_Requests = []\<rparr>],
     pod_Phase = ''Running'', pod_DeletionTimestamp = None\<rparr>"

definition some_wc :: WorkloadCheckpoint where
  "some_wc = \<lparr>
     wc_Meta = \<lparr>om_Name = ''wc'', om_Namespace = ''ml'', om_Labels = [], om_UID = [], om_Controller = None\<rparr>,
     wc_Spec = \<lparr>ws_WorkloadRef = \<lparr>tr_Kind = ''Deployment'', tr_Namespace = ''ml'', tr_Name = ''train'', tr_Container = []\<rparr>,
       ws_Action = ''Checkpoint'', ws_Storage = empty_storage\<lparr>ss_Type := ''hostPath'', ss_Path := ''/ckpt''\<rparr>,
       ws_PodSelector = None, ws_Coordination = ''None'', ws_Schedule = [], ws_Incremental = False,
       ws_RequireGPU = None, ws_MaxConcurrent = 0\<rparr>,
     wc_Status = \<lparr>wt_Phase = [], wt_ObservedWorkloadKind = [], wt_Total = 0, wt_Active = 0, wt_Completed = 0, wt_Failed = 0,
       wt_Targets = [], wt_StartTime = None, wt_CompletionTime = None, wt_Message = [], wt_Conditions = []\<rparr>\<rparr>"

definition limited_wc :: WorkloadCheckpoint where
  "limited_wc = some_wc\<lparr>wc_Spec := (wc_Spec some_wc)\<lparr>ws_MaxConcurrent := 1\<rparr>\<rparr>"

definition some_server :: oenv where
  "some_server = \<lparr>
     o_getwc = (\<lambda>h. Inr some_wc), o_getpod = (\<lambda>h. Inl (NotFound [])), o_getowner = (\<lambda>h. Inr None),
     o_listpods = (\<lambda>h. Inr [gpu_pod ''a'' ''n1'', gpu_pod ''b'' ''n2'']),
     o_getchild = (\<lambda>h. Inl (NotFound [])), o_create = (\<lambda>h. None), o_listchildren = (\<lambda>h. Inr []),
     o_update = (\<lambda>h. case last h of OvUpdateWC wc \<Rightarrow> Inr wc | _ \<Rightarrow> Inl (ApiError [])),
     o_elapsed = (\<lambda>h. 1), o_valid = (\<lambda>ls. ls_MatchExpressions ls = []), o_matches = (\<lambda>s ls. False),
     o_setref = (\<lambda>wc c. Inr (c\<lparr>gc_Meta := (gc_Meta c)\<lparr>om_Controller := Some (om_Name (wc_Meta wc))\<rparr>\<rparr>))\<rparr>"

lemma some_server_simps:
  "o_getchild some_server = (\<lambda>h. Inl (NotFound []))" "o_create some_server = (\<lambda>h. None)"
  "o_setref some_server wc c = Inr (c\<lparr>gc_Meta := (gc_Meta c)\<lparr>om_Controller := Some (om_Name (wc_Meta wc))\<rparr>\<rparr>)"
  by (simp_all add: some_server_def)

definition start_world :: oworld where
  "start_world = \<lparr>ow_hist = [], ow_now = 0\<rparr>"

text \<open>C23: \<^verbatim>\<open>filterPods\<close> keeps, in order, exactly the Pods that run, are not being deleted, match the
  Pod selector when there is a valid one, and have a container with a non-zero GPU limit or
  request unless GPUs are not required. In particular an invalid Pod selector is not an
  error but selects everything.\<close>

theorem filterPods_exact:
  "filterPods S ps wc = filter (\<lambda>p.
      pod_Phase p = PodRunning \<and> pod_DeletionTimestamp p = None \<and>
      (case ws_PodSelector (wc_Spec wc) of None \<Rightarrow> True
       | Some ls \<Rightarrow> if o_valid S ls then o_matches S (SelLabels ls) (pod_Labels p) else True) \<and>
      (if ws_RequireGPU (wc_Spec wc) = Some False then True
       else \<exists>c\<in>set (pod_Containers p). \<exists>v. v \<noteq> 0 \<and>
         (map_of (ct_Limits c) gpuResource = Some v \<or> map_of (ct_Requests c) gpuResource = Some v))) ps"
  unfolding filterPods_filter keeps_pod_def podRequestsGPU_iff
  by (rule filter_cong) (auto split: option.splits)

text \<open>C19: The counters of the aggregated status are exact for fewer than \<open>2 ^ 31\<close> Pods: total, completed,
  failed and active count the Pods by the phase of their child (a missing child counts as
  active) and add up; the phase is Completed when all are completed, PartiallyFailed or
  Failed when all are terminal and some or all failed, InProgress otherwise. The completion
  time is set only when all completed: a workload that ends Failed or PartiallyFailed
  gets none.\<close>

theorem aggregate_exact:
  assumes "length pods < 2 ^ 31"
    and "st' = aggregate_status st (tally_pods parent byName pods zero_tally) t"
    and "c = n_with completed_child parent byName pods" and "f = n_with failed_child parent byName pods"
  shows "unat (wt_Total st') = length pods \<and> unat (wt_Completed st') = c \<and> unat (wt_Failed st') = f \<and>
    unat (wt_Active st') = length pods - c - f \<and> c + f \<le> length pods \<and>
    wt_Phase st' = phase_of c f (length pods) \<and>
    wt_CompletionTime st' = (if c = length pods \<and> wt_CompletionTime st = None then Some t else wt_CompletionTime st)"
proof -
  let ?T = "tally_pods parent byName pods zero_tally" and ?a = "n_with active_child parent byName pods"
  have sum: "c + f + ?a = length pods" using n_with_sum [of parent byName pods] assms(3,4) by simp
  have T: "ta_total ?T = word_of_nat (length pods)" "ta_done ?T = word_of_nat c" "ta_failed ?T = word_of_nat f"
    "ta_active ?T = word_of_nat ?a"
    using assms(3,4) by (simp_all add: tally_pods_counts zero_tally_def)
  have "unat (ta_total ?T) = length pods \<and> unat (ta_done ?T) = c \<and> unat (ta_failed ?T) = f \<and> unat (ta_active ?T) = ?a"
    unfolding T using assms(1) sum int32_unat by auto
  with aggregate_phase [OF sum assms(1) T(1-3), of st t] sum assms(2) show ?thesis
    by (auto simp: aggregate_counts)
qed

theorem aggregate_exact_witness:
  "wt_Phase (aggregate_status (wc_Status some_wc) (tally_pods ''wc'' Map.empty [gpu_pod ''a'' ''n1''] zero_tally) 5) = WCPhaseInProgress"
proof -
  have "n_with completed_child ''wc'' Map.empty [gpu_pod ''a'' ''n1''] = 0" "n_with failed_child ''wc'' Map.empty [gpu_pod ''a'' ''n1''] = 0"
    by (simp_all add: n_with_def child_phase_def)
  with aggregate_exact [of "[gpu_pod ''a'' ''n1'']" _ "wc_Status some_wc" "''wc''" Map.empty 5, OF _ refl refl refl]
  show ?thesis by (simp add: phase_of_def)
qed

text \<open>C24: One pass of the fan-out creates at most \<^verbatim>\<open>MaxConcurrent\<close> children when a limit is set.\<close>

theorem fanout_limited:
  assumes "run_state (ensure_children S wc pods 0) w = (r, w')" and "0 < sint (ws_MaxConcurrent (wc_Spec wc))"
    and "length pods < 2 ^ 31"
  shows "\<exists>evs. ow_hist w' = ow_hist w @ evs \<and> int (length (creates evs)) \<le> sint (ws_MaxConcurrent (wc_Spec wc))"
proof -
  let ?m = "nat (sint (ws_MaxConcurrent (wc_Spec wc)))"
  have "sint (ws_MaxConcurrent (wc_Spec wc)) = int ?m" "0 < ?m" using assms(2) by simp_all
  from ensure_children_bound [OF assms(1) this, of 0] assms(2,3) show ?thesis by auto
qed

theorem fanout_limited_witness:
  "\<exists>evs. ow_hist (snd (run_state (ensure_children some_server limited_wc [gpu_pod ''a'' ''n1'', gpu_pod ''b'' ''n2''] 0) start_world))
    = ow_hist start_world @ evs \<and> int (length (creates evs)) \<le> 1"
  using fanout_limited [OF surjective_pairing, where S = some_server and wc = limited_wc
      and pods = "[gpu_pod ''a'' ''n1'', gpu_pod ''b'' ''n2'']" and w = start_world]
  by (simp add: limited_wc_def)

definition busy_server :: oenv where
  "busy_server = some_server\<lparr>o_getchild := (\<lambda>h. case last h of
     OvGetChild (ns, n) \<Rightarrow> if n = ''wc-b'' then Inr (buildChild some_wc (gpu_pod ''b'' ''n2'') n) else Inl (NotFound [])
   | _ \<Rightarrow> Inl (NotFound []))\<rparr>"


text \<open>Without a limit a fan-out pass that returns without an error has handled every Pod: its child was
  found, or a child built for it was created.\<close>

theorem fanout_complete:
  assumes "run_state (ensure_children S wc pods 0) w = (None, w')" and "sint (ws_MaxConcurrent (wc_Spec wc)) \<le> 0"
  shows "\<exists>evs. ow_hist w' = ow_hist w @ evs \<and> list_all (\<lambda>pod. handled S wc pod (ow_hist w) evs) pods"
proof -
  obtain evs where "ow_hist w' = ow_hist w @ evs" using ensure_children_grows [OF assms(1)] by blast
  with ensure_children_complete [OF assms] show ?thesis by (auto simp: list_all_iff)
qed

theorem fanout_complete_witness:
  "\<exists>evs. list_all (\<lambda>pod. handled some_server some_wc pod [] evs) [gpu_pod ''a'' ''n1'', gpu_pod ''b'' ''n2'']"
proof -
  have n: "sint (ws_MaxConcurrent (wc_Spec some_wc)) \<le> 0" by (simp add: some_wc_def)
  obtain w' where "run_state (ensure_children some_server some_wc [gpu_pod ''a'' ''n1'', gpu_pod ''b'' ''n2''] 0) start_world = (None, w')"
    using n by (simp add: some_server_simps Let_def)
  from fanout_complete [OF this n] show ?thesis by (auto simp: start_world_def)
qed

text \<open>A restore request is refused: its status is set to Failed with a completion time, and no Pod
  is looked up and no child touched.\<close>

theorem restore_refused:
  assumes "o_getwc S (ow_hist w @ [OvGetWC req]) = Inr wc" and "ws_Action (wc_Spec wc) = ActionRestore"
  shows "\<exists>wc'. ow_hist (snd (run_state (WC_Reconcile S req) w)) = ow_hist w @ [OvGetWC req, OvUpdateWC wc'] \<and>
    wt_Phase (wc_Status wc') = WCPhaseFailed \<and> wt_CompletionTime (wc_Status wc') \<noteq> None \<and> wc_Spec wc' = wc_Spec wc \<and>
    RequeueAfter (fst (fst (run_state (WC_Reconcile S req) w))) = 0"
  using assms by (auto simp: WC_Reconcile_def finish_def update_wc_def Let_def)

theorem restore_refused_witness:
  "\<exists>wc'. ow_hist (snd (run_state (WC_Reconcile
      (some_server\<lparr>o_getwc := \<lambda>h. Inr (some_wc\<lparr>wc_Spec := (wc_Spec some_wc)\<lparr>ws_Action := ''Restore''\<rparr>\<rparr>)\<rparr>) (''ml'', ''wc'')) start_world))
    = [OvGetWC (''ml'', ''wc''), OvUpdateWC wc'] \<and> wt_Phase (wc_Status wc') = WCPhaseFailed"
proof -
  let ?wc = "some_wc\<lparr>wc_Spec := (wc_Spec some_wc)\<lparr>ws_Action := ''Restore''\<rparr>\<rparr>"
  from restore_refused [of "some_server\<lparr>o_getwc := \<lambda>h. Inr ?wc\<rparr>" start_world "(''ml'', ''wc'')" ?wc]
  show ?thesis by (auto simp: start_world_def ActionRestore_def)
qed

text \<open>Child names are usable and, for one parent, tell its Pods apart: with a parent name of at most 240
  bytes a child name has at most 253, and two Pods with short names and the same child are the
  same Pod.\<close>

theorem childName_ok:
  assumes "length parent \<le> 240"
  shows "length (childName parent p) \<le> 253 \<and>
    (length parent + length p < 253 \<and> length parent + length q < 253 \<and> childName parent p = childName parent q \<longrightarrow> p = q)"
  using childName_length [OF assms] childName_inj_short by blast

theorem childName_ok_witness:
  "length (childName ''wc'' (replicate 300 (CHR ''x''))) \<le> 253"
  using childName_ok [of "''wc''" "replicate 300 (CHR ''x'')"] by simp

text \<open>Different WorkloadCheckpoints of one namespace can claim the same child name: the name does not tell
  where the parent's part ends. A parent name of more than 240 bytes also breaks the length
  limit.\<close>

theorem childName_clash:
  "childName ''a'' ''b-c'' = childName ''a-b'' ''c'' \<and>
   length (childName (replicate 250 (CHR ''x'')) ''pod'') = 263"
  by (simp add: childName_def)

end
