(* ===== verification/Orch_Main.thy ===== *)
theory Orch_Main
  imports Orchestrator Startup
begin

text \<open>
  \<^verbatim>\<open>orchestrator/cmd/main.go\<close>: the start of the workload orchestrator, and \<^verbatim>\<open>SetupWithManager\<close> of its
  reconciler. Every failure after the flags are parsed logs and exits with status 1.
\<close>

record orch_settings =
  og_metricsAddr :: string
  og_probeAddr :: string
  og_leaderElect :: bool

definition orch_flags :: "process \<Rightarrow> flag_set" where
  "orch_flags P = ps_logflags P ++ map_of [
     (''metrics-bind-address'', string_flag), (''health-probe-bind-address'', string_flag), (''leader-elect'', bool_flag)]"

definition orch_settings_of :: "(string \<times> string) list \<Rightarrow> orch_settings" where
  "orch_settings_of asg = \<lparr>
     og_metricsAddr = flag_string asg ''metrics-bind-address'' '':8080'',
     og_probeAddr = flag_string asg ''health-probe-bind-address'' '':8081'',
     og_leaderElect = flag_bool asg ''leader-elect'' True\<rparr>"

definition orch_scheme :: "process \<Rightarrow> scheme" where
  "orch_scheme P = wc_AddToScheme (gpu_AddToScheme (ps_clientgo P))"

definition WC_SetupWithManager :: "process \<Rightarrow> manager_options \<Rightarrow> string + controller_spec" where
  "WC_SetupWithManager P mgr = (
     let c = \<lparr>cs_For = in_group ''WorkloadCheckpoint'', cs_Owns = [in_group ''GPUCheckpoint''], cs_Predicates = []\<rparr>
     in case ps_complete P mgr c of Some err \<Rightarrow> Inl err | None \<Rightarrow> Inr c)"

text \<open>The end of the process, and the manager and controller if they were started.\<close>

definition orch_main :: "process \<Rightarrow> exit_status option \<times> (manager_options \<times> controller_spec) option" where
  "orch_main P =
    (case parse_flags (orch_flags P) P of
       Inl ex \<Rightarrow> (Some ex, None)
     | Inr asg \<Rightarrow>
         let s = orch_settings_of asg
         in (case ps_config P of
           Some err \<Rightarrow> (Some (Exit 1 err), None)
         | None \<Rightarrow>
             let mgr = \<lparr>mg_Scheme = orch_scheme P, mg_MetricsBindAddress = og_metricsAddr s,
               mg_HealthProbeBindAddress = og_probeAddr s, mg_LeaderElection = og_leaderElect s,
               mg_LeaderElectionID = ''workload-checkpoint.gpu-cr.io''\<rparr>
             in (case ps_newmgr P mgr of
               Some err \<Rightarrow> (Some (Exit 1 (''unable to create manager: '' @ err)), None)
             | None \<Rightarrow> (case WC_SetupWithManager P mgr of
                 Inl err \<Rightarrow> (Some (Exit 1 (''unable to set up WorkloadCheckpoint controller: '' @ err)), None)
               | Inr c \<Rightarrow> (case ps_start P of
                   Some err \<Rightarrow> (Some (Exit 1 (''manager exited: '' @ err)), Some (mgr, c))
                 | None \<Rightarrow> (None, Some (mgr, c)))))))"

text \<open>A boolean flag ends up as the last value given.\<close>

lemma flag_bool_last: "flag_bool (asg @ [(n, v)]) n d = (ParseBool v = Some True)"
  by (simp add: flag_bool_def flag_value_def)

subsection \<open>Properties\<close>

text \<open>An orchestrator that started runs one controller, for WorkloadCheckpoints, that is woken by changes
  of the GPUCheckpoint children it owns; the manager's scheme knows every kind the controller
  watches, reads or creates; and only one replica is active unless leader election was
  switched off on the command line.\<close>

theorem orch_started:
  assumes "orch_main P = (ex, Some (mgr, c))"
  shows "cs_For c = in_group ''WorkloadCheckpoint'' \<and> cs_Owns c = [in_group ''GPUCheckpoint''] \<and>
    set (cs_For c # cs_Owns c @ map in_group [''GPUCheckpointList'', ''WorkloadCheckpointList'']) \<subseteq> set (mg_Scheme mgr) \<and>
    (\<exists>asg. parse_flags (orch_flags P) P = Inr asg \<and>
      (mg_LeaderElection mgr \<or> (\<exists>v. (''leader-elect'', v) \<in> set asg \<and> ParseBool v = Some False)))"
proof -
  from assms obtain asg where asg: "parse_flags (orch_flags P) P = Inr asg"
    by (auto simp: orch_main_def split: sum.splits)
  have mgr: "mg_Scheme mgr = orch_scheme P" "mg_LeaderElection mgr = flag_bool asg ''leader-elect'' True"
    "cs_For c = in_group ''WorkloadCheckpoint''" "cs_Owns c = [in_group ''GPUCheckpoint'']"
    using assms asg by (auto simp: orch_main_def orch_settings_of_def WC_SetupWithManager_def Let_def
        split: option.splits sum.splits)
  have "\<exists>v. (''leader-elect'', v) \<in> set asg \<and> ParseBool v = Some False" if "\<not> mg_LeaderElection mgr"
  proof -
    note off = that
    obtain v where v: "flag_value asg ''leader-elect'' = Some v" "ParseBool v \<noteq> Some True"
      using off mgr(2) by (auto simp: flag_bool_def split: option.splits)
    obtain rest where parsed: "parse_args (orch_flags P) (ps_args P) [] = Parsed asg rest"
      using asg by (auto simp: parse_flags_def split: parsed.splits)
    have flag: "orch_flags P ''leader-elect'' = Some bool_flag" by (simp add: orch_flags_def)
    from flag_value_checked [OF parsed v(1)] flag have "ParseBool v \<noteq> None"
      by (auto simp: bool_flag_def split: option.splits)
    moreover have "(''leader-elect'', v) \<in> set asg" using map_of_SomeD [OF v(1) [unfolded flag_value_def]] by simp
    ultimately show ?thesis using v(2) by (intro exI [of _ v]) auto
  qed
  then show ?thesis using asg mgr by (auto simp: orch_scheme_def wc_AddToScheme_def gpu_AddToScheme_def)
qed

theorem orch_started_witness:
  "\<exists>mgr c. orch_main plain_process = (None, Some (mgr, c)) \<and> mg_LeaderElection mgr"
proof -
  have p: "parse_flags (orch_flags plain_process) plain_process = Inr []"
    by (simp add: parse_flags_none plain_process_def)
  then obtain mgr c where run: "orch_main plain_process = (None, Some (mgr, c))"
    by (simp add: orch_main_def WC_SetupWithManager_def plain_process_def orch_scheme_def wc_AddToScheme_def Let_def)
  from orch_started [OF run] p run show ?thesis by auto
qed

end
