(* ===== verification/Orch_Reconcile.thy ===== *)
theory Orch_Reconcile
  imports Orchestrator
begin

text \<open>
  Whole passes of the orchestrator's \<^verbatim>\<open>Reconcile\<close>: what a pass that reaches the end reports and when
  it asks to be called again, and how passes end that find no Pods.
\<close>

text \<open>The API server stores a status as it was sent, and does not touch the spec.\<close>

definition wc_echoes :: "oenv \<Rightarrow> bool" where
  "wc_echoes S \<longleftrightarrow> (\<forall>h wc wc'. o_update S (h @ [OvUpdateWC wc]) = Inr wc' \<longrightarrow>
    wc_Spec wc' = wc_Spec wc \<and> wt_Active (wc_Status wc') = wt_Active (wc_Status wc))"

text \<open>The resource as a pass fans it out.\<close>

definition resolving :: "WorkloadCheckpoint \<Rightarrow> string \<Rightarrow> go_time \<Rightarrow> WorkloadCheckpoint" where
  "resolving wc kind t =
    wc\<lparr>wc_Status := mark_resolving ((wc_Status wc)\<lparr>wt_ObservedWorkloadKind := kind\<rparr>) t\<rparr>"

lemma resolving_simps [simp]:
  "wc_Spec (resolving wc kind t) = wc_Spec wc" "wc_Meta (resolving wc kind t) = wc_Meta wc"
  by (simp_all add: resolving_def)

definition own_children :: "WorkloadCheckpoint \<Rightarrow> oevent" where
  "own_children wc = OvListChildren (om_Namespace (wc_Meta wc)) (om_Name (wc_Meta wc))"

definition summed_up :: "WorkloadCheckpoint \<Rightarrow> GPUCheckpoint list \<Rightarrow> Pod list \<Rightarrow> go_time \<Rightarrow> WorkloadCheckpoint" where
  "summed_up wc children pods t = wc\<lparr>wc_Status := aggregate_status (wc_Status wc)
     (tally_pods (om_Name (wc_Meta wc)) (by_name children) pods zero_tally) t\<rparr>"

lemma run_aggregate:
  "run_state (aggregate S wc pods) w =
    (let w1 = after_ocall S (own_children wc) w
     in case o_listchildren S (ow_hist w1) of
          Inl err \<Rightarrow> ((Some err, wc), w1)
        | Inr children \<Rightarrow> run_state (update_wc S (summed_up wc children pods (ow_now w1))) w1)"
  by (auto simp: aggregate_def own_children_def summed_up_def Let_def split: sum.splits)

definition poll_again :: "WorkloadCheckpoint \<Rightarrow> ctrl_Result" where
  "poll_again wc =
    (if ws_Schedule (wc_Spec wc) \<noteq> [] then requeue_after resolveInterval
     else if 0 < sint (wt_Active (wc_Status wc)) then requeue_after activePollInterval
     else no_requeue)"

lemma run_WC_Reconcile:
  assumes "o_getwc S (ow_hist w @ [OvGetWC req]) = Inr wc" and "ws_Action (wc_Spec wc) \<noteq> ActionRestore"
    and "run_state (resolvePods S wc) (after_ocall S (OvGetWC req) w) = ((Inr pods, kind), w1)" and "pods \<noteq> []"
  shows "run_state (WC_Reconcile S req) w =
    (case run_state (ensure_children S (resolving wc kind (ow_now w1)) pods 0) w1 of
       (Some err, w2) \<Rightarrow> ((no_requeue, Some err), w2)
     | (None, w2) \<Rightarrow> (case run_state (aggregate S (resolving wc kind (ow_now w1)) pods) w2 of
         ((Some err, _), w3) \<Rightarrow> ((no_requeue, Some (ApiErr err)), w3)
       | ((None, wc'), w3) \<Rightarrow> ((poll_again wc', None), w3)))"
  using assms
  by (auto simp: WC_Reconcile_def resolving_def poll_again_def applyBarrier_def Let_def split: option.splits prod.splits)

lemma WC_Reconcile_ok:
  assumes "o_getwc S (ow_hist w @ [OvGetWC req]) = Inr wc" and "ws_Action (wc_Spec wc) \<noteq> ActionRestore"
    and "run_state (resolvePods S wc) (after_ocall S (OvGetWC req) w) = ((Inr pods, kind), w1)" and "pods \<noteq> []"
    and "run_state (WC_Reconcile S req) w = ((res, None), w')"
  obtains w2 children wc' wc'' where
    "run_state (ensure_children S (resolving wc kind (ow_now w1)) pods 0) w1 = (None, w2)"
    and "o_listchildren S (ow_hist w2 @ [own_children wc]) = Inr children"
    and "wc' = summed_up (resolving wc kind (ow_now w1)) children pods (ow_now (after_ocall S (own_children wc) w2))"
    and "ow_hist w' = ow_hist w2 @ [own_children wc, OvUpdateWC wc']"
    and "o_update S (ow_hist w') = Inr wc''" and "res = poll_again wc''"
proof -
  let ?wc = "resolving wc kind (ow_now w1)"
  note run = assms(5) [unfolded run_WC_Reconcile [OF assms(1-4)]]
  obtain e w2 where e: "run_state (ensure_children S ?wc pods 0) w1 = (e, w2)" by fastforce
  have None: "e = None" using run e by (cases e) auto
  have own: "own_children ?wc = own_children wc" by (simp add: own_children_def)
  obtain a w3 where a: "run_state (aggregate S ?wc pods) w2 = (a, w3)" by fastforce
  have "fst a = None" using run e None a by (cases a; cases "fst a") auto
  with run e None a have res: "res = poll_again (snd a)" "w3 = w'" by (cases a, auto)+
  let ?w = "after_ocall S (own_children wc) w2"
  obtain children where ch: "o_listchildren S (ow_hist ?w) = Inr children"
    using a \<open>fst a = None\<close> by (cases "o_listchildren S (ow_hist ?w)") (auto simp: run_aggregate own Let_def)
  with a have upd: "run_state (update_wc S (summed_up ?wc children pods (ow_now ?w))) ?w = (a, w3)"
    by (simp add: run_aggregate own Let_def)
  show ?thesis
  proof (rule that [OF e [unfolded None] _ refl])
    show "o_listchildren S (ow_hist w2 @ [own_children wc]) = Inr children" using ch by simp
    show "ow_hist w' = ow_hist w2 @ [own_children wc, OvUpdateWC (summed_up ?wc children pods (ow_now ?w))]"
      using upd res(2) by (auto simp: update_wc_def split: sum.splits)
    show "o_update S (ow_hist w') = Inr (snd a)"
      using upd res(2) \<open>fst a = None\<close> by (auto simp: update_wc_def split: sum.splits)
    show "res = poll_again (snd a)" by (rule res)
  qed
qed

subsection \<open>Properties\<close>

text \<open>C20: A pass of the orchestrator that ends without an error has gone through the fan-out, listed the
  children once and reported them: its last call writes the phase and counters that the
  children it saw make exact. It asks to be called again in 30 seconds for a scheduled
  workload, in 15 seconds as long as some Pod's child is not terminal (or missing), and not at
  all otherwise: a one-shot workload is polled until, and only until, every Pod is done.\<close>

theorem WC_pass:
  assumes "o_getwc S (ow_hist w @ [OvGetWC req]) = Inr wc" and "ws_Action (wc_Spec wc) \<noteq> ActionRestore"
    and "run_state (resolvePods S wc) (after_ocall S (OvGetWC req) w) = ((Inr pods, kind), w1)" and "pods \<noteq> []"
    and "length pods < 2 ^ 31" and "wc_echoes S"
    and "run_state (WC_Reconcile S req) w = ((res, None), w')"
  shows "\<exists>h children wc'. fst (run_state (ensure_children S (resolving wc kind (ow_now w1)) pods 0) w1) = None \<and>
    o_listchildren S (h @ [own_children wc]) = Inr children \<and>
    ow_hist w' = h @ [own_children wc, OvUpdateWC wc'] \<and>
    (let c = n_with completed_child (om_Name (wc_Meta wc)) (by_name children) pods;
         f = n_with failed_child (om_Name (wc_Meta wc)) (by_name children) pods
     in wt_Phase (wc_Status wc') = phase_of c f (length pods) \<and>
        unat (wt_Completed (wc_Status wc')) = c \<and> unat (wt_Failed (wc_Status wc')) = f \<and>
        RequeueAfter res = (if ws_Schedule (wc_Spec wc) \<noteq> [] then 30 * second
          else if c + f < length pods then 15 * second else 0))"
proof -
  obtain w2 children wc' wc'' where ok: "run_state (ensure_children S (resolving wc kind (ow_now w1)) pods 0) w1 = (None, w2)"
    "o_listchildren S (ow_hist w2 @ [own_children wc]) = Inr children"
    "wc' = summed_up (resolving wc kind (ow_now w1)) children pods (ow_now (after_ocall S (own_children wc) w2))"
    "ow_hist w' = ow_hist w2 @ [own_children wc, OvUpdateWC wc']" "o_update S (ow_hist w') = Inr wc''" "res = poll_again wc''"
    by (rule WC_Reconcile_ok [OF assms(1-4,7)])
  let ?n = "om_Name (wc_Meta wc)"
  let ?T = "tally_pods ?n (by_name children) pods zero_tally"
  let ?c = "n_with completed_child ?n (by_name children) pods" and ?f = "n_with failed_child ?n (by_name children) pods"
  let ?a = "n_with active_child ?n (by_name children) pods"
  have sum: "?c + ?f + ?a = length pods" by (rule n_with_sum)
  have T: "ta_total ?T = word_of_nat (length pods)" "ta_done ?T = word_of_nat ?c" "ta_failed ?T = word_of_nat ?f"
    "ta_active ?T = word_of_nat ?a"
    by (simp_all add: tally_pods_counts zero_tally_def)
  have bound: "?c < 2 ^ 31" "?f < 2 ^ 31" "?a < 2 ^ 31" using sum assms(5) by linarith+
  have st: "wc_Status wc' = aggregate_status (wc_Status (resolving wc kind (ow_now w1))) ?T (ow_now (after_ocall S (own_children wc) w2))"
    by (simp add: ok(3) summed_up_def)
  have "wc_Spec wc'' = wc_Spec wc' \<and> wt_Active (wc_Status wc'') = wt_Active (wc_Status wc')"
    using assms(6) ok(4,5) unfolding wc_echoes_def by (metis append.assoc append_Cons append_Nil)
  then have "RequeueAfter res = (if ws_Schedule (wc_Spec wc) \<noteq> [] then 30 * second else if 0 < ?a then 15 * second else 0)"
    using int32_sint [OF bound(3)] by (simp add: ok(6) poll_again_def st aggregate_counts T ok(3) [THEN arg_cong, of wc_Spec]
        summed_up_def resolveInterval_def activePollInterval_def)
  moreover have "0 < ?a \<longleftrightarrow> ?c + ?f < length pods" using sum by linarith
  ultimately have "let c = ?c; f = ?f
     in wt_Phase (wc_Status wc') = phase_of c f (length pods) \<and>
        unat (wt_Completed (wc_Status wc')) = c \<and> unat (wt_Failed (wc_Status wc')) = f \<and>
        RequeueAfter res = (if ws_Schedule (wc_Spec wc) \<noteq> [] then 30 * second
          else if c + f < length pods then 15 * second else 0)"
    using aggregate_phase(1) [OF sum assms(5) T(1-3)] int32_unat [OF bound(1)] int32_unat [OF bound(2)]
    by (simp add: st aggregate_counts T Let_def)
  moreover have "fst (run_state (ensure_children S (resolving wc kind (ow_now w1)) pods 0) w1) = None"
    by (simp add: ok(1))
  ultimately show ?thesis using ok(2,4) by blast
qed

text \<open>C38: A pass that cannot resolve the workload, be it for a passing error of the API server, or that finds
  no Pod to checkpoint, gives up: it reports Failed whatever was reported before, even
  Completed, touches no child, returns no error and does not ask to be called again, also
  when the workload has a schedule.\<close>

theorem WC_gives_up:
  assumes "o_getwc S (ow_hist w @ [OvGetWC req]) = Inr wc" and "ws_Action (wc_Spec wc) \<noteq> ActionRestore"
    and "run_state (resolvePods S wc) (after_ocall S (OvGetWC req) w) = ((r, kind), w1)" and "r = Inr [] \<or> isl r"
    and "run_state (WC_Reconcile S req) w = ((res, err), w')"
  shows "\<exists>wc'. ow_hist w' = ow_hist w1 @ [OvUpdateWC wc'] \<and> wt_Phase (wc_Status wc') = WCPhaseFailed \<and>
    wt_CompletionTime (wc_Status wc') \<noteq> None \<and> RequeueAfter res = 0 \<and>
    err = (case o_update S (ow_hist w') of Inl e \<Rightarrow> Some (ApiErr e) | Inr stored \<Rightarrow> None)"
  using assms
  by (cases r) (auto simp: WC_Reconcile_def finish_def update_wc_def Let_def split: sum.splits)

lemma some_pods_resolve:
  "run_state (resolvePods some_server some_wc) w =
    ((Inr [gpu_pod ''a'' ''n1'', gpu_pod ''b'' ''n2''], ''Deployment''),
     after_ocall some_server (OvListPods ''ml'' (Some SelNothing)) (after_ocall some_server (OvGetOwner ''Deployment'' (''ml'', ''train'')) w))"
proof -
  have "filterPods some_server [gpu_pod ''a'' ''n1'', gpu_pod ''b'' ''n2''] some_wc = [gpu_pod ''a'' ''n1'', gpu_pod ''b'' ''n2'']"
    by (simp add: filterPods_filter keeps_pod_def gpu_pod_def some_wc_def PodRunning_def podRequestsGPU_def gpuResource_def)
  then show ?thesis
    by (simp add: resolvePods_def list_pods_def as_selector_def some_server_def some_wc_def Let_def)
qed

lemma some_children:
  "sint (ws_MaxConcurrent (wc_Spec wc)) \<le> 0 \<Longrightarrow> fst (run_state (ensure_children some_server wc pods i) w) = None"
  by (induction pods arbitrary: i w) (simp_all add: some_server_simps Let_def)

lemma some_update: "run_state (update_wc some_server wc) w = ((None, wc), after_ocall some_server (OvUpdateWC wc) w)"
  by (simp add: update_wc_def) (simp add: some_server_def)

lemma some_children_listed: "o_listchildren some_server h = Inr []"
  by (simp add: some_server_def)

lemma some_server_echoes: "wc_echoes some_server"
  by (simp add: wc_echoes_def some_server_def)

theorem WC_pass_witness:
  "RequeueAfter (fst (fst (run_state (WC_Reconcile some_server (''ml'', ''wc'')) start_world))) = 15 * second"
proof -
  let ?w = "start_world" and ?pods = "[gpu_pod ''a'' ''n1'', gpu_pod ''b'' ''n2'']"
  have g: "o_getwc some_server (ow_hist ?w @ [OvGetWC (''ml'', ''wc'')]) = Inr some_wc" by (simp add: some_server_def)
  have a: "ws_Action (wc_Spec some_wc) \<noteq> ActionRestore" by (simp add: some_wc_def ActionRestore_def)
  have none: "?pods \<noteq> []" by simp
  obtain w1 where found: "run_state (resolvePods some_server some_wc) (after_ocall some_server (OvGetWC (''ml'', ''wc'')) ?w)
      = ((Inr ?pods, ''Deployment''), w1)" using some_pods_resolve by blast
  have "fst (run_state (ensure_children some_server (resolving some_wc ''Deployment'' (ow_now w1)) ?pods 0) w1) = None"
    by (rule some_children) (simp add: some_wc_def)
  then obtain w2 where ens: "run_state (ensure_children some_server (resolving some_wc ''Deployment'' (ow_now w1)) ?pods 0) w1 = (None, w2)"
    by (metis prod.collapse)
  obtain res w' where run: "run_state (WC_Reconcile some_server (''ml'', ''wc'')) ?w = ((res, None), w')"
    unfolding run_WC_Reconcile [OF g a found none] ens by (simp add: run_aggregate some_children_listed some_update Let_def)
  have "n_with completed_child n (by_name []) ?pods = 0" "n_with failed_child n (by_name []) ?pods = 0" for n
    by (simp_all add: n_with_def child_phase_def by_name_def)
  moreover have "ws_Schedule (wc_Spec some_wc) = []" by (simp add: some_wc_def)
  ultimately show ?thesis
    using WC_pass [OF g a found none _ some_server_echoes run] run
    by (auto simp: Let_def some_children_listed)
qed

definition gone_server :: oenv where
  "gone_server = some_server\<lparr>o_getwc := (\<lambda>h. Inr (some_wc\<lparr>wc_Status := (wc_Status some_wc)\<lparr>wt_Phase := WCPhaseCompleted\<rparr>\<rparr>)),
     o_listpods := (\<lambda>h. Inr [])\<rparr>"

theorem WC_gives_up_witness:
  "\<exists>wc' evs. ow_hist (snd (run_state (WC_Reconcile gone_server (''ml'', ''wc'')) start_world)) = evs @ [OvUpdateWC wc'] \<and>
    wt_Phase (wc_Status wc') = WCPhaseFailed"
proof -
  let ?wc = "some_wc\<lparr>wc_Status := (wc_Status some_wc)\<lparr>wt_Phase := WCPhaseCompleted\<rparr>\<rparr>"
  have g: "o_getwc gone_server (ow_hist start_world @ [OvGetWC (''ml'', ''wc'')]) = Inr ?wc" by (simp add: gone_server_def)
  have a: "ws_Action (wc_Spec ?wc) \<noteq> ActionRestore" by (simp add: some_wc_def ActionRestore_def)
  obtain w1 where r: "run_state (resolvePods gone_server ?wc) (after_ocall gone_server (OvGetWC (''ml'', ''wc'')) start_world)
      = ((Inr [], ''Deployment''), w1)"
    by (simp add: resolvePods_def list_pods_def as_selector_def gone_server_def some_server_def some_wc_def filterPods_def Let_def)
  obtain res err w' where run: "run_state (WC_Reconcile gone_server (''ml'', ''wc'')) start_world = ((res, err), w')"
    by (metis prod.collapse)
  from WC_gives_up [OF g a r _ run] show ?thesis by (auto simp: run)
qed

end
