(* ===== verification/Go_Heap.thy ===== *)
theory Go_Heap
  imports Workload_Types
begin

text \<open>
  Go objects that hold pointers, for the deep copies of the API types. A heap maps addresses to
  cells; a cell is what one pointer, slice or map refers to. Addresses below \<open>lim\<close> are
  allocated. A struct is a value, so that \<^verbatim>\<open>*out = *in\<close> copies its pointers and shares what they
  point to. A nil pointer, slice or map is \<open>None\<close>, so nil and an empty slice differ.

  What a data type stands for is read off the heap into the same struct type with values in
  place of the pointers (the records are polymorphic in them). The contract of a deep copy is
  the locale \<open>deep_copier\<close>: the copy reads as the original, and consists of new cells only.
\<close>

type_synonym addr = nat

subsection \<open>The structs, with pointers\<close>

record TypeMeta =
  tm_Kind :: string
  tm_APIVersion :: string

record ('l, 'o) obj_meta =
  mo_Name :: string
  mo_Namespace :: string
  mo_UID :: string
  mo_Labels :: "'l option"
  mo_OwnerReferences :: "'o option"

record 'n list_meta =
  lm_ResourceVersion :: string
  lm_Continue :: string
  lm_RemainingItemCount :: "'n option"

record ('t, 'c) gpu_status =
  gst_Phase :: string
  gst_ObservedNode :: string
  gst_LastCheckpointTime :: "'t option"
  gst_CheckpointCount :: "64 word"
  gst_LastCheckpointPath :: string
  gst_Message :: string
  gst_Conditions :: "'c option"

record ('m, 's) gpu_object =
  go_TypeMeta :: TypeMeta
  go_ObjectMeta :: 'm
  go_Spec :: GPUCheckpointSpec
  go_Status :: 's

record ('m, 'i) gpu_list =
  gl_TypeMeta :: TypeMeta
  gl_ListMeta :: 'm
  gl_Items :: "'i option"

record ('p, 'b) wc_spec =
  wsp_WorkloadRef :: WorkloadTargetRef
  wsp_Action :: string
  wsp_Storage :: StorageSpec
  wsp_PodSelector :: "'p option"
  wsp_Coordination :: string
  wsp_Schedule :: string
  wsp_Incremental :: bool
  wsp_RequireGPU :: "'b option"
  wsp_MaxConcurrent :: "32 word"

record ('g, 't, 'c) wc_status =
  wst_Phase :: string
  wst_ObservedWorkloadKind :: string
  wst_Total :: "32 word"
  wst_Active :: "32 word"
  wst_Completed :: "32 word"
  wst_Failed :: "32 word"
  wst_Targets :: "'g option"
  wst_StartTime :: "'t option"
  wst_CompletionTime :: "'t option"
  wst_Message :: string
  wst_Conditions :: "'c option"

record ('m, 'p, 's) wc_object =
  wo_TypeMeta :: TypeMeta
  wo_ObjectMeta :: 'm
  wo_Spec :: 'p
  wo_Status :: 's

record ('m, 'i) wc_list =
  wl_TypeMeta :: TypeMeta
  wl_ListMeta :: 'm
  wl_Items :: "'i option"

text \<open>In memory every pointer is an address.\<close>

type_synonym mObjectMeta = "(addr, addr) obj_meta"
type_synonym mListMeta = "addr list_meta"
type_synonym mGPUCheckpointStatus = "(addr, addr) gpu_status"
type_synonym mGPUCheckpoint = "(mObjectMeta, mGPUCheckpointStatus) gpu_object"
type_synonym mGPUCheckpointList = "(mListMeta, addr) gpu_list"
type_synonym mWorkloadCheckpointSpec = "(addr, addr) wc_spec"
type_synonym mWorkloadCheckpointStatus = "(addr, addr, addr) wc_status"
type_synonym mWorkloadCheckpoint = "(mObjectMeta, mWorkloadCheckpointSpec, mWorkloadCheckpointStatus) wc_object"
type_synonym mWorkloadCheckpointList = "(mListMeta, addr) wc_list"

subsection \<open>Heaps\<close>

datatype cell =
    CNone
  | CTime (as_Time: go_time)
  | CConditions (as_Conditions: "Condition list")
  | CLabels (as_Labels: label_set)
  | COwnerReferences (as_OwnerReferences: "string list")
  | CInt64 (as_Int64: "64 word")
  | CBool (as_Bool: bool)
  | CLabelSelector (as_LabelSelector: LabelSelector)
  | CTargets (as_Targets: "TargetStatus list")
  | CWorkloadRef (as_WorkloadRef: WorkloadRef)
  | CStorageSpec (as_StorageSpec: StorageSpec)
  | CGPUCheckpointSpec (as_GPUCheckpointSpec: GPUCheckpointSpec)
  | CGPUCheckpointStatus (as_GPUCheckpointStatus: mGPUCheckpointStatus)
  | CGPUCheckpoint (as_GPUCheckpoint: mGPUCheckpoint)
  | CGPUCheckpoints (as_GPUCheckpoints: "mGPUCheckpoint list")
  | CGPUCheckpointList (as_GPUCheckpointList: mGPUCheckpointList)
  | CWorkloadTargetRef (as_WorkloadTargetRef: WorkloadTargetRef)
  | CTargetStatus (as_TargetStatus: TargetStatus)
  | CWorkloadCheckpointSpec (as_WorkloadCheckpointSpec: mWorkloadCheckpointSpec)
  | CWorkloadCheckpointStatus (as_WorkloadCheckpointStatus: mWorkloadCheckpointStatus)
  | CWorkloadCheckpoint (as_WorkloadCheckpoint: mWorkloadCheckpoint)
  | CWorkloadCheckpoints (as_WorkloadCheckpoints: "mWorkloadCheckpoint list")
  | CWorkloadCheckpointList (as_WorkloadCheckpointList: mWorkloadCheckpointList)

record heap =
  cells :: "addr \<Rightarrow> cell"
  lim :: addr

type_synonym 'a mem = "(heap, 'a) state"

definition load :: "addr \<Rightarrow> cell mem" where
  "load a = State (\<lambda>h. (cells h a, h))"

definition alloc :: "cell \<Rightarrow> addr mem" where
  "alloc c = State (\<lambda>h. (lim h, \<lparr>cells = (cells h)(lim h := c), lim = Suc (lim h)\<rparr>))"

lemma run_mem [simp]:
  "run_state (load a) h = (cells h a, h)"
  "run_state (alloc c) h = (lim h, \<lparr>cells = (cells h)(lim h := c), lim = Suc (lim h)\<rparr>)"
  by (simp_all add: load_def alloc_def)

definition allocated :: "heap \<Rightarrow> addr set" where
  "allocated h = {..<lim h}"

definition agree :: "addr set \<Rightarrow> heap \<Rightarrow> heap \<Rightarrow> bool" where
  "agree A h h' \<longleftrightarrow> (\<forall>a\<in>A. cells h' a = cells h a)"

text \<open>A heap that grew: what was allocated is as it was.\<close>

definition extends :: "heap \<Rightarrow> heap \<Rightarrow> bool" where
  "extends h h' \<longleftrightarrow> lim h \<le> lim h' \<and> agree (allocated h) h h'"

lemma agree_mono: "agree A h h' \<Longrightarrow> B \<subseteq> A \<Longrightarrow> agree B h h'"
  by (auto simp: agree_def)

lemma extends_refl [simp]: "extends h h"
  by (simp add: extends_def agree_def)

lemma extends_trans: "extends h h' \<Longrightarrow> extends h' h'' \<Longrightarrow> extends h h''"
  by (auto simp: extends_def agree_def allocated_def)

lemma extends_allocated: "extends h h' \<Longrightarrow> allocated h \<subseteq> allocated h'"
  by (auto simp: extends_def allocated_def)

lemma extends_alloc: "extends h \<lparr>cells = (cells h)(lim h := c), lim = Suc (lim h)\<rparr>"
  by (auto simp: extends_def agree_def allocated_def)

text \<open>
  What a caller may rely on: the copy \<open>y\<close> in \<open>h'\<close> reads as the original \<open>x\<close> in \<open>h\<close> did, nothing
  was changed, and from then on no write to the cells of the copy shows in the original, and no
  write to a cell that was there before shows in the copy.
\<close>

definition independent_copy ::
  "(heap \<Rightarrow> 'm \<Rightarrow> 'v) \<Rightarrow> (heap \<Rightarrow> 'm \<Rightarrow> addr set) \<Rightarrow> heap \<Rightarrow> 'm \<Rightarrow> heap \<Rightarrow> 'm \<Rightarrow> bool" where
  "independent_copy read reach h x h' y \<longleftrightarrow>
    read h' y = read h x \<and> extends h h' \<and>
    (\<forall>h''. agree (- reach h' y) h' h'' \<longrightarrow> read h'' x = read h x) \<and>
    (\<forall>h''. agree (- allocated h) h' h'' \<longrightarrow> read h'' y = read h x)"

subsection \<open>The contract of a deep copy\<close>

locale deep_copier =
  fixes read :: "heap \<Rightarrow> 'm \<Rightarrow> 'v"
    and reach :: "heap \<Rightarrow> 'm \<Rightarrow> addr set"
    and copy :: "'m \<Rightarrow> 'm mem"
  assumes reads_reach: "agree (reach h x) h h' \<Longrightarrow> read h' x = read h x \<and> reach h' x = reach h x"
    and copies: "reach h x \<subseteq> allocated h \<Longrightarrow> run_state (copy x) h = (y, h') \<Longrightarrow>
      read h' y = read h x \<and> reach h' y \<subseteq> allocated h' - allocated h \<and> extends h h'"
begin

lemma kept:
  assumes "reach h x \<subseteq> allocated h" and "extends h h'"
  shows "read h' x = read h x" and "reach h' x = reach h x"
  using reads_reach [OF agree_mono [OF _ assms(1)]] assms(2) by (auto simp: extends_def)

text \<open>Whatever is done to the copy leaves the original alone, and the other way round.\<close>

lemma original_independent:
  assumes "reach h x \<subseteq> allocated h" and "run_state (copy x) h = (y, h')" and "agree (- reach h' y) h' h''"
  shows "read h'' x = read h x"
proof -
  have c: "reach h' y \<subseteq> allocated h' - allocated h" "extends h h'" using copies [OF assms(1,2)] by auto
  have "cells h'' a = cells h a" if "a \<in> reach h x" for a
  proof -
    have "a \<in> allocated h" "a \<notin> reach h' y" using that assms(1) c(1) by auto
    then show ?thesis using c(2) assms(3) by (simp add: agree_def extends_def)
  qed
  then have "agree (reach h x) h h''" by (simp add: agree_def)
  then show ?thesis using reads_reach by blast
qed

lemma copy_independent:
  assumes "reach h x \<subseteq> allocated h" and "run_state (copy x) h = (y, h')" and "agree (- allocated h) h' h''"
  shows "read h'' y = read h x"
proof -
  have c: "reach h' y \<subseteq> allocated h' - allocated h" "read h' y = read h x" using copies [OF assms(1,2)] by auto
  then have "agree (reach h' y) h' h''" using assms(3) by (auto simp: agree_def)
  then show ?thesis using reads_reach c(2) by metis
qed

lemma independent:
  assumes "reach h x \<subseteq> allocated h" and "run_state (copy x) h = (y, h')"
  shows "independent_copy read reach h x h' y"
  unfolding independent_copy_def
  using copies [OF assms] original_independent [OF assms] copy_independent [OF assms] by blast

end

subsection \<open>Copying by parts\<close>

text \<open>Values without pointers are copied by assignment.\<close>

definition value_read :: "heap \<Rightarrow> 'a \<Rightarrow> 'a" where
  "value_read h x = x"

definition value_reach :: "heap \<Rightarrow> 'a \<Rightarrow> addr set" where
  "value_reach h x = {}"

interpretation plain: deep_copier value_read value_reach State_Monad.return
  by unfold_locales (auto simp: value_read_def value_reach_def)

text \<open>A pointer that is not nil, to a cell whose content is copied by \<open>copy\<close>.\<close>

definition copy_ptr :: "(cell \<Rightarrow> 'a) \<Rightarrow> ('a \<Rightarrow> cell) \<Rightarrow> ('a \<Rightarrow> 'a mem) \<Rightarrow> addr \<Rightarrow> addr mem" where
  "copy_ptr view mk copy a = do { c \<leftarrow> load a; y \<leftarrow> copy (view c); alloc (mk y) }"

definition ptr_read :: "(cell \<Rightarrow> 'a) \<Rightarrow> (heap \<Rightarrow> 'a \<Rightarrow> 'v) \<Rightarrow> heap \<Rightarrow> addr \<Rightarrow> 'v" where
  "ptr_read view read h a = read h (view (cells h a))"

definition ptr_reach :: "(cell \<Rightarrow> 'a) \<Rightarrow> (heap \<Rightarrow> 'a \<Rightarrow> addr set) \<Rightarrow> heap \<Rightarrow> addr \<Rightarrow> addr set" where
  "ptr_reach view reach h a = insert a (reach h (view (cells h a)))"

lemma deep_copier_ptr:
  assumes "deep_copier read reach copy" and view: "\<And>y. view (mk y) = y"
  shows "deep_copier (ptr_read view read) (ptr_reach view reach) (copy_ptr view mk copy)"
proof -
  show ?thesis
  proof
    fix h h' :: heap and a
    assume "agree (ptr_reach view reach h a) h h'"
    then have "cells h' a = cells h a" "agree (reach h (view (cells h a))) h h'"
      by (auto simp: ptr_reach_def agree_def)
    with deep_copier.reads_reach [OF assms(1)]
    show "ptr_read view read h' a = ptr_read view read h a \<and> ptr_reach view reach h' a = ptr_reach view reach h a"
      by (auto simp: ptr_read_def ptr_reach_def)
  next
    fix h h' a b
    assume sub: "ptr_reach view reach h a \<subseteq> allocated h" and run: "run_state (copy_ptr view mk copy a) h = (b, h')"
    obtain y h1 where c: "run_state (copy (view (cells h a))) h = (y, h1)" by fastforce
    with run have b: "b = lim h1" "h' = \<lparr>cells = (cells h1)(lim h1 := mk y), lim = Suc (lim h1)\<rparr>"
      by (auto simp: copy_ptr_def)
    have in_h: "reach h (view (cells h a)) \<subseteq> allocated h" using sub by (simp add: ptr_reach_def)
    note y = deep_copier.copies [OF assms(1) in_h c]
    then have y1: "reach h1 y \<subseteq> allocated h1" by blast
    have ext: "extends h1 h'" unfolding b by (rule extends_alloc)
    note k = deep_copier.kept [OF assms(1) y1 ext]
    have "cells h' b = mk y" by (simp add: b)
    then have r: "ptr_read view read h' b = read h (view (cells h a))" "ptr_reach view reach h' b = insert b (reach h1 y)"
      using k y by (simp_all add: ptr_read_def ptr_reach_def view)
    have "b \<in> allocated h' - allocated h" using y by (auto simp: b allocated_def extends_def)
    moreover have "allocated h1 \<subseteq> allocated h'" by (rule extends_allocated [OF ext])
    ultimately have "ptr_reach view reach h' b \<subseteq> allocated h' - allocated h" using r(2) y by auto
    with r(1) y ext show "ptr_read view read h' b = ptr_read view read h a \<and>
        ptr_reach view reach h' b \<subseteq> allocated h' - allocated h \<and> extends h h'"
      by (auto simp: ptr_read_def intro: extends_trans)
  qed
qed

text \<open>A pointer, slice or map that may be nil.\<close>

definition copy_opt :: "('a \<Rightarrow> 'a mem) \<Rightarrow> 'a option \<Rightarrow> 'a option mem" where
  "copy_opt copy p = (case p of
     None \<Rightarrow> State_Monad.return None
   | Some a \<Rightarrow> do { b \<leftarrow> copy a; State_Monad.return (Some b) })"

definition opt_read :: "(heap \<Rightarrow> 'a \<Rightarrow> 'v) \<Rightarrow> heap \<Rightarrow> 'a option \<Rightarrow> 'v option" where
  "opt_read read h p = map_option (read h) p"

definition opt_reach :: "(heap \<Rightarrow> 'a \<Rightarrow> addr set) \<Rightarrow> heap \<Rightarrow> 'a option \<Rightarrow> addr set" where
  "opt_reach reach h p = (case p of None \<Rightarrow> {} | Some a \<Rightarrow> reach h a)"

lemma deep_copier_opt:
  assumes "deep_copier read reach copy"
  shows "deep_copier (opt_read read) (opt_reach reach) (copy_opt copy)"
proof
  fix h h' p
  assume "agree (opt_reach reach h p) h h'"
  with deep_copier.reads_reach [OF assms] show "opt_read read h' p = opt_read read h p \<and> opt_reach reach h' p = opt_reach reach h p"
    by (cases p) (auto simp: opt_read_def opt_reach_def)
next
  fix h h' p q
  assume sub: "opt_reach reach h p \<subseteq> allocated h" and run: "run_state (copy_opt copy p) h = (q, h')"
  show "opt_read read h' q = opt_read read h p \<and>
      opt_reach reach h' q \<subseteq> allocated h' - allocated h \<and> extends h h'"
  proof (cases p)
    case (Some a)
    obtain b h1 where b: "run_state (copy a) h = (b, h1)" by fastforce
    have "reach h a \<subseteq> allocated h" using sub Some by (simp add: opt_reach_def)
    from deep_copier.copies [OF assms this b] run b Some show ?thesis
      by (auto simp: opt_read_def opt_reach_def copy_opt_def)
  qed (use run in \<open>simp add: opt_read_def opt_reach_def copy_opt_def\<close>)
qed

text \<open>Two parts of a struct, one after the other.\<close>

definition copy_pair :: "('a \<Rightarrow> 'a mem) \<Rightarrow> ('b \<Rightarrow> 'b mem) \<Rightarrow> 'a \<times> 'b \<Rightarrow> ('a \<times> 'b) mem" where
  "copy_pair c1 c2 p = do { a \<leftarrow> c1 (fst p); b \<leftarrow> c2 (snd p); State_Monad.return (a, b) }"

definition pair_read :: "(heap \<Rightarrow> 'a \<Rightarrow> 'v) \<Rightarrow> (heap \<Rightarrow> 'b \<Rightarrow> 'w) \<Rightarrow> heap \<Rightarrow> 'a \<times> 'b \<Rightarrow> 'v \<times> 'w" where
  "pair_read r1 r2 h p = (r1 h (fst p), r2 h (snd p))"

definition pair_reach :: "(heap \<Rightarrow> 'a \<Rightarrow> addr set) \<Rightarrow> (heap \<Rightarrow> 'b \<Rightarrow> addr set) \<Rightarrow> heap \<Rightarrow> 'a \<times> 'b \<Rightarrow> addr set" where
  "pair_reach s1 s2 h p = s1 h (fst p) \<union> s2 h (snd p)"

lemma agree_Un [simp]: "agree (A \<union> B) h h' \<longleftrightarrow> agree A h h' \<and> agree B h h'"
  by (auto simp: agree_def)

lemma deep_copier_pair:
  assumes 1: "deep_copier r1 s1 c1" and 2: "deep_copier r2 s2 c2"
  shows "deep_copier (pair_read r1 r2) (pair_reach s1 s2) (copy_pair c1 c2)"
proof
  fix h h' p
  assume "agree (pair_reach s1 s2 h p) h h'"
  with deep_copier.reads_reach [OF 1] deep_copier.reads_reach [OF 2]
  show "pair_read r1 r2 h' p = pair_read r1 r2 h p \<and> pair_reach s1 s2 h' p = pair_reach s1 s2 h p"
    by (auto simp: pair_read_def pair_reach_def)
next
  fix h h' p q
  assume sub: "pair_reach s1 s2 h p \<subseteq> allocated h" and run: "run_state (copy_pair c1 c2 p) h = (q, h')"
  obtain a h1 where a: "run_state (c1 (fst p)) h = (a, h1)" by fastforce
  obtain b h2 where b: "run_state (c2 (snd p)) h1 = (b, h2)" by fastforce
  have q: "q = (a, b)" "h' = h2" using run a b by (simp_all add: copy_pair_def)
  have sub1: "s1 h (fst p) \<subseteq> allocated h" and sub2: "s2 h (snd p) \<subseteq> allocated h"
    using sub by (simp_all add: pair_reach_def)
  note A = deep_copier.copies [OF 1 sub1 a]
  then have e1: "extends h h1" by blast
  note k2 = deep_copier.kept [OF 2 sub2 e1]
  have "s2 h1 (snd p) \<subseteq> allocated h1" using k2(2) sub2 extends_allocated [OF e1] by auto
  note B = deep_copier.copies [OF 2 this b]
  then have e2: "extends h1 h2" by blast
  have "s1 h1 a \<subseteq> allocated h1" using A by blast
  note ka = deep_copier.kept [OF 1 this e2]
  show "pair_read r1 r2 h' q = pair_read r1 r2 h p \<and> pair_reach s1 s2 h' q \<subseteq> allocated h' - allocated h \<and> extends h h'"
    using A B ka k2 q extends_allocated [OF e1] extends_allocated [OF e2] extends_trans [OF e1 e2]
    by (auto simp: pair_read_def pair_reach_def)
qed

text \<open>The elements of a slice, in order.\<close>

fun copy_each :: "('a \<Rightarrow> 'a mem) \<Rightarrow> 'a list \<Rightarrow> 'a list mem" where
  "copy_each copy [] = State_Monad.return []"
| "copy_each copy (x # xs) = do { y \<leftarrow> copy x; ys \<leftarrow> copy_each copy xs; State_Monad.return (y # ys) }"

definition list_read :: "(heap \<Rightarrow> 'a \<Rightarrow> 'v) \<Rightarrow> heap \<Rightarrow> 'a list \<Rightarrow> 'v list" where
  "list_read read h xs = map (read h) xs"

definition list_reach :: "(heap \<Rightarrow> 'a \<Rightarrow> addr set) \<Rightarrow> heap \<Rightarrow> 'a list \<Rightarrow> addr set" where
  "list_reach reach h xs = (\<Union>x\<in>set xs. reach h x)"

lemma deep_copier_list:
  assumes "deep_copier read reach copy"
  shows "deep_copier (list_read read) (list_reach reach) (copy_each copy)"
proof
  fix h h' xs
  assume "agree (list_reach reach h xs) h h'"
  then have "agree (reach h x) h h'" if "x \<in> set xs" for x using that by (auto simp: list_reach_def agree_def)
  then have "read h' x = read h x \<and> reach h' x = reach h x" if "x \<in> set xs" for x
    using that deep_copier.reads_reach [OF assms] by blast
  then show "list_read read h' xs = list_read read h xs \<and> list_reach reach h' xs = list_reach reach h xs"
    by (simp add: list_read_def list_reach_def)
next
  show "list_read read h' ys = list_read read h xs \<and> list_reach reach h' ys \<subseteq> allocated h' - allocated h \<and> extends h h'"
    if "list_reach reach h xs \<subseteq> allocated h" "run_state (copy_each copy xs) h = (ys, h')" for h h' xs ys
    using that
  proof (induction xs arbitrary: h ys)
    case (Cons x xs)
    obtain y h1 where y: "run_state (copy x) h = (y, h1)" by fastforce
    obtain zs where zs: "run_state (copy_each copy xs) h1 = (zs, h')" "ys = y # zs"
      using Cons.prems(2) y by (auto split: prod.splits)
    have sub: "reach h x \<subseteq> allocated h" "list_reach reach h xs \<subseteq> allocated h"
      using Cons.prems(1) by (auto simp: list_reach_def)
    note Y = deep_copier.copies [OF assms sub(1) y]
    then have e1: "extends h h1" by blast
    have k: "read h1 z = read h z \<and> reach h1 z = reach h z" if "z \<in> set xs" for z
      using that sub(2) deep_copier.kept [OF assms _ e1, of z] by (auto simp: list_reach_def)
    then have "list_reach reach h1 xs \<subseteq> allocated h1"
      using sub(2) extends_allocated [OF e1] by (auto simp: list_reach_def)
    note Z = Cons.IH [OF this zs(1)]
    then have e2: "extends h1 h'" by blast
    have "reach h1 y \<subseteq> allocated h1" using Y by blast
    note ky = deep_copier.kept [OF assms this e2]
    have "list_read read h1 xs = list_read read h xs" using k by (simp add: list_read_def)
    then show ?case
      using Y Z ky zs(2) extends_allocated [OF e1] extends_allocated [OF e2] extends_trans [OF e1 e2]
      by (auto simp: list_read_def list_reach_def)
  qed (simp add: list_read_def list_reach_def)
qed

text \<open>A struct: its pointer parts, gathered by \<open>get\<close>, are copied and put into a shallow copy.\<close>

lemma deep_copier_struct:
  assumes "deep_copier read reach copy"
    and "\<And>x h. run_state (copy' x) h = (case run_state (copy (get x)) h of (y, h') \<Rightarrow> (put x y, h'))"
    and "\<And>x h. read' h x = view x (read h (get x))" and "\<And>x h. reach' h x = reach h (get x)"
    and "\<And>x y. get (put x y) = y" and "\<And>x y v. view (put x y) v = view x v"
  shows "deep_copier read' reach' copy'"
proof
  fix h h' x
  assume "agree (reach' h x) h h'"
  then show "read' h' x = read' h x \<and> reach' h' x = reach' h x"
    using deep_copier.reads_reach [OF assms(1)] by (simp add: assms(3,4))
next
  fix h h' x z
  assume sub: "reach' h x \<subseteq> allocated h" and run: "run_state (copy' x) h = (z, h')"
  obtain y h1 where y: "run_state (copy (get x)) h = (y, h1)" by fastforce
  have "reach h (get x) \<subseteq> allocated h" using sub by (simp add: assms(4))
  from deep_copier.copies [OF assms(1) this y] run y
  show "read' h' z = read' h x \<and> reach' h' z \<subseteq> allocated h' - allocated h \<and> extends h h'"
    by (auto simp: assms(2-6))
qed

lemmas deep_copier_parts = deep_copier_ptr deep_copier_opt deep_copier_pair deep_copier_list plain.deep_copier_axioms

end
