(* ===== verification/Gpu_Deepcopy.thy ===== *)
theory Gpu_Deepcopy
  imports Go_Heap
begin

text \<open>
  \<^verbatim>\<open>api/v1alpha1/zz_generated.deepcopy.go\<close>: the hand-written deep copies of the GPUCheckpoint types. The
  copies of Kubernetes' own types (\<^verbatim>\<open>metav1.Time\<close>, \<^verbatim>\<open>Condition\<close>, \<^verbatim>\<open>ObjectMeta\<close>, \<^verbatim>\<open>ListMeta\<close>, \<^verbatim>\<open>LabelSelector\<close>)
  are library code, a parameter \<open>meta_lib\<close>; \<open>meta_lib_ok\<close> says that they are deep copies.
  \<^verbatim>\<open>DeepCopyInto(out)\<close> is a function from the struct \<^verbatim>\<open>*in\<close> to the struct \<^verbatim>\<open>*out\<close>; \<^verbatim>\<open>new\<close> and \<^verbatim>\<open>make\<close>
  allocate the cell with its final content, which nobody else can see before.
\<close>

record meta_lib =
  ml_Time :: "addr \<Rightarrow> addr mem"
  ml_Condition :: "Condition \<Rightarrow> Condition mem"
  ml_ObjectMeta :: "mObjectMeta \<Rightarrow> mObjectMeta mem"
  ml_ListMeta :: "mListMeta \<Rightarrow> mListMeta mem"
  ml_LabelSelector :: "addr \<Rightarrow> addr mem"

subsection \<open>The copies\<close>

definition WorkloadRef_DeepCopyInto :: "WorkloadRef \<Rightarrow> WorkloadRef mem" where
  "WorkloadRef_DeepCopyInto src = State_Monad.return src"

definition WorkloadRef_DeepCopy :: "addr option \<Rightarrow> addr option mem" where
  "WorkloadRef_DeepCopy = copy_opt (copy_ptr as_WorkloadRef CWorkloadRef WorkloadRef_DeepCopyInto)"

definition StorageSpec_DeepCopyInto :: "StorageSpec \<Rightarrow> StorageSpec mem" where
  "StorageSpec_DeepCopyInto src = State_Monad.return src"

definition StorageSpec_DeepCopy :: "addr option \<Rightarrow> addr option mem" where
  "StorageSpec_DeepCopy = copy_opt (copy_ptr as_StorageSpec CStorageSpec StorageSpec_DeepCopyInto)"

definition GPUCheckpointSpec_DeepCopyInto :: "GPUCheckpointSpec \<Rightarrow> GPUCheckpointSpec mem" where
  "GPUCheckpointSpec_DeepCopyInto src = (
     let out = src;
         out = out\<lparr>gs_WorkloadRef := gs_WorkloadRef src\<rparr>;
         out = out\<lparr>gs_Storage := gs_Storage src\<rparr>
     in State_Monad.return out)"

definition GPUCheckpointSpec_DeepCopy :: "addr option \<Rightarrow> addr option mem" where
  "GPUCheckpointSpec_DeepCopy =
    copy_opt (copy_ptr as_GPUCheckpointSpec CGPUCheckpointSpec GPUCheckpointSpec_DeepCopyInto)"

definition GPUCheckpointStatus_DeepCopyInto :: "meta_lib \<Rightarrow> mGPUCheckpointStatus \<Rightarrow> mGPUCheckpointStatus mem" where
  "GPUCheckpointStatus_DeepCopyInto L src = do {
     let out = src;
     t \<leftarrow> copy_opt (ml_Time L) (gst_LastCheckpointTime src);
     let out = out\<lparr>gst_LastCheckpointTime := t\<rparr>;
     cs \<leftarrow> copy_opt (copy_ptr as_Conditions CConditions (copy_each (ml_Condition L))) (gst_Conditions src);
     State_Monad.return (out\<lparr>gst_Conditions := cs\<rparr>) }"

definition GPUCheckpointStatus_DeepCopy :: "meta_lib \<Rightarrow> addr option \<Rightarrow> addr option mem" where
  "GPUCheckpointStatus_DeepCopy L =
    copy_opt (copy_ptr as_GPUCheckpointStatus CGPUCheckpointStatus (GPUCheckpointStatus_DeepCopyInto L))"

definition GPUCheckpoint_DeepCopyInto :: "meta_lib \<Rightarrow> mGPUCheckpoint \<Rightarrow> mGPUCheckpoint mem" where
  "GPUCheckpoint_DeepCopyInto L src = do {
     let out = src\<lparr>go_TypeMeta := go_TypeMeta src\<rparr>;
     m \<leftarrow> ml_ObjectMeta L (go_ObjectMeta src);
     let out = out\<lparr>go_ObjectMeta := m\<rparr>;
     sp \<leftarrow> GPUCheckpointSpec_DeepCopyInto (go_Spec src);
     let out = out\<lparr>go_Spec := sp\<rparr>;
     st \<leftarrow> GPUCheckpointStatus_DeepCopyInto L (go_Status src);
     State_Monad.return (out\<lparr>go_Status := st\<rparr>) }"

definition GPUCheckpoint_DeepCopy :: "meta_lib \<Rightarrow> addr option \<Rightarrow> addr option mem" where
  "GPUCheckpoint_DeepCopy L = copy_opt (copy_ptr as_GPUCheckpoint CGPUCheckpoint (GPUCheckpoint_DeepCopyInto L))"

definition GPUCheckpointList_DeepCopyInto :: "meta_lib \<Rightarrow> mGPUCheckpointList \<Rightarrow> mGPUCheckpointList mem" where
  "GPUCheckpointList_DeepCopyInto L src = do {
     let out = src\<lparr>gl_TypeMeta := gl_TypeMeta src\<rparr>;
     m \<leftarrow> ml_ListMeta L (gl_ListMeta src);
     let out = out\<lparr>gl_ListMeta := m\<rparr>;
     items \<leftarrow> copy_opt (copy_ptr as_GPUCheckpoints CGPUCheckpoints (copy_each (GPUCheckpoint_DeepCopyInto L))) (gl_Items src);
     State_Monad.return (out\<lparr>gl_Items := items\<rparr>) }"

definition GPUCheckpointList_DeepCopy :: "meta_lib \<Rightarrow> addr option \<Rightarrow> addr option mem" where
  "GPUCheckpointList_DeepCopy L =
    copy_opt (copy_ptr as_GPUCheckpointList CGPUCheckpointList (GPUCheckpointList_DeepCopyInto L))"

text \<open>A value of the interface \<^verbatim>\<open>runtime.Object\<close>: nil, or a typed pointer. A typed pointer that is nil
  is not the nil interface, so the nil test of \<^verbatim>\<open>DeepCopyObject\<close> matters.\<close>

datatype runtime_Object =
    NilObject
  | GPUCheckpointObject "addr option"
  | GPUCheckpointListObject "addr option"
  | WorkloadCheckpointObject "addr option"
  | WorkloadCheckpointListObject "addr option"

definition GPUCheckpoint_DeepCopyObject :: "meta_lib \<Rightarrow> addr option \<Rightarrow> runtime_Object mem" where
  "GPUCheckpoint_DeepCopyObject L src = do {
     c \<leftarrow> GPUCheckpoint_DeepCopy L src;
     State_Monad.return (if c \<noteq> None then GPUCheckpointObject c else NilObject) }"

definition GPUCheckpointList_DeepCopyObject :: "meta_lib \<Rightarrow> addr option \<Rightarrow> runtime_Object mem" where
  "GPUCheckpointList_DeepCopyObject L src = do {
     c \<leftarrow> GPUCheckpointList_DeepCopy L src;
     State_Monad.return (if c \<noteq> None then GPUCheckpointListObject c else NilObject) }"

subsection \<open>What the types stand for\<close>

abbreviation cell_read :: "(cell \<Rightarrow> 'a) \<Rightarrow> heap \<Rightarrow> addr \<Rightarrow> 'a" where
  "cell_read view \<equiv> ptr_read view value_read"

abbreviation cell_reach :: "(cell \<Rightarrow> 'a) \<Rightarrow> heap \<Rightarrow> addr \<Rightarrow> addr set" where
  "cell_reach view \<equiv> ptr_reach view value_reach"

abbreviation slice_read :: "(cell \<Rightarrow> 'a list) \<Rightarrow> (heap \<Rightarrow> 'a \<Rightarrow> 'v) \<Rightarrow> heap \<Rightarrow> addr option \<Rightarrow> 'v list option" where
  "slice_read view read \<equiv> opt_read (ptr_read view (list_read read))"

abbreviation slice_reach :: "(cell \<Rightarrow> 'a list) \<Rightarrow> (heap \<Rightarrow> 'a \<Rightarrow> addr set) \<Rightarrow> heap \<Rightarrow> addr option \<Rightarrow> addr set" where
  "slice_reach view reach \<equiv> opt_reach (ptr_reach view (list_reach reach))"

definition read_meta :: "heap \<Rightarrow> mObjectMeta \<Rightarrow> (label_set, string list) obj_meta" where
  "read_meta h m = \<lparr>mo_Name = mo_Name m, mo_Namespace = mo_Namespace m, mo_UID = mo_UID m,
     mo_Labels = opt_read (cell_read as_Labels) h (mo_Labels m),
     mo_OwnerReferences = opt_read (cell_read as_OwnerReferences) h (mo_OwnerReferences m)\<rparr>"

definition reach_meta :: "heap \<Rightarrow> mObjectMeta \<Rightarrow> addr set" where
  "reach_meta h m = pair_reach (opt_reach (cell_reach as_Labels)) (opt_reach (cell_reach as_OwnerReferences)) h
     (mo_Labels m, mo_OwnerReferences m)"

definition read_list_meta :: "heap \<Rightarrow> mListMeta \<Rightarrow> (64 word) list_meta" where
  "read_list_meta h m = \<lparr>lm_ResourceVersion = lm_ResourceVersion m, lm_Continue = lm_Continue m,
     lm_RemainingItemCount = opt_read (cell_read as_Int64) h (lm_RemainingItemCount m)\<rparr>"

definition reach_list_meta :: "heap \<Rightarrow> mListMeta \<Rightarrow> addr set" where
  "reach_list_meta h m = opt_reach (cell_reach as_Int64) h (lm_RemainingItemCount m)"

definition read_gpu_status :: "heap \<Rightarrow> mGPUCheckpointStatus \<Rightarrow> (go_time, Condition list) gpu_status" where
  "read_gpu_status h s = \<lparr>gst_Phase = gst_Phase s, gst_ObservedNode = gst_ObservedNode s,
     gst_LastCheckpointTime = opt_read (cell_read as_Time) h (gst_LastCheckpointTime s),
     gst_CheckpointCount = gst_CheckpointCount s, gst_LastCheckpointPath = gst_LastCheckpointPath s,
     gst_Message = gst_Message s,
     gst_Conditions = slice_read as_Conditions value_read h (gst_Conditions s)\<rparr>"

definition reach_gpu_status :: "heap \<Rightarrow> mGPUCheckpointStatus \<Rightarrow> addr set" where
  "reach_gpu_status h s = pair_reach (opt_reach (cell_reach as_Time)) (slice_reach as_Conditions value_reach) h
     (gst_LastCheckpointTime s, gst_Conditions s)"

definition read_gpu ::
  "heap \<Rightarrow> mGPUCheckpoint \<Rightarrow> ((label_set, string list) obj_meta, (go_time, Condition list) gpu_status) gpu_object" where
  "read_gpu h g = \<lparr>go_TypeMeta = go_TypeMeta g, go_ObjectMeta = read_meta h (go_ObjectMeta g),
     go_Spec = value_read h (go_Spec g), go_Status = read_gpu_status h (go_Status g)\<rparr>"

definition reach_gpu :: "heap \<Rightarrow> mGPUCheckpoint \<Rightarrow> addr set" where
  "reach_gpu h g = pair_reach reach_meta (pair_reach value_reach reach_gpu_status) h
     (go_ObjectMeta g, go_Spec g, go_Status g)"

definition read_gpu_list :: "heap \<Rightarrow> mGPUCheckpointList \<Rightarrow> ((64 word) list_meta,
    ((label_set, string list) obj_meta, (go_time, Condition list) gpu_status) gpu_object list) gpu_list" where
  "read_gpu_list h l = \<lparr>gl_TypeMeta = gl_TypeMeta l, gl_ListMeta = read_list_meta h (gl_ListMeta l),
     gl_Items = slice_read as_GPUCheckpoints read_gpu h (gl_Items l)\<rparr>"

definition reach_gpu_list :: "heap \<Rightarrow> mGPUCheckpointList \<Rightarrow> addr set" where
  "reach_gpu_list h l = pair_reach reach_list_meta (slice_reach as_GPUCheckpoints reach_gpu) h
     (gl_ListMeta l, gl_Items l)"

text \<open>The copies of the library are deep copies.\<close>

definition meta_lib_ok :: "meta_lib \<Rightarrow> bool" where
  "meta_lib_ok L \<longleftrightarrow>
    deep_copier (cell_read as_Time) (cell_reach as_Time) (ml_Time L) \<and>
    deep_copier value_read value_reach (ml_Condition L) \<and>
    deep_copier read_meta reach_meta (ml_ObjectMeta L) \<and>
    deep_copier read_list_meta reach_list_meta (ml_ListMeta L) \<and>
    deep_copier (cell_read as_LabelSelector) (cell_reach as_LabelSelector) (ml_LabelSelector L)"

subsection \<open>They are deep copies\<close>

interpretation workload_ref_copy: deep_copier value_read value_reach WorkloadRef_DeepCopyInto
  by unfold_locales (auto simp: WorkloadRef_DeepCopyInto_def value_read_def value_reach_def)

interpretation storage_copy: deep_copier value_read value_reach StorageSpec_DeepCopyInto
  by unfold_locales (auto simp: StorageSpec_DeepCopyInto_def value_read_def value_reach_def)

interpretation gpu_spec_copy: deep_copier value_read value_reach GPUCheckpointSpec_DeepCopyInto
  by unfold_locales (auto simp: GPUCheckpointSpec_DeepCopyInto_def value_read_def value_reach_def)

lemma gpu_status_copier:
  assumes "meta_lib_ok L"
  shows "deep_copier read_gpu_status reach_gpu_status (GPUCheckpointStatus_DeepCopyInto L)"
proof (rule deep_copier_struct [where get = "\<lambda>s. (gst_LastCheckpointTime s, gst_Conditions s)"
      and put = "\<lambda>s p. s\<lparr>gst_LastCheckpointTime := fst p, gst_Conditions := snd p\<rparr>"
      and view = "\<lambda>s v. \<lparr>gst_Phase = gst_Phase s, gst_ObservedNode = gst_ObservedNode s,
        gst_LastCheckpointTime = fst v, gst_CheckpointCount = gst_CheckpointCount s,
        gst_LastCheckpointPath = gst_LastCheckpointPath s, gst_Message = gst_Message s, gst_Conditions = snd v\<rparr>"])
  show "deep_copier (pair_read (opt_read (cell_read as_Time)) (slice_read as_Conditions value_read))
      (pair_reach (opt_reach (cell_reach as_Time)) (slice_reach as_Conditions value_reach))
      (copy_pair (copy_opt (ml_Time L)) (copy_opt (copy_ptr as_Conditions CConditions (copy_each (ml_Condition L)))))"
    using assms by (intro deep_copier_parts) (simp_all add: meta_lib_ok_def)
qed (auto simp: GPUCheckpointStatus_DeepCopyInto_def copy_pair_def read_gpu_status_def reach_gpu_status_def pair_read_def
    split: prod.splits)

lemma gpu_copier:
  assumes "meta_lib_ok L"
  shows "deep_copier read_gpu reach_gpu (GPUCheckpoint_DeepCopyInto L)"
proof (rule deep_copier_struct [where get = "\<lambda>g. (go_ObjectMeta g, go_Spec g, go_Status g)"
      and put = "\<lambda>g p. g\<lparr>go_ObjectMeta := fst p, go_Spec := fst (snd p), go_Status := snd (snd p)\<rparr>"
      and view = "\<lambda>g v. \<lparr>go_TypeMeta = go_TypeMeta g, go_ObjectMeta = fst v, go_Spec = fst (snd v), go_Status = snd (snd v)\<rparr>"])
  show "deep_copier (pair_read read_meta (pair_read value_read read_gpu_status))
      (pair_reach reach_meta (pair_reach value_reach reach_gpu_status))
      (copy_pair (ml_ObjectMeta L) (copy_pair GPUCheckpointSpec_DeepCopyInto (GPUCheckpointStatus_DeepCopyInto L)))"
    using assms by (intro deep_copier_pair gpu_status_copier gpu_spec_copy.deep_copier_axioms) (simp_all add: meta_lib_ok_def)
qed (auto simp: GPUCheckpoint_DeepCopyInto_def copy_pair_def read_gpu_def reach_gpu_def pair_read_def split: prod.splits)

lemma gpu_list_copier:
  assumes "meta_lib_ok L"
  shows "deep_copier read_gpu_list reach_gpu_list (GPUCheckpointList_DeepCopyInto L)"
proof (rule deep_copier_struct [where get = "\<lambda>l. (gl_ListMeta l, gl_Items l)"
      and put = "\<lambda>l p. l\<lparr>gl_ListMeta := fst p, gl_Items := snd p\<rparr>"
      and view = "\<lambda>l v. \<lparr>gl_TypeMeta = gl_TypeMeta l, gl_ListMeta = fst v, gl_Items = snd v\<rparr>"])
  show "deep_copier (pair_read read_list_meta (slice_read as_GPUCheckpoints read_gpu))
      (pair_reach reach_list_meta (slice_reach as_GPUCheckpoints reach_gpu))
      (copy_pair (ml_ListMeta L) (copy_opt (copy_ptr as_GPUCheckpoints CGPUCheckpoints (copy_each (GPUCheckpoint_DeepCopyInto L)))))"
    using assms by (intro deep_copier_pair deep_copier_opt deep_copier_ptr deep_copier_list gpu_copier)
      (simp_all add: meta_lib_ok_def)
qed (auto simp: GPUCheckpointList_DeepCopyInto_def copy_pair_def read_gpu_list_def reach_gpu_list_def pair_read_def
    split: prod.splits)

text \<open>The exported methods: nil gives nil, any other pointer an independent copy.\<close>

lemma copy_opt_object:
  assumes "deep_copier read reach copy" and "\<And>p. src = Some p \<Longrightarrow> reach h p \<subseteq> allocated h"
    and "run_state (copy_opt copy src) h = (dst, h')"
  shows "case src of None \<Rightarrow> dst = None \<and> h' = h
    | Some p \<Rightarrow> \<exists>q. dst = Some q \<and> independent_copy read reach h p h' q"
proof (cases src)
  case (Some p)
  obtain q where "run_state (copy p) h = (q, h')" "dst = Some q"
    using assms(3) Some by (auto simp: copy_opt_def split: prod.splits)
  with deep_copier.independent [OF assms(1) assms(2) [OF Some]] Some show ?thesis by auto
qed (use assms(3) in \<open>simp add: copy_opt_def\<close>)

subsection \<open>A library for examples\<close>

definition std_meta :: meta_lib where
  "std_meta = \<lparr>
     ml_Time = copy_ptr as_Time CTime State_Monad.return,
     ml_Condition = State_Monad.return,
     ml_ObjectMeta = (\<lambda>m. do {
       l \<leftarrow> copy_opt (copy_ptr as_Labels CLabels State_Monad.return) (mo_Labels m);
       r \<leftarrow> copy_opt (copy_ptr as_OwnerReferences COwnerReferences State_Monad.return) (mo_OwnerReferences m);
       State_Monad.return (m\<lparr>mo_Labels := l, mo_OwnerReferences := r\<rparr>) }),
     ml_ListMeta = (\<lambda>m. do {
       n \<leftarrow> copy_opt (copy_ptr as_Int64 CInt64 State_Monad.return) (lm_RemainingItemCount m);
       State_Monad.return (m\<lparr>lm_RemainingItemCount := n\<rparr>) }),
     ml_LabelSelector = copy_ptr as_LabelSelector CLabelSelector State_Monad.return\<rparr>"

lemma std_object_meta: "deep_copier read_meta reach_meta (ml_ObjectMeta std_meta)"
proof (rule deep_copier_struct [where get = "\<lambda>m. (mo_Labels m, mo_OwnerReferences m)"
      and put = "\<lambda>m p. m\<lparr>mo_Labels := fst p, mo_OwnerReferences := snd p\<rparr>"
      and view = "\<lambda>m v. \<lparr>mo_Name = mo_Name m, mo_Namespace = mo_Namespace m, mo_UID = mo_UID m,
        mo_Labels = fst v, mo_OwnerReferences = snd v\<rparr>"])
  show "deep_copier (pair_read (opt_read (cell_read as_Labels)) (opt_read (cell_read as_OwnerReferences)))
      (pair_reach (opt_reach (cell_reach as_Labels)) (opt_reach (cell_reach as_OwnerReferences)))
      (copy_pair (copy_opt (copy_ptr as_Labels CLabels State_Monad.return))
        (copy_opt (copy_ptr as_OwnerReferences COwnerReferences State_Monad.return)))"
    by (intro deep_copier_parts) simp_all
qed (auto simp: std_meta_def copy_pair_def read_meta_def reach_meta_def pair_read_def split: prod.splits)

lemma std_list_meta: "deep_copier read_list_meta reach_list_meta (ml_ListMeta std_meta)"
proof (rule deep_copier_struct [where get = lm_RemainingItemCount and put = "\<lambda>m n. m\<lparr>lm_RemainingItemCount := n\<rparr>"
      and view = "\<lambda>m v. \<lparr>lm_ResourceVersion = lm_ResourceVersion m, lm_Continue = lm_Continue m, lm_RemainingItemCount = v\<rparr>"])
  show "deep_copier (opt_read (cell_read as_Int64)) (opt_reach (cell_reach as_Int64))
      (copy_opt (copy_ptr as_Int64 CInt64 State_Monad.return))"
    by (intro deep_copier_parts) simp_all
qed (auto simp: std_meta_def read_list_meta_def reach_list_meta_def split: prod.splits)

lemma std_meta_ok: "meta_lib_ok std_meta"
proof -
  have "deep_copier (cell_read as_Time) (cell_reach as_Time) (ml_Time std_meta)"
    "deep_copier value_read value_reach (ml_Condition std_meta)"
    "deep_copier (cell_read as_LabelSelector) (cell_reach as_LabelSelector) (ml_LabelSelector std_meta)"
    by (simp_all add: std_meta_def deep_copier_ptr plain.deep_copier_axioms)
  then show ?thesis using std_object_meta std_list_meta by (simp add: meta_lib_ok_def)
qed

subsection \<open>Properties\<close>

text \<open>C25: \<^verbatim>\<open>DeepCopyObject\<close> of a GPUCheckpointList, and through it the copies of lists, resources, specs and
  statuses: a nil list gives the nil interface and allocates nothing; any other gives a list
  that reads the same (conditions and times included, nil slices staying nil) and shares no
  memory with the original, so that neither sees later writes to the other.\<close>

theorem gpu_list_deep_copy:
  assumes "meta_lib_ok L"
    and "\<And>p. src = Some p \<Longrightarrow> ptr_reach as_GPUCheckpointList reach_gpu_list h p \<subseteq> allocated h"
    and "run_state (GPUCheckpointList_DeepCopyObject L src) h = (obj, h')"
  shows "case src of None \<Rightarrow> obj = NilObject \<and> h' = h
    | Some p \<Rightarrow> \<exists>q. obj = GPUCheckpointListObject (Some q) \<and>
        independent_copy (ptr_read as_GPUCheckpointList read_gpu_list) (ptr_reach as_GPUCheckpointList reach_gpu_list) h p h' q"
proof -
  obtain dst where run: "run_state (GPUCheckpointList_DeepCopy L src) h = (dst, h')"
    "obj = (if dst \<noteq> None then GPUCheckpointListObject dst else NilObject)"
    using assms(3) by (auto simp: GPUCheckpointList_DeepCopyObject_def split: prod.splits)
  note list_copier = deep_copier_ptr [OF gpu_list_copier [OF assms(1)], where view = as_GPUCheckpointList and mk = CGPUCheckpointList]
  from copy_opt_object [OF list_copier assms(2) run(1) [unfolded GPUCheckpointList_DeepCopy_def]] run(2)
  show ?thesis by (auto split: option.splits)
qed

text \<open>A list with one resource, its metadata labelled and its status with a time and a condition.\<close>

definition one_resource :: heap where
  "one_resource = \<lparr>cells = (\<lambda>a. CNone)(
     0 := CTime 7,
     1 := CConditions [\<lparr>cd_Type = ''Ready'', cd_Status = ''True'', cd_Reason = [], cd_Message = [], cd_LastTransitionTime = 7\<rparr>],
     2 := CLabels [(''app'', ''train'')],
     3 := CGPUCheckpoints [\<lparr>go_TypeMeta = \<lparr>tm_Kind = [], tm_APIVersion = []\<rparr>,
       go_ObjectMeta = \<lparr>mo_Name = ''ck'', mo_Namespace = ''ml'', mo_UID = [], mo_Labels = Some 2, mo_OwnerReferences = None\<rparr>,
       go_Spec = \<lparr>gs_WorkloadRef = \<lparr>wr_Kind = [], wr_Namespace = ''ml'', wr_Name = ''p'', wr_Container = [], wr_NodeInfo = []\<rparr>,
         gs_Storage = empty_storage, gs_Schedule = [], gs_Incremental = False\<rparr>,
       go_Status = \<lparr>gst_Phase = ''Completed'', gst_ObservedNode = [], gst_LastCheckpointTime = Some 0, gst_CheckpointCount = 1,
         gst_LastCheckpointPath = [], gst_Message = [], gst_Conditions = Some 1\<rparr>\<rparr>],
     4 := CGPUCheckpointList \<lparr>gl_TypeMeta = \<lparr>tm_Kind = [], tm_APIVersion = []\<rparr>,
       gl_ListMeta = \<lparr>lm_ResourceVersion = ''1'', lm_Continue = [], lm_RemainingItemCount = None\<rparr>, gl_Items = Some 3\<rparr>),
   lim = 5\<rparr>"

lemma one_resource_closed: "ptr_reach as_GPUCheckpointList reach_gpu_list one_resource 4 \<subseteq> allocated one_resource"
  by (simp add: one_resource_def allocated_def ptr_reach_def reach_gpu_list_def pair_reach_def reach_list_meta_def
      opt_reach_def list_reach_def reach_gpu_def reach_meta_def reach_gpu_status_def value_reach_def)

theorem gpu_list_deep_copy_witness:
  "\<exists>q h'. run_state (GPUCheckpointList_DeepCopyObject std_meta (Some 4)) one_resource = (GPUCheckpointListObject (Some q), h') \<and>
    independent_copy (ptr_read as_GPUCheckpointList read_gpu_list) (ptr_reach as_GPUCheckpointList reach_gpu_list) one_resource 4 h' q"
proof -
  obtain obj h' where run: "run_state (GPUCheckpointList_DeepCopyObject std_meta (Some 4)) one_resource = (obj, h')"
    by fastforce
  from gpu_list_deep_copy [OF std_meta_ok _ run] one_resource_closed run show ?thesis by auto
qed

end
