(* ===== verification/Wc_Deepcopy.thy ===== *)
theory Wc_Deepcopy
  imports Gpu_Deepcopy
begin

text \<open>
  \<^verbatim>\<open>orchestrator/api/v1alpha1/zz_generated.deepcopy.go\<close>: the hand-written deep copies of the WorkloadCheckpoint
  types, over the same heap and library.
\<close>

subsection \<open>The copies\<close>

definition WorkloadTargetRef_DeepCopyInto :: "WorkloadTargetRef \<Rightarrow> WorkloadTargetRef mem" where
  "WorkloadTargetRef_DeepCopyInto src = State_Monad.return src"

definition WorkloadTargetRef_DeepCopy :: "addr option \<Rightarrow> addr option mem" where
  "WorkloadTargetRef_DeepCopy =
    copy_opt (copy_ptr as_WorkloadTargetRef CWorkloadTargetRef WorkloadTargetRef_DeepCopyInto)"

definition WorkloadCheckpointSpec_DeepCopyInto ::
  "meta_lib \<Rightarrow> mWorkloadCheckpointSpec \<Rightarrow> mWorkloadCheckpointSpec mem" where
  "WorkloadCheckpointSpec_DeepCopyInto L src = do {
     let out = src\<lparr>wsp_WorkloadRef := wsp_WorkloadRef src\<rparr>;
     s \<leftarrow> StorageSpec_DeepCopyInto (wsp_Storage src);
     let out = out\<lparr>wsp_Storage := s\<rparr>;
     sel \<leftarrow> copy_opt (ml_LabelSelector L) (wsp_PodSelector src);
     let out = out\<lparr>wsp_PodSelector := sel\<rparr>;
     v \<leftarrow> copy_opt (copy_ptr as_Bool CBool State_Monad.return) (wsp_RequireGPU src);
     State_Monad.return (out\<lparr>wsp_RequireGPU := v\<rparr>) }"

definition WorkloadCheckpointSpec_DeepCopy :: "meta_lib \<Rightarrow> addr option \<Rightarrow> addr option mem" where
  "WorkloadCheckpointSpec_DeepCopy L =
    copy_opt (copy_ptr as_WorkloadCheckpointSpec CWorkloadCheckpointSpec (WorkloadCheckpointSpec_DeepCopyInto L))"

definition TargetStatus_DeepCopyInto :: "TargetStatus \<Rightarrow> TargetStatus mem" where
  "TargetStatus_DeepCopyInto src = State_Monad.return src"

definition TargetStatus_DeepCopy :: "addr option \<Rightarrow> addr option mem" where
  "TargetStatus_DeepCopy = copy_opt (copy_ptr as_TargetStatus CTargetStatus TargetStatus_DeepCopyInto)"

definition WorkloadCheckpointStatus_DeepCopyInto ::
  "meta_lib \<Rightarrow> mWorkloadCheckpointStatus \<Rightarrow> mWorkloadCheckpointStatus mem" where
  "WorkloadCheckpointStatus_DeepCopyInto L src = do {
     let out = src;
     l \<leftarrow> copy_opt (copy_ptr as_Targets CTargets State_Monad.return) (wst_Targets src);
     let out = out\<lparr>wst_Targets := l\<rparr>;
     s \<leftarrow> copy_opt (ml_Time L) (wst_StartTime src);
     let out = out\<lparr>wst_StartTime := s\<rparr>;
     e \<leftarrow> copy_opt (ml_Time L) (wst_CompletionTime src);
     let out = out\<lparr>wst_CompletionTime := e\<rparr>;
     c \<leftarrow> copy_opt (copy_ptr as_Conditions CConditions (copy_each (ml_Condition L))) (wst_Conditions src);
     State_Monad.return (out\<lparr>wst_Conditions := c\<rparr>) }"

definition WorkloadCheckpointStatus_DeepCopy :: "meta_lib \<Rightarrow> addr option \<Rightarrow> addr option mem" where
  "WorkloadCheckpointStatus_DeepCopy L =
    copy_opt (copy_ptr as_WorkloadCheckpointStatus CWorkloadCheckpointStatus (WorkloadCheckpointStatus_DeepCopyInto L))"

definition WorkloadCheckpoint_DeepCopyInto :: "meta_lib \<Rightarrow> mWorkloadCheckpoint \<Rightarrow> mWorkloadCheckpoint mem" where
  "WorkloadCheckpoint_DeepCopyInto L src = do {
     let out = src\<lparr>wo_TypeMeta := wo_TypeMeta src\<rparr>;
     m \<leftarrow> ml_ObjectMeta L (wo_ObjectMeta src);
     let out = out\<lparr>wo_ObjectMeta := m\<rparr>;
     sp \<leftarrow> WorkloadCheckpointSpec_DeepCopyInto L (wo_Spec src);
     let out = out\<lparr>wo_Spec := sp\<rparr>;
     st \<leftarrow> WorkloadCheckpointStatus_DeepCopyInto L (wo_Status src);
     State_Monad.return (out\<lparr>wo_Status := st\<rparr>) }"

definition WorkloadCheckpoint_DeepCopy :: "meta_lib \<Rightarrow> addr option \<Rightarrow> addr option mem" where
  "WorkloadCheckpoint_DeepCopy L =
    copy_opt (copy_ptr as_WorkloadCheckpoint CWorkloadCheckpoint (WorkloadCheckpoint_DeepCopyInto L))"

definition WorkloadCheckpoint_DeepCopyObject :: "meta_lib \<Rightarrow> addr option \<Rightarrow> runtime_Object mem" where
  "WorkloadCheckpoint_DeepCopyObject L src = do {
     c \<leftarrow> WorkloadCheckpoint_DeepCopy L src;
     State_Monad.return (if c \<noteq> None then WorkloadCheckpointObject c else NilObject) }"

definition WorkloadCheckpointList_DeepCopyInto ::
  "meta_lib \<Rightarrow> mWorkloadCheckpointList \<Rightarrow> mWorkloadCheckpointList mem" where
  "WorkloadCheckpointList_DeepCopyInto L src = do {
     let out = src\<lparr>wl_TypeMeta := wl_TypeMeta src\<rparr>;
     m \<leftarrow> ml_ListMeta L (wl_ListMeta src);
     let out = out\<lparr>wl_ListMeta := m\<rparr>;
     l \<leftarrow> copy_opt (copy_ptr as_WorkloadCheckpoints CWorkloadCheckpoints (copy_each (WorkloadCheckpoint_DeepCopyInto L))) (wl_Items src);
     State_Monad.return (out\<lparr>wl_Items := l\<rparr>) }"

definition WorkloadCheckpointList_DeepCopy :: "meta_lib \<Rightarrow> addr option \<Rightarrow> addr option mem" where
  "WorkloadCheckpointList_DeepCopy L =
    copy_opt (copy_ptr as_WorkloadCheckpointList CWorkloadCheckpointList (WorkloadCheckpointList_DeepCopyInto L))"

definition WorkloadCheckpointList_DeepCopyObject :: "meta_lib \<Rightarrow> addr option \<Rightarrow> runtime_Object mem" where
  "WorkloadCheckpointList_DeepCopyObject L src = do {
     c \<leftarrow> WorkloadCheckpointList_DeepCopy L src;
     State_Monad.return (if c \<noteq> None then WorkloadCheckpointListObject c else NilObject) }"

subsection \<open>What the types stand for\<close>

definition read_wc_spec :: "heap \<Rightarrow> mWorkloadCheckpointSpec \<Rightarrow> (LabelSelector, bool) wc_spec" where
  "read_wc_spec h s = \<lparr>wsp_WorkloadRef = wsp_WorkloadRef s, wsp_Action = wsp_Action s, wsp_Storage = value_read h (wsp_Storage s),
     wsp_PodSelector = opt_read (cell_read as_LabelSelector) h (wsp_PodSelector s), wsp_Coordination = wsp_Coordination s,
     wsp_Schedule = wsp_Schedule s, wsp_Incremental = wsp_Incremental s,
     wsp_RequireGPU = opt_read (cell_read as_Bool) h (wsp_RequireGPU s), wsp_MaxConcurrent = wsp_MaxConcurrent s\<rparr>"

definition reach_wc_spec :: "heap \<Rightarrow> mWorkloadCheckpointSpec \<Rightarrow> addr set" where
  "reach_wc_spec h s = pair_reach value_reach
     (pair_reach (opt_reach (cell_reach as_LabelSelector)) (opt_reach (cell_reach as_Bool))) h
     (wsp_Storage s, wsp_PodSelector s, wsp_RequireGPU s)"

definition read_wc_status :: "heap \<Rightarrow> mWorkloadCheckpointStatus \<Rightarrow> (TargetStatus list, go_time, Condition list) wc_status" where
  "read_wc_status h s = \<lparr>wst_Phase = wst_Phase s, wst_ObservedWorkloadKind = wst_ObservedWorkloadKind s, wst_Total = wst_Total s,
     wst_Active = wst_Active s, wst_Completed = wst_Completed s, wst_Failed = wst_Failed s,
     wst_Targets = opt_read (cell_read as_Targets) h (wst_Targets s),
     wst_StartTime = opt_read (cell_read as_Time) h (wst_StartTime s),
     wst_CompletionTime = opt_read (cell_read as_Time) h (wst_CompletionTime s), wst_Message = wst_Message s,
     wst_Conditions = slice_read as_Conditions value_read h (wst_Conditions s)\<rparr>"

definition reach_wc_status :: "heap \<Rightarrow> mWorkloadCheckpointStatus \<Rightarrow> addr set" where
  "reach_wc_status h s = pair_reach (opt_reach (cell_reach as_Targets)) (pair_reach (opt_reach (cell_reach as_Time))
     (pair_reach (opt_reach (cell_reach as_Time)) (slice_reach as_Conditions value_reach))) h
     (wst_Targets s, wst_StartTime s, wst_CompletionTime s, wst_Conditions s)"

definition read_wc :: "heap \<Rightarrow> mWorkloadCheckpoint \<Rightarrow> ((label_set, string list) obj_meta, (LabelSelector, bool) wc_spec,
    (TargetStatus list, go_time, Condition list) wc_status) wc_object" where
  "read_wc h w = \<lparr>wo_TypeMeta = wo_TypeMeta w, wo_ObjectMeta = read_meta h (wo_ObjectMeta w),
     wo_Spec = read_wc_spec h (wo_Spec w), wo_Status = read_wc_status h (wo_Status w)\<rparr>"

definition reach_wc :: "heap \<Rightarrow> mWorkloadCheckpoint \<Rightarrow> addr set" where
  "reach_wc h w = pair_reach reach_meta (pair_reach reach_wc_spec reach_wc_status) h (wo_ObjectMeta w, wo_Spec w, wo_Status w)"

definition read_wc_list :: "heap \<Rightarrow> mWorkloadCheckpointList \<Rightarrow> ((64 word) list_meta, ((label_set, string list) obj_meta,
    (LabelSelector, bool) wc_spec, (TargetStatus list, go_time, Condition list) wc_status) wc_object list) wc_list" where
  "read_wc_list h l = \<lparr>wl_TypeMeta = wl_TypeMeta l, wl_ListMeta = read_list_meta h (wl_ListMeta l),
     wl_Items = slice_read as_WorkloadCheckpoints read_wc h (wl_Items l)\<rparr>"

definition reach_wc_list :: "heap \<Rightarrow> mWorkloadCheckpointList \<Rightarrow> addr set" where
  "reach_wc_list h l = pair_reach reach_list_meta (slice_reach as_WorkloadCheckpoints reach_wc) h (wl_ListMeta l, wl_Items l)"

subsection \<open>They are deep copies\<close>

interpretation target_ref_copy: deep_copier value_read value_reach WorkloadTargetRef_DeepCopyInto
  by unfold_locales (auto simp: WorkloadTargetRef_DeepCopyInto_def value_read_def value_reach_def)

interpretation target_status_copy: deep_copier value_read value_reach TargetStatus_DeepCopyInto
  by unfold_locales (auto simp: TargetStatus_DeepCopyInto_def value_read_def value_reach_def)

lemma wc_spec_copier:
  assumes "meta_lib_ok L"
  shows "deep_copier read_wc_spec reach_wc_spec (WorkloadCheckpointSpec_DeepCopyInto L)"
proof (rule deep_copier_struct [where get = "\<lambda>s. (wsp_Storage s, wsp_PodSelector s, wsp_RequireGPU s)"
      and put = "\<lambda>s p. s\<lparr>wsp_Storage := fst p, wsp_PodSelector := fst (snd p), wsp_RequireGPU := snd (snd p)\<rparr>"
      and view = "\<lambda>s v. \<lparr>wsp_WorkloadRef = wsp_WorkloadRef s, wsp_Action = wsp_Action s, wsp_Storage = fst v,
        wsp_PodSelector = fst (snd v), wsp_Coordination = wsp_Coordination s, wsp_Schedule = wsp_Schedule s,
        wsp_Incremental = wsp_Incremental s, wsp_RequireGPU = snd (snd v), wsp_MaxConcurrent = wsp_MaxConcurrent s\<rparr>"])
  show "deep_copier
      (pair_read value_read (pair_read (opt_read (cell_read as_LabelSelector)) (opt_read (cell_read as_Bool))))
      (pair_reach value_reach (pair_reach (opt_reach (cell_reach as_LabelSelector)) (opt_reach (cell_reach as_Bool))))
      (copy_pair StorageSpec_DeepCopyInto
        (copy_pair (copy_opt (ml_LabelSelector L)) (copy_opt (copy_ptr as_Bool CBool State_Monad.return))))"
    using assms by (intro deep_copier_parts storage_copy.deep_copier_axioms) (simp_all add: meta_lib_ok_def)
qed (auto simp: WorkloadCheckpointSpec_DeepCopyInto_def copy_pair_def read_wc_spec_def reach_wc_spec_def pair_read_def
    split: prod.splits)

lemma wc_status_copier:
  assumes "meta_lib_ok L"
  shows "deep_copier read_wc_status reach_wc_status (WorkloadCheckpointStatus_DeepCopyInto L)"
proof (rule deep_copier_struct [where get = "\<lambda>s. (wst_Targets s, wst_StartTime s, wst_CompletionTime s, wst_Conditions s)"
      and put = "\<lambda>s p. s\<lparr>wst_Targets := fst p, wst_StartTime := fst (snd p), wst_CompletionTime := fst (snd (snd p)),
        wst_Conditions := snd (snd (snd p))\<rparr>"
      and view = "\<lambda>s v. \<lparr>wst_Phase = wst_Phase s, wst_ObservedWorkloadKind = wst_ObservedWorkloadKind s,
        wst_Total = wst_Total s, wst_Active = wst_Active s, wst_Completed = wst_Completed s, wst_Failed = wst_Failed s,
        wst_Targets = fst v, wst_StartTime = fst (snd v), wst_CompletionTime = fst (snd (snd v)),
        wst_Message = wst_Message s, wst_Conditions = snd (snd (snd v))\<rparr>"])
  show "deep_copier
      (pair_read (opt_read (cell_read as_Targets)) (pair_read (opt_read (cell_read as_Time))
        (pair_read (opt_read (cell_read as_Time)) (slice_read as_Conditions value_read))))
      (pair_reach (opt_reach (cell_reach as_Targets)) (pair_reach (opt_reach (cell_reach as_Time))
        (pair_reach (opt_reach (cell_reach as_Time)) (slice_reach as_Conditions value_reach))))
      (copy_pair (copy_opt (copy_ptr as_Targets CTargets State_Monad.return)) (copy_pair (copy_opt (ml_Time L))
        (copy_pair (copy_opt (ml_Time L)) (copy_opt (copy_ptr as_Conditions CConditions (copy_each (ml_Condition L)))))))"
    using assms by (intro deep_copier_parts) (simp_all add: meta_lib_ok_def)
qed (auto simp: WorkloadCheckpointStatus_DeepCopyInto_def copy_pair_def read_wc_status_def reach_wc_status_def pair_read_def
    split: prod.splits)

lemma wc_copier:
  assumes "meta_lib_ok L"
  shows "deep_copier read_wc reach_wc (WorkloadCheckpoint_DeepCopyInto L)"
proof (rule deep_copier_struct [where get = "\<lambda>w. (wo_ObjectMeta w, wo_Spec w, wo_Status w)"
      and put = "\<lambda>w p. w\<lparr>wo_ObjectMeta := fst p, wo_Spec := fst (snd p), wo_Status := snd (snd p)\<rparr>"
      and view = "\<lambda>w v. \<lparr>wo_TypeMeta = wo_TypeMeta w, wo_ObjectMeta = fst v, wo_Spec = fst (snd v), wo_Status = snd (snd v)\<rparr>"])
  show "deep_copier (pair_read read_meta (pair_read read_wc_spec read_wc_status))
      (pair_reach reach_meta (pair_reach reach_wc_spec reach_wc_status))
      (copy_pair (ml_ObjectMeta L) (copy_pair (WorkloadCheckpointSpec_DeepCopyInto L) (WorkloadCheckpointStatus_DeepCopyInto L)))"
    using assms by (intro deep_copier_pair wc_spec_copier wc_status_copier) (simp_all add: meta_lib_ok_def)
qed (auto simp: WorkloadCheckpoint_DeepCopyInto_def copy_pair_def read_wc_def reach_wc_def pair_read_def split: prod.splits)

lemma wc_list_copier:
  assumes "meta_lib_ok L"
  shows "deep_copier read_wc_list reach_wc_list (WorkloadCheckpointList_DeepCopyInto L)"
proof (rule deep_copier_struct [where get = "\<lambda>l. (wl_ListMeta l, wl_Items l)"
      and put = "\<lambda>l p. l\<lparr>wl_ListMeta := fst p, wl_Items := snd p\<rparr>"
      and view = "\<lambda>l v. \<lparr>wl_TypeMeta = wl_TypeMeta l, wl_ListMeta = fst v, wl_Items = snd v\<rparr>"])
  show "deep_copier (pair_read read_list_meta (slice_read as_WorkloadCheckpoints read_wc))
      (pair_reach reach_list_meta (slice_reach as_WorkloadCheckpoints reach_wc))
      (copy_pair (ml_ListMeta L)
        (copy_opt (copy_ptr as_WorkloadCheckpoints CWorkloadCheckpoints (copy_each (WorkloadCheckpoint_DeepCopyInto L)))))"
    using assms by (intro deep_copier_pair deep_copier_opt deep_copier_ptr deep_copier_list wc_copier)
      (simp_all add: meta_lib_ok_def)
qed (auto simp: WorkloadCheckpointList_DeepCopyInto_def copy_pair_def read_wc_list_def reach_wc_list_def pair_read_def
    split: prod.splits)

subsection \<open>Properties\<close>

text \<open>\<^verbatim>\<open>DeepCopyObject\<close> of a WorkloadCheckpointList, and through it the copies of lists, resources, specs
  and statuses: nil gives the nil interface; any other list gives one that reads the same
  (Pod selector, GPU flag, targets, times and conditions included) and shares no memory with
  the original, so that neither sees later writes to the other.\<close>

theorem wc_list_deep_copy:
  assumes "meta_lib_ok L"
    and "\<And>p. src = Some p \<Longrightarrow> ptr_reach as_WorkloadCheckpointList reach_wc_list h p \<subseteq> allocated h"
    and "run_state (WorkloadCheckpointList_DeepCopyObject L src) h = (obj, h')"
  shows "case src of None \<Rightarrow> obj = NilObject \<and> h' = h
    | Some p \<Rightarrow> \<exists>q. obj = WorkloadCheckpointListObject (Some q) \<and>
        independent_copy (ptr_read as_WorkloadCheckpointList read_wc_list) (ptr_reach as_WorkloadCheckpointList reach_wc_list) h p h' q"
proof -
  obtain dst where run: "run_state (WorkloadCheckpointList_DeepCopy L src) h = (dst, h')"
    "obj = (if dst \<noteq> None then WorkloadCheckpointListObject dst else NilObject)"
    using assms(3) by (auto simp: WorkloadCheckpointList_DeepCopyObject_def split: prod.splits)
  note list_copier = deep_copier_ptr [OF wc_list_copier [OF assms(1)],
      where view = as_WorkloadCheckpointList and mk = CWorkloadCheckpointList]
  from copy_opt_object [OF list_copier assms(2) run(1) [unfolded WorkloadCheckpointList_DeepCopy_def]] run(2)
  show ?thesis by (auto split: option.splits)
qed

definition one_workload :: heap where
  "one_workload = \<lparr>cells = (\<lambda>a. CNone)(
     0 := CTime 7,
     1 := CTargets [\<lparr>ts_PodName = ''p'', ts_Node = ''n'', ts_ChildName = ''wc-p'', ts_Phase = [], ts_Path = [], ts_Message = []\<rparr>],
     2 := CBool False,
     3 := CWorkloadCheckpoints [\<lparr>wo_TypeMeta = \<lparr>tm_Kind = [], tm_APIVersion = []\<rparr>,
       wo_ObjectMeta = \<lparr>mo_Name = ''wc'', mo_Namespace = ''ml'', mo_UID = [], mo_Labels = None, mo_OwnerReferences = None\<rparr>,
       wo_Spec = \<lparr>wsp_WorkloadRef = \<lparr>tr_Kind = ''Job'', tr_Namespace = ''ml'', tr_Name = ''j'', tr_Container = []\<rparr>,
         wsp_Action = ''Checkpoint'', wsp_Storage = empty_storage, wsp_PodSelector = None, wsp_Coordination = [],
         wsp_Schedule = [], wsp_Incremental = False, wsp_RequireGPU = Some 2, wsp_MaxConcurrent = 0\<rparr>,
       wo_Status = \<lparr>wst_Phase = [], wst_ObservedWorkloadKind = [], wst_Total = 1, wst_Active = 1, wst_Completed = 0,
         wst_Failed = 0, wst_Targets = Some 1, wst_StartTime = Some 0, wst_CompletionTime = None, wst_Message = [],
         wst_Conditions = None\<rparr>\<rparr>],
     4 := CWorkloadCheckpointList \<lparr>wl_TypeMeta = \<lparr>tm_Kind = [], tm_APIVersion = []\<rparr>,
       wl_ListMeta = \<lparr>lm_ResourceVersion = ''1'', lm_Continue = [], lm_RemainingItemCount = None\<rparr>, wl_Items = Some 3\<rparr>),
   lim = 5\<rparr>"

lemma one_workload_closed: "ptr_reach as_WorkloadCheckpointList reach_wc_list one_workload 4 \<subseteq> allocated one_workload"
  by (simp add: one_workload_def allocated_def ptr_reach_def reach_wc_list_def pair_reach_def reach_list_meta_def
      opt_reach_def list_reach_def reach_wc_def reach_meta_def reach_wc_spec_def reach_wc_status_def value_reach_def)

theorem wc_list_deep_copy_witness:
  "\<exists>q h'. run_state (WorkloadCheckpointList_DeepCopyObject std_meta (Some 4)) one_workload = (WorkloadCheckpointListObject (Some q), h') \<and>
    independent_copy (ptr_read as_WorkloadCheckpointList read_wc_list) (ptr_reach as_WorkloadCheckpointList reach_wc_list) one_workload 4 h' q"
proof -
  obtain obj h' where run: "run_state (WorkloadCheckpointList_DeepCopyObject std_meta (Some 4)) one_workload = (obj, h')"
    by fastforce
  from wc_list_deep_copy [OF std_meta_ok _ run] one_workload_closed run show ?thesis by auto
qed

end
