(* ===== verification/Hook_State.thy ===== *)
theory Hook_State
  imports Interceptor_Mgr
begin

text \<open>
  The state of the in-Pod interceptor, \<^verbatim>\<open>interceptor/preload.c\<close>, and what it calls. The CUDA
  driver and runtime are not part of the program: they are the parameter \<open>C\<close> of type \<open>cuda\<close>, one
  function per entry point the interceptor resolves, over an opaque device state \<open>'d\<close> and the
  memory the interceptor shares with the device (the device's address space and the two staging
  buffers). The predicates \<open>copy_docs\<close> and \<open>vmm_docs\<close> state what the CUDA documentation says of
  these entry points, and \<open>no_errors\<close> that they return success. Files are the contents of the
  node's files, as in the agent's world; libc and the scheduler are the parameter \<open>L\<close>, which says
  of every call, by its number, whether it fails, and in which order the pieces of a
  multi-threaded copy are done. The flag \<open>h_fault\<close> is set when the code does what C leaves undefined: a call
  through a null function pointer or an access outside the mapped blob.
\<close>

type_synonym size_t = "64 word"
type_synonym dptr = "64 word"
type_synonym mem_handle = "64 word"

record mem_prop =
  mp_type :: int
  mp_requestedHandleTypes :: int
  mp_location_type :: int
  mp_location_id :: int

record access_desc =
  ad_location_type :: int
  ad_location_id :: int
  ad_flags :: int

text \<open>
  Memory the device and the interceptor share: the bytes of the mapped device addresses, and the
  staging buffers \<^verbatim>\<open>g_stageA\<close> (\<open>False\<close>) and \<^verbatim>\<open>g_stageB\<close> (\<open>True\<close>).
\<close>

record gpu_mem =
  m_dev :: "dptr \<Rightarrow> char option"
  m_stage :: "bool \<Rightarrow> nat \<Rightarrow> char"

text \<open>A transfer between a staging buffer and the device.\<close>

datatype dma = D2H bool dptr nat | H2D dptr bool nat

fun run_dma :: "dma \<Rightarrow> gpu_mem \<Rightarrow> gpu_mem" where
  "run_dma (D2H b va n) m = m\<lparr>m_stage := (m_stage m)(b := (\<lambda>i.
     if i < n then (case m_dev m (va + of_nat i) of Some c \<Rightarrow> c | None \<Rightarrow> m_stage m b i) else m_stage m b i))\<rparr>"
| "run_dma (H2D va b n) m = m\<lparr>m_dev := (\<lambda>x.
     if unat (x - va) < n \<and> m_dev m x \<noteq> None then Some (m_stage m b (unat (x - va))) else m_dev m x)\<rparr>"

type_synonym ('r, 'd) cu = "gpu_mem \<Rightarrow> 'd \<Rightarrow> 'r \<times> gpu_mem \<times> 'd"

record 'd cuda =
  cu_has :: "'d \<Rightarrow> string \<Rightarrow> bool"
  cuMemGetAllocationGranularity :: "mem_prop \<Rightarrow> (int \<times> size_t, 'd) cu"
  cuMemAddressReserve :: "size_t \<Rightarrow> size_t \<Rightarrow> dptr \<Rightarrow> 64 word \<Rightarrow> (int \<times> dptr, 'd) cu"
  cuMemCreate :: "size_t \<Rightarrow> mem_prop option \<Rightarrow> 64 word \<Rightarrow> (int \<times> mem_handle, 'd) cu"
  cuMemMap :: "dptr \<Rightarrow> size_t \<Rightarrow> size_t \<Rightarrow> mem_handle \<Rightarrow> 64 word \<Rightarrow> (int, 'd) cu"
  cuMemSetAccess :: "dptr \<Rightarrow> size_t \<Rightarrow> access_desc \<Rightarrow> (int, 'd) cu"
  cuMemUnmap :: "dptr \<Rightarrow> size_t \<Rightarrow> (int, 'd) cu"
  cuMemRelease :: "mem_handle \<Rightarrow> (int, 'd) cu"
  cuMemAddressFree :: "dptr \<Rightarrow> size_t \<Rightarrow> (int, 'd) cu"
  cudaGetDevice :: "(int \<times> int, 'd) cu"
  cudaSetDevice :: "int \<Rightarrow> (int, 'd) cu"
  cudaDeviceSynchronize :: "(int, 'd) cu"
  cudaMemcpy :: "dma \<Rightarrow> (int, 'd) cu"
  cudaHostAlloc :: "bool \<Rightarrow> size_t \<Rightarrow> (int, 'd) cu"
  cudaMemcpyAsync :: "dma \<Rightarrow> (int, 'd) cu"
  cudaStreamCreate :: "(int \<times> bool, 'd) cu"
  cudaStreamDestroy :: "(int, 'd) cu"
  cudaStreamSynchronize :: "(int, 'd) cu"
  cudaEventCreate :: "bool \<Rightarrow> (int, 'd) cu"
  cudaEventDestroy :: "bool \<Rightarrow> (int, 'd) cu"
  cudaEventRecord :: "bool \<Rightarrow> (int, 'd) cu"
  cudaEventSynchronize :: "bool \<Rightarrow> (int, 'd) cu"
  real_malloc :: "string \<Rightarrow> size_t \<Rightarrow> 64 word \<Rightarrow> (int \<times> dptr, 'd) cu"
  real_free :: "string \<Rightarrow> dptr \<Rightarrow> 64 word \<Rightarrow> (int, 'd) cu"

subsection \<open>What the CUDA documentation says\<close>

text \<open>
  Observers of the opaque device state: the transfers of the interceptor's stream that are not
  done yet, the number of transfers done, for each of the two events the number of transfers
  queued before it was recorded, and the address ranges that are reserved.
\<close>

record 'd obs =
  ob_queue :: "'d \<Rightarrow> dma list"
  ob_done :: "'d \<Rightarrow> nat"
  ob_event :: "'d \<Rightarrow> bool \<Rightarrow> nat"
  ob_reserved :: "'d \<Rightarrow> (dptr \<times> size_t) set"

definition run_dmas :: "dma list \<Rightarrow> gpu_mem \<Rightarrow> gpu_mem" where
  "run_dmas = fold run_dma"

text \<open>The device works off the stream in order, as far as it likes.\<close>

definition progress :: "'d obs \<Rightarrow> dma list \<Rightarrow> gpu_mem \<Rightarrow> 'd \<Rightarrow> gpu_mem \<Rightarrow> 'd \<Rightarrow> bool" where
  "progress V q m d m' d' \<longleftrightarrow>
    (\<exists>k \<le> length q. m' = run_dmas (take k q) m \<and> ob_queue V d' = drop k q \<and>
      ob_done V d' = ob_done V d + k)"

text \<open>
  Streams and events: a transfer that was accepted is queued; a recorded event stands for all
  the transfers queued so far; waiting for it returns when these are done. A synchronous copy
  with nothing queued moves the bytes before it returns.
\<close>

definition copy_docs :: "'d obs \<Rightarrow> 'd cuda \<Rightarrow> bool" where
  "copy_docs V C \<longleftrightarrow>
    (\<forall>op m d m' d'. cudaMemcpyAsync C op m d = (0, m', d') \<longrightarrow>
       progress V (ob_queue V d @ [op]) m d m' d' \<and> ob_event V d' = ob_event V d) \<and>
    (\<forall>b m d m' d'. cudaEventRecord C b m d = (0, m', d') \<longrightarrow>
       progress V (ob_queue V d) m d m' d' \<and>
       ob_event V d' = (ob_event V d)(b := ob_done V d + length (ob_queue V d))) \<and>
    (\<forall>b m d m' d'. cudaEventSynchronize C b m d = (0, m', d') \<longrightarrow>
       progress V (ob_queue V d) m d m' d' \<and> ob_event V d' = ob_event V d \<and>
       ob_event V d b \<le> ob_done V d') \<and>
    (\<forall>op m d m' d'. ob_queue V d = [] \<longrightarrow> cudaMemcpy C op m d = (0, m', d') \<longrightarrow>
       m' = run_dma op m \<and> ob_queue V d' = [])"

text \<open>
  The calls that move no data leave an idle stream idle and the device's memory alone.
\<close>

definition keeps_device :: "'d obs \<Rightarrow> ('r, 'd) cu \<Rightarrow> bool" where
  "keeps_device V f \<longleftrightarrow>
    (\<forall>m d. ob_queue V d = [] \<longrightarrow>
      m_dev (fst (snd (f m d))) = m_dev m \<and> ob_queue V (snd (snd (f m d))) = [])"

definition control_docs :: "'d obs \<Rightarrow> 'd cuda \<Rightarrow> bool" where
  "control_docs V C \<longleftrightarrow>
    (\<forall>n. keeps_device V (cudaSetDevice C n)) \<and> keeps_device V (cudaDeviceSynchronize C) \<and>
    keeps_device V (cudaStreamCreate C) \<and> keeps_device V (cudaStreamDestroy C) \<and>
    keeps_device V (cudaStreamSynchronize C) \<and>
    (\<forall>b. keeps_device V (cudaEventCreate C b) \<and> keeps_device V (cudaEventDestroy C b)) \<and>
    (\<forall>b n. keeps_device V (cudaHostAlloc C b n)) \<and>
    (\<forall>n p fl. keeps_device V (cuMemCreate C n p fl)) \<and> (\<forall>a. keeps_device V (cuMemRelease C a))"

text \<open>
  Mapping, unmapping and granting access change the device's address space within the range
  they name; a range that access was granted to can be read and written.
\<close>

definition within :: "dptr \<Rightarrow> size_t \<Rightarrow> dptr \<Rightarrow> bool" where
  "within va n x \<longleftrightarrow> x - va < n"

definition changes_within :: "'d obs \<Rightarrow> dptr \<Rightarrow> size_t \<Rightarrow> (int, 'd) cu \<Rightarrow> bool" where
  "changes_within V va n f \<longleftrightarrow>
    (\<forall>m d. ob_queue V d = [] \<longrightarrow>
      (\<forall>x. \<not> within va n x \<longrightarrow> m_dev (fst (snd (f m d))) x = m_dev m x) \<and>
      ob_queue V (snd (snd (f m d))) = [])"

definition vmm_docs :: "'d obs \<Rightarrow> 'd cuda \<Rightarrow> bool" where
  "vmm_docs V C \<longleftrightarrow>
    (\<forall>va n. changes_within V va n (cuMemUnmap C va n)) \<and>
    (\<forall>va n off a fl. changes_within V va n (cuMemMap C va n off a fl)) \<and>
    (\<forall>va n p. changes_within V va n (cuMemSetAccess C va n p)) \<and>
    (\<forall>va n p m d m' d' x. cuMemSetAccess C va n p m d = (0, m', d') \<longrightarrow> within va n x \<longrightarrow> m_dev m' x \<noteq> None)"

text \<open>
  Reserving gives a range apart from all that are reserved; freeing a range releases no other;
  nothing else changes the reservations. The allocation granularity is far below \<open>2 ^ 32\<close>.
\<close>

definition same_reserved :: "'d obs \<Rightarrow> ('r, 'd) cu \<Rightarrow> bool" where
  "same_reserved V f \<longleftrightarrow> (\<forall>m d. ob_reserved V (snd (snd (f m d))) = ob_reserved V d)"

definition reserve_docs :: "'d obs \<Rightarrow> 'd cuda \<Rightarrow> bool" where
  "reserve_docs V C \<longleftrightarrow>
    (\<forall>n m d va m' d'. cuMemAddressReserve C n 0 0 0 m d = ((0, va), m', d') \<longrightarrow>
       ob_reserved V d' = insert (va, n) (ob_reserved V d) \<and>
       (\<forall>(a, k) \<in> ob_reserved V d. \<forall>x. \<not> (within a k x \<and> within va n x))) \<and>
    (\<forall>n m d. fst (fst (cuMemAddressReserve C n 0 0 0 m d)) \<noteq> 0 \<longrightarrow>
       ob_reserved V (snd (snd (cuMemAddressReserve C n 0 0 0 m d))) = ob_reserved V d) \<and>
    (\<forall>va n m d. ob_reserved V d - {(va, n)} \<subseteq> ob_reserved V (snd (snd (cuMemAddressFree C va n m d))) \<and>
       ob_reserved V (snd (snd (cuMemAddressFree C va n m d))) \<subseteq> ob_reserved V d) \<and>
    (\<forall>n. keeps_device V (cuMemAddressReserve C n 0 0 0)) \<and>
    (\<forall>va n. keeps_device V (cuMemAddressFree C va n)) \<and>
    keeps_device V (cudaGetDevice C) \<and> (\<forall>p. keeps_device V (cuMemGetAllocationGranularity C p)) \<and>
    same_reserved V (cudaGetDevice C) \<and> (\<forall>p. same_reserved V (cuMemGetAllocationGranularity C p)) \<and>
    (\<forall>n p fl. same_reserved V (cuMemCreate C n p fl)) \<and> (\<forall>a. same_reserved V (cuMemRelease C a)) \<and>
    (\<forall>va n off a fl. same_reserved V (cuMemMap C va n off a fl)) \<and>
    (\<forall>va n p. same_reserved V (cuMemSetAccess C va n p)) \<and> (\<forall>va n. same_reserved V (cuMemUnmap C va n)) \<and>
    (\<forall>p m d. snd (fst (cuMemGetAllocationGranularity C p m d)) < 2 ^ 32)"

text \<open>A device that reports no errors.\<close>

definition succeeds :: "(int, 'd) cu \<Rightarrow> bool" where
  "succeeds f \<longleftrightarrow> (\<forall>m d. fst (f m d) = 0)"

definition no_copy_errors :: "'d cuda \<Rightarrow> bool" where
  "no_copy_errors C \<longleftrightarrow>
    (\<forall>op. succeeds (cudaMemcpyAsync C op) \<and> succeeds (cudaMemcpy C op)) \<and>
    (\<forall>b. succeeds (cudaEventRecord C b) \<and> succeeds (cudaEventSynchronize C b))"

definition no_vmm_errors :: "'d cuda \<Rightarrow> bool" where
  "no_vmm_errors C \<longleftrightarrow>
    (\<forall>n p fl m d. fst (fst (cuMemCreate C n p fl m d)) = 0) \<and>
    (\<forall>va n off a fl. succeeds (cuMemMap C va n off a fl)) \<and> (\<forall>va n p. succeeds (cuMemSetAccess C va n p))"

subsection \<open>The interceptor's state\<close>

record gcr_alloc =
  al_ptr :: dptr
  al_size :: size_t
  al_live :: bool

record phys =
  ph_handle :: mem_handle
  ph_size :: size_t
  ph_prop :: mem_prop
  ph_live :: bool

record seg =
  sg_va :: dptr
  sg_size :: size_t
  sg_offset :: size_t
  sg_handle :: mem_handle
  sg_live :: bool

record owned =
  ow_va :: dptr
  ow_padded :: size_t
  ow_req :: size_t
  ow_handle :: mem_handle
  ow_prop :: mem_prop
  ow_live :: bool
  ow_blob_off :: size_t
  ow_frozen :: bool

text \<open>
  The registries are arrays with a fill count that only grows: the used part of each is a list.
  \<open>h_ptrs\<close> are the function pointers that are not null, by the name of the variable; \<open>h_stageA\<close>
  and \<open>h_stageB\<close> say whether the staging buffers exist, and \<open>h_blob\<close> whether the blob file is
  mapped, \<open>h_blob_fd\<close> whether it is open. \<open>h_in_remap\<close> is the watcher thread's copy of the
  thread-local \<^verbatim>\<open>g_in_remap\<close>.
\<close>

record 'd hook =
  h_ctrl_path :: string
  h_info_path :: string
  h_data_dir :: string
  h_allocs :: "gcr_alloc list"
  h_phys :: "phys list"
  h_seg :: "seg list"
  h_owned :: "owned list"
  h_gate :: bool
  h_in_remap :: bool
  h_ptrs :: "string list"
  h_stageA :: bool
  h_stageB :: bool
  h_blob :: bool
  h_blob_size :: size_t
  h_blob_fd :: bool
  h_files :: files
  h_calls :: nat
  h_fault :: bool
  h_mem :: gpu_mem
  h_dev :: 'd

record libc =
  lc_fails :: "nat \<Rightarrow> bool"
  lc_order :: "(size_t \<times> size_t) list \<Rightarrow> (size_t \<times> size_t) list"

definition gpu_call :: "('r, 'd) cu \<Rightarrow> 'd hook \<Rightarrow> 'r \<times> 'd hook" where
  "gpu_call f h = (case f (h_mem h) (h_dev h) of (r, m, d) \<Rightarrow> (r, h\<lparr>h_mem := m, h_dev := d\<rparr>))"

abbreviation looked_up :: "'d hook \<Rightarrow> string \<Rightarrow> bool" where
  "looked_up h p \<equiv> p \<in> set (h_ptrs h)"

text \<open>A call through a pointer the code does not check, and one it checks first.\<close>

definition call_ptr :: "string \<Rightarrow> 'r \<Rightarrow> ('r, 'd) cu \<Rightarrow> 'd hook \<Rightarrow> 'r \<times> 'd hook" where
  "call_ptr p dflt f h = (if looked_up h p then gpu_call f h else (dflt, h\<lparr>h_fault := True\<rparr>))"

definition call_opt :: "string \<Rightarrow> ('r, 'd) cu \<Rightarrow> 'd hook \<Rightarrow> 'd hook" where
  "call_opt p f h = (if looked_up h p then snd (gpu_call f h) else h)"

text \<open>A libc call that may fail.\<close>

definition libc_call :: "libc \<Rightarrow> 'd hook \<Rightarrow> bool \<times> 'd hook" where
  "libc_call L h = (\<not> lc_fails L (h_calls h), h\<lparr>h_calls := Suc (h_calls h)\<rparr>)"

text \<open>\<^verbatim>\<open>dlsym\<close> for the pointers that are still null.\<close>

definition resolve :: "'d cuda \<Rightarrow> string list \<Rightarrow> 'd hook \<Rightarrow> 'd hook" where
  "resolve C ps h = h\<lparr>h_ptrs := h_ptrs h @ filter (\<lambda>p. \<not> looked_up h p \<and> cu_has C (h_dev h) p) ps\<rparr>"

end
