(* ===== verification/Hook_Alloc.thy ===== *)
theory Hook_Alloc
  imports Hook_State
begin

text \<open>
  The registries of \<^verbatim>\<open>interceptor/preload.c\<close>, its VMM-backed allocator and the memory entry points
  it interposes.
\<close>

definition GCR_MAX_ALLOCS :: nat where "GCR_MAX_ALLOCS = 65536"
definition GCR_MAX_VMM :: nat where "GCR_MAX_VMM = 131072"

subsection \<open>Registries\<close>

definition reg_add :: "dptr \<Rightarrow> size_t \<Rightarrow> 'd hook \<Rightarrow> 'd hook" where
  "reg_add ptr n h =
    (if ptr = 0 then h
     else if length (h_allocs h) < GCR_MAX_ALLOCS
       then h\<lparr>h_allocs := h_allocs h @ [\<lparr>al_ptr = ptr, al_size = n, al_live = True\<rparr>]\<rparr>
       else h)"

text \<open>The scan for the first matching entry, which the three deletions and the free share.\<close>

fun update_first :: "('a \<Rightarrow> bool) \<Rightarrow> ('a \<Rightarrow> 'a) \<Rightarrow> 'a list \<Rightarrow> 'a list" where
  "update_first P f [] = []"
| "update_first P f (x # xs) = (if P x then f x # xs else x # update_first P f xs)"

definition reg_del :: "dptr \<Rightarrow> 'd hook \<Rightarrow> 'd hook" where
  "reg_del ptr h =
    (if ptr = 0 then h
     else h\<lparr>h_allocs := update_first (\<lambda>a. al_live a \<and> al_ptr a = ptr) (al_live_update (\<lambda>_. False)) (h_allocs h)\<rparr>)"

definition zero_prop :: mem_prop where
  "zero_prop = \<lparr>mp_type = 0, mp_requestedHandleTypes = 0, mp_location_type = 0, mp_location_id = 0\<rparr>"

definition vmm_phys_add :: "mem_handle \<Rightarrow> size_t \<Rightarrow> mem_prop option \<Rightarrow> 'd hook \<Rightarrow> 'd hook" where
  "vmm_phys_add a n prop h =
    (if length (h_phys h) < GCR_MAX_VMM
     then h\<lparr>h_phys := h_phys h @ [\<lparr>ph_handle = a, ph_size = n,
            ph_prop = (case prop of Some p \<Rightarrow> p | None \<Rightarrow> zero_prop), ph_live = True\<rparr>]\<rparr>
     else h)"

definition vmm_seg_add :: "dptr \<Rightarrow> size_t \<Rightarrow> size_t \<Rightarrow> mem_handle \<Rightarrow> 'd hook \<Rightarrow> 'd hook" where
  "vmm_seg_add va n off a h =
    (if length (h_seg h) < GCR_MAX_VMM
     then h\<lparr>h_seg := h_seg h @ [\<lparr>sg_va = va, sg_size = n, sg_offset = off, sg_handle = a, sg_live = True\<rparr>]\<rparr>
     else h)"

definition vmm_seg_del :: "dptr \<Rightarrow> 'd hook \<Rightarrow> 'd hook" where
  "vmm_seg_del va h =
    h\<lparr>h_seg := update_first (\<lambda>s. sg_live s \<and> sg_va s = va) (sg_live_update (\<lambda>_. False)) (h_seg h)\<rparr>"

definition vmm_phys_del :: "mem_handle \<Rightarrow> 'd hook \<Rightarrow> 'd hook" where
  "vmm_phys_del a h =
    h\<lparr>h_phys := update_first (\<lambda>p. ph_live p \<and> ph_handle p = a) (ph_live_update (\<lambda>_. False)) (h_phys h)\<rparr>"

subsection \<open>The allocator\<close>

definition CU_MEM_ALLOCATION_TYPE_PINNED :: int where "CU_MEM_ALLOCATION_TYPE_PINNED = 1"
definition CU_MEM_LOCATION_TYPE_DEVICE :: int where "CU_MEM_LOCATION_TYPE_DEVICE = 1"
definition CU_MEM_ACCESS_FLAGS_PROT_READWRITE :: int where "CU_MEM_ACCESS_FLAGS_PROT_READWRITE = 3"

definition gcr_vmm_enabled :: "(string \<Rightarrow> string option) \<Rightarrow> bool" where
  "gcr_vmm_enabled getenv =
    (case getenv ''GCR_VMM_ALLOC'' of Some (c # cs) \<Rightarrow> c = CHR ''1'' | _ \<Rightarrow> False)"

text \<open>The fill count, which includes the freed entries.\<close>

definition gcr_owned_count :: "'d hook \<Rightarrow> nat" where
  "gcr_owned_count h = length (h_owned h)"

definition vmm_ptrs :: "string list" where
  "vmm_ptrs = [''r_cuMemGetAllocationGranularity'', ''r_cuMemAddressReserve'', ''r_cuMemCreate'', ''r_cuMemMap'',
     ''r_cuMemSetAccess'', ''r_cuMemUnmap2'', ''r_cuMemRelease2'', ''r_cuMemAddressFree2'', ''r_cudaGetDevice'']"

definition resolve_vmm_real :: "'d cuda \<Rightarrow> 'd hook \<Rightarrow> 'd hook" where
  "resolve_vmm_real C h = resolve C vmm_ptrs h"

text \<open>The size of the mapping, in 64-bit arithmetic.\<close>

definition padded_size :: "size_t \<Rightarrow> size_t \<Rightarrow> size_t" where
  "padded_size n gran =
    (let padded = ((n + gran - 1) div gran) * gran in if padded = 0 then gran else padded)"

definition rw_access :: "int \<Rightarrow> access_desc" where
  "rw_access dev = \<lparr>ad_location_type = CU_MEM_LOCATION_TYPE_DEVICE, ad_location_id = dev,
     ad_flags = CU_MEM_ACCESS_FLAGS_PROT_READWRITE\<rparr>"

definition own :: "dptr \<Rightarrow> size_t \<Rightarrow> size_t \<Rightarrow> mem_handle \<Rightarrow> mem_prop \<Rightarrow> 'd hook \<Rightarrow> 'd hook" where
  "own va padded n a prop h =
    (if length (h_owned h) < GCR_MAX_VMM
     then h\<lparr>h_owned := h_owned h @ [\<lparr>ow_va = va, ow_padded = padded, ow_req = n, ow_handle = a, ow_prop = prop,
            ow_live = True, ow_blob_off = 0, ow_frozen = False\<rparr>]\<rparr>
     else h)"

definition granule :: "size_t \<Rightarrow> size_t" where
  "granule gran0 = (if gran0 = 0 then push_bit 20 2 else gran0)"

definition device_prop :: "int \<Rightarrow> mem_prop" where
  "device_prop dev = zero_prop\<lparr>mp_type := CU_MEM_ALLOCATION_TYPE_PINNED,
     mp_location_type := CU_MEM_LOCATION_TYPE_DEVICE, mp_location_id := dev\<rparr>"

definition current_device :: "'d cuda \<Rightarrow> 'd hook \<Rightarrow> int \<times> 'd hook" where
  "current_device C h =
    (if looked_up h ''r_cudaGetDevice''
     then (case gpu_call (cudaGetDevice C) h of ((rc, dev), h) \<Rightarrow> (dev, h)) else (0, h))"

text \<open>The second half of \<^verbatim>\<open>gcr_vmm_alloc\<close>: address range, mapping, access, registration.\<close>

definition map_range :: "'d cuda \<Rightarrow> size_t \<Rightarrow> size_t \<Rightarrow> mem_handle \<Rightarrow> mem_prop \<Rightarrow> int \<Rightarrow> 'd hook \<Rightarrow> dptr option \<times> 'd hook" where
  "map_range C n padded a prop dev h =
    (let ((rc, va), h) = gpu_call (cuMemAddressReserve C padded 0 0 0) h
       in if rc \<noteq> 0 then (None, snd (call_ptr ''r_cuMemRelease2'' 0 (cuMemRelease C a) h)) else
       let (rc, h) = gpu_call (cuMemMap C va padded 0 a 0) h
       in if rc \<noteq> 0 then
         (let h = snd (call_ptr ''r_cuMemAddressFree2'' 0 (cuMemAddressFree C va padded) h)
          in (None, snd (call_ptr ''r_cuMemRelease2'' 0 (cuMemRelease C a) h))) else
       let (rc, h) = gpu_call (cuMemSetAccess C va padded (rw_access dev)) h
       in if rc \<noteq> 0 then
         (let h = snd (call_ptr ''r_cuMemUnmap2'' 0 (cuMemUnmap C va padded) h);
              h = snd (call_ptr ''r_cuMemAddressFree2'' 0 (cuMemAddressFree C va padded) h)
          in (None, snd (call_ptr ''r_cuMemRelease2'' 0 (cuMemRelease C a) h))) else
       (Some va, own va padded n a prop h))"

definition gcr_vmm_alloc :: "'d cuda \<Rightarrow> size_t \<Rightarrow> 'd hook \<Rightarrow> dptr option \<times> 'd hook" where
  "gcr_vmm_alloc C n h0 =
    (let h = resolve_vmm_real C h0 in
     if \<not> looked_up h ''r_cuMemCreate'' \<or> \<not> looked_up h ''r_cuMemMap'' \<or> \<not> looked_up h ''r_cuMemAddressReserve'' \<or>
        \<not> looked_up h ''r_cuMemSetAccess'' \<or> \<not> looked_up h ''r_cuMemGetAllocationGranularity''
     then (None, h)
     else case current_device C h of
       (dev, h) \<Rightarrow> (case gpu_call (cuMemGetAllocationGranularity C (device_prop dev)) h of
         ((rg, gran0), h) \<Rightarrow> (case gpu_call (cuMemCreate C (padded_size n (granule gran0)) (Some (device_prop dev)) 0) h of
           ((rc, a), h) \<Rightarrow>
             if rc \<noteq> 0 then (None, h)
             else map_range C n (padded_size n (granule gran0)) a (device_prop dev) dev h)))"

text \<open>\<open>True\<close> when the pointer was one of the allocator's own.\<close>

definition gcr_vmm_free :: "'d cuda \<Rightarrow> dptr \<Rightarrow> 'd hook \<Rightarrow> bool \<times> 'd hook" where
  "gcr_vmm_free C va h =
    (case find (\<lambda>s. ow_live s \<and> ow_va s = va) (h_owned h) of
       None \<Rightarrow> (False, h)
     | Some s \<Rightarrow>
         (let h = call_opt ''r_cuMemUnmap2'' (cuMemUnmap C (ow_va s) (ow_padded s)) h;
              h = call_opt ''r_cuMemRelease2'' (cuMemRelease C (ow_handle s)) h;
              h = call_opt ''r_cuMemAddressFree2'' (cuMemAddressFree C (ow_va s) (ow_padded s)) h
          in (True, h\<lparr>h_owned := update_first (\<lambda>s. ow_live s \<and> ow_va s = va) (ow_live_update (\<lambda>_. False)) (h_owned h)\<rparr>)))"

subsection \<open>The interposed entry points\<close>

text \<open>
  A call through to the real entry point, whose pointer is looked up on first use. \<open>out\<close> says
  whether the caller's result pointer is not null.
\<close>

definition real_alloc :: "'d cuda \<Rightarrow> string \<Rightarrow> bool \<Rightarrow> size_t \<Rightarrow> 64 word \<Rightarrow> 'd hook \<Rightarrow> (int \<times> dptr) \<times> 'd hook" where
  "real_alloc C p out n stream h =
    (case call_ptr p (1, 0) (real_malloc C p n stream) (resolve C [p] h) of
       ((rc, ptr), h) \<Rightarrow> ((rc, ptr), if rc = 0 \<and> out then reg_add ptr n h else h))"

definition real_dealloc :: "'d cuda \<Rightarrow> string \<Rightarrow> dptr \<Rightarrow> 64 word \<Rightarrow> 'd hook \<Rightarrow> int \<times> 'd hook" where
  "real_dealloc C p ptr stream h = call_ptr p 1 (real_free C p ptr stream) (reg_del ptr (resolve C [p] h))"

definition cudaMalloc :: "'d cuda \<Rightarrow> (string \<Rightarrow> string option) \<Rightarrow> bool \<Rightarrow> size_t \<Rightarrow> 'd hook \<Rightarrow> (int \<times> dptr) \<times> 'd hook" where
  "cudaMalloc C getenv out n h =
    (if gcr_vmm_enabled getenv \<and> out \<and> n \<noteq> 0 then
       (case gcr_vmm_alloc C n h of
          (Some va, h) \<Rightarrow> ((0, va), h)
        | (None, h) \<Rightarrow> real_alloc C ''real_cudaMalloc'' out n 0 h)
     else real_alloc C ''real_cudaMalloc'' out n 0 h)"

definition cudaFree :: "'d cuda \<Rightarrow> dptr \<Rightarrow> 'd hook \<Rightarrow> int \<times> 'd hook" where
  "cudaFree C ptr h =
    (if ptr \<noteq> 0 then
       (case gcr_vmm_free C ptr h of
          (True, h) \<Rightarrow> (0, h)
        | (False, h) \<Rightarrow> real_dealloc C ''real_cudaFree'' ptr 0 h)
     else real_dealloc C ''real_cudaFree'' ptr 0 h)"

definition cuMemAlloc_v2 :: "'d cuda \<Rightarrow> bool \<Rightarrow> size_t \<Rightarrow> 'd hook \<Rightarrow> (int \<times> dptr) \<times> 'd hook" where
  "cuMemAlloc_v2 C out n h = real_alloc C ''real_cuMemAlloc'' out n 0 h"

definition cuMemFree_v2 :: "'d cuda \<Rightarrow> dptr \<Rightarrow> 'd hook \<Rightarrow> int \<times> 'd hook" where
  "cuMemFree_v2 C ptr h = real_dealloc C ''real_cuMemFree'' ptr 0 h"

definition cudaMallocAsync :: "'d cuda \<Rightarrow> bool \<Rightarrow> size_t \<Rightarrow> 64 word \<Rightarrow> 'd hook \<Rightarrow> (int \<times> dptr) \<times> 'd hook" where
  "cudaMallocAsync C out n stream h = real_alloc C ''real_cudaMallocAsync'' out n stream h"

definition cudaFreeAsync :: "'d cuda \<Rightarrow> dptr \<Rightarrow> 64 word \<Rightarrow> 'd hook \<Rightarrow> int \<times> 'd hook" where
  "cudaFreeAsync C ptr stream h = real_dealloc C ''real_cudaFreeAsync'' ptr stream h"

definition hook_cuMemCreate ::
  "'d cuda \<Rightarrow> bool \<Rightarrow> size_t \<Rightarrow> mem_prop option \<Rightarrow> 64 word \<Rightarrow> 'd hook \<Rightarrow> (int \<times> mem_handle) \<times> 'd hook" where
  "hook_cuMemCreate C out n prop flags h =
    (case call_ptr ''real_cuMemCreate'' (1, 0) (cuMemCreate C n prop flags) (resolve C [''real_cuMemCreate''] h) of
       ((rc, a), h) \<Rightarrow> ((rc, a), if rc = 0 \<and> out then vmm_phys_add a n prop h else h))"

definition hook_cuMemMap ::
  "'d cuda \<Rightarrow> dptr \<Rightarrow> size_t \<Rightarrow> size_t \<Rightarrow> mem_handle \<Rightarrow> 64 word \<Rightarrow> 'd hook \<Rightarrow> int \<times> 'd hook" where
  "hook_cuMemMap C va n off a flags h =
    (case call_ptr ''real_cuMemMap'' 1 (cuMemMap C va n off a flags) (resolve C [''real_cuMemMap''] h) of
       (rc, h) \<Rightarrow> (rc, if rc = 0 then vmm_seg_add va n off a h else h))"

definition hook_cuMemUnmap :: "'d cuda \<Rightarrow> dptr \<Rightarrow> size_t \<Rightarrow> 'd hook \<Rightarrow> int \<times> 'd hook" where
  "hook_cuMemUnmap C va n h =
    call_ptr ''real_cuMemUnmap'' 1 (cuMemUnmap C va n) (vmm_seg_del va (resolve C [''real_cuMemUnmap''] h))"

definition hook_cuMemRelease :: "'d cuda \<Rightarrow> mem_handle \<Rightarrow> 'd hook \<Rightarrow> int \<times> 'd hook" where
  "hook_cuMemRelease C a h =
    call_ptr ''real_cuMemRelease'' 1 (cuMemRelease C a) (vmm_phys_del a (resolve C [''real_cuMemRelease''] h))"

definition hook_cuMemAddressReserve ::
  "'d cuda \<Rightarrow> size_t \<Rightarrow> size_t \<Rightarrow> dptr \<Rightarrow> 64 word \<Rightarrow> 'd hook \<Rightarrow> (int \<times> dptr) \<times> 'd hook" where
  "hook_cuMemAddressReserve C n alignment addr flags h =
    call_ptr ''real_cuMemAddressReserve'' (1, 0) (cuMemAddressReserve C n alignment addr flags)
      (resolve C [''real_cuMemAddressReserve''] h)"

definition hook_cuMemAddressFree :: "'d cuda \<Rightarrow> dptr \<Rightarrow> size_t \<Rightarrow> 'd hook \<Rightarrow> int \<times> 'd hook" where
  "hook_cuMemAddressFree C va n h =
    call_ptr ''real_cuMemAddressFree'' 1 (cuMemAddressFree C va n) (resolve C [''real_cuMemAddressFree''] h)"

end
