(* ===== verification/Hook_Engine.thy ===== *)
theory Hook_Engine
  imports Hook_Alloc
begin

text \<open>
  The checkpoint engine of \<^verbatim>\<open>interceptor/preload.c\<close>: the external blob, the staged copies between
  the device and the blob, and the two operations built on them, \<^verbatim>\<open>checkpoint_freeze\<close> and
  \<^verbatim>\<open>restore_remap\<close>.
\<close>

definition ROUND2M :: "size_t \<Rightarrow> size_t" where
  "ROUND2M x = and (x + (push_bit 20 2 - 1)) (not (push_bit 20 2 - 1))"

definition GCR_STAGE_BYTES :: size_t where "GCR_STAGE_BYTES = push_bit 20 128"
definition GCR_COPY_THREADS :: nat where "GCR_COPY_THREADS = 4"

subsection \<open>Paths\<close>

definition env_or :: "(string \<Rightarrow> string option) \<Rightarrow> string \<Rightarrow> string \<Rightarrow> string" where
  "env_or getenv k dflt = (case getenv k of Some v \<Rightarrow> if v = [] then dflt else v | None \<Rightarrow> dflt)"

text \<open>\<^verbatim>\<open>snprintf\<close> into a buffer of 1024 bytes.\<close>

definition snprintf1024 :: "string \<Rightarrow> string" where
  "snprintf1024 s = take 1023 s"

definition build_paths :: "(string \<Rightarrow> string option) \<Rightarrow> 'd hook \<Rightarrow> 'd hook" where
  "build_paths getenv h =
    (let cdir = env_or getenv ''GCR_CONTROL_DIR'' ''/var/lib/gpu-cr/run'';
         ddir = env_or getenv ''GCR_DATA_DIR'' cdir;
         uid = env_or getenv ''GCR_POD_UID'' ''default''
     in h\<lparr>h_ctrl_path := snprintf1024 (cdir @ ''/'' @ uid @ ''/control''),
          h_info_path := snprintf1024 (cdir @ ''/'' @ uid @ ''/intercepted-info''),
          h_data_dir := snprintf1024 (ddir @ ''/'' @ uid)\<rparr>)"

subsection \<open>The blob\<close>

definition blob_path :: "'d hook \<Rightarrow> string" where
  "blob_path h = h_data_dir h @ ''/data.blob''"

text \<open>\<^verbatim>\<open>ftruncate\<close>: cut, or extend with zero bytes. A length that is negative as an \<^verbatim>\<open>off_t\<close> is refused.\<close>

definition resize :: "nat \<Rightarrow> string \<Rightarrow> string" where
  "resize n c = take n c @ replicate (n - length c) (CHR 0x00)"

definition blob_map :: "libc \<Rightarrow> (string \<Rightarrow> string option) \<Rightarrow> size_t \<Rightarrow> 'd hook \<Rightarrow> bool \<times> 'd hook" where
  "blob_map L getenv need h =
    (let h = (if h_data_dir h = [] then build_paths getenv h else h) in
     if h_blob h \<and> need \<le> h_blob_size h then (True, h)
     else
       let h = h\<lparr>h_blob := False\<rparr>;
           (opened, h) = (if h_blob_fd h then (True, h)
             else (case libc_call L h of
                (True, h) \<Rightarrow> (True, h\<lparr>h_blob_fd := True, h_files := (h_files h)(blob_path h :=
                    Some (case h_files h (blob_path h) of None \<Rightarrow> [] | Some c \<Rightarrow> c))\<rparr>)
              | (False, h) \<Rightarrow> (False, h)))
       in if \<not> opened then (False, h) else
       let (truncated, h) = libc_call L h
       in if \<not> truncated \<or> sint need < 0 then (False, h) else
       let h = h\<lparr>h_files := (h_files h)(blob_path h := map_option (resize (unat need)) (h_files h (blob_path h)))\<rparr>;
           (mapped, h) = libc_call L h
       in if \<not> mapped then (False, h) else
       (True, h\<lparr>h_blob := True, h_blob_size := need\<rparr>))"

text \<open>Accesses through the mapping, which is as long as the file.\<close>

definition blob_write :: "size_t \<Rightarrow> string \<Rightarrow> 'd hook \<Rightarrow> 'd hook" where
  "blob_write off bytes h =
    (if h_blob h \<and> unat off + length bytes \<le> unat (h_blob_size h) then
       h\<lparr>h_files := (h_files h)(blob_path h := map_option
          (\<lambda>c. take (unat off) c @ bytes @ drop (unat off + length bytes) c) (h_files h (blob_path h)))\<rparr>
     else h\<lparr>h_fault := True\<rparr>)"

definition stage_write :: "bool \<Rightarrow> nat \<Rightarrow> string \<Rightarrow> 'd hook \<Rightarrow> 'd hook" where
  "stage_write b off bytes h =
    h\<lparr>h_mem := (h_mem h)\<lparr>m_stage := (m_stage (h_mem h))(b := (\<lambda>i.
        if off \<le> i \<and> i < off + length bytes then bytes ! (i - off) else m_stage (h_mem h) b i))\<rparr>\<rparr>"

subsection \<open>The multi-threaded copy\<close>

fun mc_loop :: "size_t \<Rightarrow> size_t \<Rightarrow> nat list \<Rightarrow> (size_t \<times> size_t) list" where
  "mc_loop n per [] = []"
| "mc_loop n per (i # is) =
    (let off = of_nat i * per in
     if n \<le> off then []
     else (off, if n - off < per then n - off else per) # mc_loop n per is)"

definition mc_pieces :: "size_t \<Rightarrow> (size_t \<times> size_t) list" where
  "mc_pieces n =
    (if n < push_bit 20 8 then [(0, n)]
     else mc_loop n ((n + of_nat GCR_COPY_THREADS - 1) div of_nat GCR_COPY_THREADS) [0..<GCR_COPY_THREADS])"

text \<open>\<^verbatim>\<open>memcpy_mt\<close> from a staging buffer into the blob, and back. The pieces are copied in any order.\<close>

definition stage_bytes :: "'d hook \<Rightarrow> bool \<Rightarrow> nat \<Rightarrow> nat \<Rightarrow> string" where
  "stage_bytes h b off n = map (m_stage (h_mem h) b) [off..<off + n]"

definition stage_to_blob :: "libc \<Rightarrow> bool \<Rightarrow> size_t \<Rightarrow> size_t \<Rightarrow> 'd hook \<Rightarrow> 'd hook" where
  "stage_to_blob L b off n h =
    fold (\<lambda>(o', c) h. blob_write (off + o') (stage_bytes h b (unat o') (unat c)) h) (lc_order L (mc_pieces n)) h"

definition copy_in :: "bool \<Rightarrow> size_t \<Rightarrow> (size_t \<times> size_t) \<Rightarrow> 'd hook \<Rightarrow> 'd hook" where
  "copy_in b off = (\<lambda>(o', c) h.
     if h_blob h \<and> unat (off + o') + unat c \<le> unat (h_blob_size h) then
       (case h_files h (blob_path h) of
          Some bytes \<Rightarrow> stage_write b (unat o') (take (unat c) (drop (unat (off + o')) bytes)) h
        | None \<Rightarrow> h)
     else h\<lparr>h_fault := True\<rparr>)"

definition blob_to_stage :: "libc \<Rightarrow> bool \<Rightarrow> size_t \<Rightarrow> size_t \<Rightarrow> 'd hook \<Rightarrow> 'd hook" where
  "blob_to_stage L b off n h = fold (copy_in b off) (lc_order L (mc_pieces n)) h"

subsection \<open>Staging buffers and run-time pointers\<close>

definition resolve_rt_copy :: "'d cuda \<Rightarrow> 'd hook \<Rightarrow> 'd hook" where
  "resolve_rt_copy C h = resolve C [''rt_setdev'', ''rt_sync'', ''rt_memcpy''] h"

definition stage_ptrs :: "string list" where
  "stage_ptrs = [''rt_memcpy_async'', ''rt_stream_create'', ''rt_stream_destroy'', ''rt_stream_sync'',
     ''rt_event_create'', ''rt_event_destroy'', ''rt_event_record'', ''rt_event_sync'']"

text \<open>The pointers that are looked up again whatever they were.\<close>

definition reassign :: "'d cuda \<Rightarrow> string list \<Rightarrow> 'd hook \<Rightarrow> 'd hook" where
  "reassign C ps h = h\<lparr>h_ptrs := filter (\<lambda>p. p \<notin> set ps) (h_ptrs h) @ filter (cu_has C (h_dev h)) ps\<rparr>"

definition pinned_stage :: "'d cuda \<Rightarrow> 'd hook \<Rightarrow> bool \<times> 'd hook" where
  "pinned_stage C h =
    (if looked_up h ''rt_hostalloc'' then
       (case gpu_call (cudaHostAlloc C False GCR_STAGE_BYTES) h of
          (rcA, h) \<Rightarrow> if rcA \<noteq> 0 then (False, h) else
            (case gpu_call (cudaHostAlloc C True GCR_STAGE_BYTES) h of (rcB, h) \<Rightarrow> (rcB = 0, h)))
     else (False, h))"

definition gcr_stage_init :: "'d cuda \<Rightarrow> libc \<Rightarrow> 'd hook \<Rightarrow> 'd hook" where
  "gcr_stage_init C L h =
    (if h_stageA h then h
     else
       let h = resolve C [''rt_hostalloc'', ''rt_hostfree''] h;
           h = reassign C stage_ptrs h
       in case pinned_stage C h of
            (True, h) \<Rightarrow> h\<lparr>h_stageA := True, h_stageB := True\<rparr>
          | (False, h) \<Rightarrow>
             (let (a, h) = libc_call L h; (b, h) = libc_call L h
              in h\<lparr>h_stageA := a, h_stageB := b, h_ptrs := filter (\<lambda>p. p \<noteq> ''rt_memcpy_async'') (h_ptrs h)\<rparr>))"

subsection \<open>The overlapped copy\<close>

text \<open>What the loop carries: the previous chunk, and the number of chunks so far.\<close>

record pipe =
  pp_prev :: "nat option"
  pp_j :: nat
  pp_pbuf :: bool
  pp_pblob :: size_t
  pp_psz :: size_t

text \<open>The direction: \<open>Freeze\<close> is mode 0, device to blob, and \<open>Remap\<close> mode 1, blob to device.\<close>

datatype copy_mode = Freeze | Remap

definition chunk_of :: "size_t \<Rightarrow> size_t" where
  "chunk_of rem = (if rem < GCR_STAGE_BYTES then rem else GCR_STAGE_BYTES)"

text \<open>Waiting for the previous chunk, and in mode 0 moving it from its buffer to the blob.\<close>

definition drain_prev :: "copy_mode \<Rightarrow> 'd cuda \<Rightarrow> libc \<Rightarrow> pipe \<Rightarrow> 'd hook \<Rightarrow> 'd hook" where
  "drain_prev mode C L p h =
    (case pp_prev p of
       None \<Rightarrow> h
     | Some k \<Rightarrow>
         (let h = snd (gpu_call (cudaEventSynchronize C (odd k)) h)
          in if mode = Freeze then stage_to_blob L (pp_pbuf p) (pp_pblob p) (pp_psz p) h else h))"

definition pipe_chunk ::
  "copy_mode \<Rightarrow> 'd cuda \<Rightarrow> libc \<Rightarrow> dptr \<Rightarrow> size_t \<Rightarrow> size_t \<Rightarrow> pipe \<Rightarrow> 'd hook \<Rightarrow> pipe option \<times> 'd hook" where
  "pipe_chunk mode C L dev blob chunk p h =
    (let b = odd (pp_j p);
         (rc, h) = (case mode of
            Freeze \<Rightarrow> gpu_call (cudaMemcpyAsync C (D2H b dev (unat chunk))) h
          | Remap \<Rightarrow> gpu_call (cudaMemcpyAsync C (H2D dev b (unat chunk))) (blob_to_stage L b blob chunk h))
     in if rc \<noteq> 0 then (None, h)
     else
       let h = snd (gpu_call (cudaEventRecord C b) h);
           h = drain_prev mode C L p h
       in (Some \<lparr>pp_prev = Some (pp_j p), pp_j = Suc (pp_j p), pp_pbuf = b, pp_pblob = blob, pp_psz = chunk\<rparr>, h))"

lemma chunk_of_pos: "rem \<noteq> 0 \<Longrightarrow> chunk_of rem \<noteq> 0"
  by (simp add: chunk_of_def GCR_STAGE_BYTES_def)

lemma chunk_of_le: "chunk_of rem \<le> rem"
  by (simp add: chunk_of_def not_less)

lemma rest_smaller: "rem \<noteq> 0 \<Longrightarrow> unat (rem - chunk_of rem) < unat rem"
  using chunk_of_pos [of rem] chunk_of_le [of rem]
  by (metis diff_less unat_sub word_gt_0 word_less_nat_alt unat_0)

function pipe_seg ::
  "copy_mode \<Rightarrow> 'd cuda \<Rightarrow> libc \<Rightarrow> owned \<Rightarrow> size_t \<Rightarrow> size_t \<Rightarrow> pipe \<Rightarrow> 'd hook \<Rightarrow> pipe option \<times> 'd hook" where
  "pipe_seg mode C L s rem coff p h =
    (if rem = 0 then (Some p, h)
     else
       let chunk = chunk_of rem
       in case pipe_chunk mode C L (ow_va s + coff) (ow_blob_off s + coff) chunk p h of
            (None, h) \<Rightarrow> (None, h)
          | (Some p, h) \<Rightarrow> pipe_seg mode C L s (rem - chunk) (coff + chunk) p h)"
  by pat_completeness auto
termination
  by (relation "measure (\<lambda>(mode, C, L, s, rem, coff, p, h). unat rem)") (simp_all add: rest_smaller)

declare pipe_seg.simps [simp del]

definition selected :: "copy_mode \<Rightarrow> owned \<Rightarrow> bool" where
  "selected mode s = (if mode = Freeze then ow_live s \<and> \<not> ow_frozen s else ow_frozen s)"

fun pipe_segs ::
  "copy_mode \<Rightarrow> 'd cuda \<Rightarrow> libc \<Rightarrow> owned list \<Rightarrow> pipe \<Rightarrow> 'd hook \<Rightarrow> pipe option \<times> 'd hook" where
  "pipe_segs mode C L [] p h = (Some p, h)"
| "pipe_segs mode C L (s # ss) p h =
    (if selected mode s then
       (case pipe_seg mode C L s (ow_req s) 0 p h of
          (None, h) \<Rightarrow> (None, h)
        | (Some p, h) \<Rightarrow> pipe_segs mode C L ss p h)
     else pipe_segs mode C L ss p h)"

definition pipe_start :: pipe where
  "pipe_start = \<lparr>pp_prev = None, pp_j = 0, pp_pbuf = False, pp_pblob = 0, pp_psz = 0\<rparr>"

definition pipe_fin :: "'d cuda \<Rightarrow> 'd hook \<Rightarrow> 'd hook" where
  "pipe_fin C h =
    (let h = call_opt ''rt_stream_sync'' (cudaStreamSynchronize C) h;
         h = call_opt ''rt_event_destroy'' (cudaEventDestroy C False) h;
         h = call_opt ''rt_event_destroy'' (cudaEventDestroy C True) h
     in call_opt ''rt_stream_destroy'' (cudaStreamDestroy C) h)"

definition pipe_copy :: "copy_mode \<Rightarrow> 'd cuda \<Rightarrow> libc \<Rightarrow> 'd hook \<Rightarrow> int \<times> 'd hook" where
  "pipe_copy mode C L h =
    (if \<not> looked_up h ''rt_memcpy_async'' \<or> \<not> looked_up h ''rt_stream_create'' \<or> \<not> looked_up h ''rt_event_create'' \<or>
        \<not> looked_up h ''rt_event_record'' \<or> \<not> looked_up h ''rt_event_sync'' \<or>
        \<not> h_stageA h \<or> \<not> h_stageB h \<or> \<not> h_blob h
     then (-2, h)
     else case gpu_call (cudaStreamCreate C) h of
       ((rc, stream), h) \<Rightarrow>
         if rc \<noteq> 0 \<or> \<not> stream then (-2, h)
         else case gpu_call (cudaEventCreate C False) h of
           (rc0, h) \<Rightarrow>
             if rc0 \<noteq> 0 then (-2, call_opt ''rt_stream_destroy'' (cudaStreamDestroy C) h)
             else case gpu_call (cudaEventCreate C True) h of
               (rc1, h) \<Rightarrow>
                 if rc1 \<noteq> 0 then (-2, call_opt ''rt_stream_destroy'' (cudaStreamDestroy C) h)
                 else case pipe_segs mode C L (h_owned h) pipe_start h of
                     (None, h) \<Rightarrow> (-1, pipe_fin C h)
                   | (Some p, h) \<Rightarrow> (0, pipe_fin C (drain_prev mode C L p h)))"

subsection \<open>The serial copies\<close>

text \<open>Both use \<^verbatim>\<open>g_stage\<close>, the first staging buffer, which is null when no memory was left for it.\<close>

function serial_freeze_seg :: "'d cuda \<Rightarrow> libc \<Rightarrow> owned \<Rightarrow> size_t \<Rightarrow> size_t \<Rightarrow> 'd hook \<Rightarrow> 'd hook" where
  "serial_freeze_seg C L s rem coff h =
    (if rem = 0 then h
     else
       let chunk = chunk_of rem
       in case gpu_call (cudaMemcpy C (D2H False (ow_va s + coff) (unat chunk))) h of
            (rc, h) \<Rightarrow>
              if rc \<noteq> 0 then h
              else
                let h = h\<lparr>h_fault := h_fault h \<or> \<not> h_stageA h\<rparr>;
                    h = stage_to_blob L False (ow_blob_off s + coff) chunk h
                in serial_freeze_seg C L s (rem - chunk) (coff + chunk) h)"
  by pat_completeness auto
termination
  by (relation "measure (\<lambda>(C, L, s, rem, coff, h). unat rem)") (simp_all add: rest_smaller)

declare serial_freeze_seg.simps [simp del]

fun serial_freeze :: "'d cuda \<Rightarrow> libc \<Rightarrow> owned list \<Rightarrow> 'd hook \<Rightarrow> 'd hook" where
  "serial_freeze C L [] h = h"
| "serial_freeze C L (s # ss) h =
    serial_freeze C L ss
      (if \<not> ow_live s \<or> ow_frozen s then h else serial_freeze_seg C L s (ow_req s) 0 h)"

function serial_remap_seg :: "'d cuda \<Rightarrow> libc \<Rightarrow> owned \<Rightarrow> size_t \<Rightarrow> size_t \<Rightarrow> 'd hook \<Rightarrow> 'd hook" where
  "serial_remap_seg C L s rem coff h =
    (if rem = 0 \<or> \<not> h_blob h then h
     else
       let chunk = chunk_of rem;
           h = h\<lparr>h_fault := h_fault h \<or> \<not> h_stageA h\<rparr>;
           h = blob_to_stage L False (ow_blob_off s + coff) chunk h;
           h = snd (gpu_call (cudaMemcpy C (H2D (ow_va s + coff) False (unat chunk))) h)
       in serial_remap_seg C L s (rem - chunk) (coff + chunk) h)"
  by pat_completeness auto
termination
  by (relation "measure (\<lambda>(C, L, s, rem, coff, h). unat rem)") (simp_all add: rest_smaller)

declare serial_remap_seg.simps [simp del]

fun serial_remap :: "'d cuda \<Rightarrow> libc \<Rightarrow> owned list \<Rightarrow> 'd hook \<Rightarrow> 'd hook" where
  "serial_remap C L [] h = h"
| "serial_remap C L (s # ss) h =
    serial_remap C L ss (if \<not> ow_frozen s then h else serial_remap_seg C L s (ow_req s) 0 h)"

subsection \<open>Freeze\<close>

definition gcr_gate_set :: "bool \<Rightarrow> 'd hook \<Rightarrow> 'd hook" where
  "gcr_gate_set on h = h\<lparr>h_gate := on\<rparr>"

text \<open>The offset of each segment in the blob, and the size of the blob.\<close>

fun assign_offsets :: "size_t \<Rightarrow> owned list \<Rightarrow> owned list \<times> size_t" where
  "assign_offsets n [] = ([], n)"
| "assign_offsets n (s # ss) =
    (if ow_live s \<and> \<not> ow_frozen s then
       (case assign_offsets (n + ROUND2M (ow_req s)) ss of (ss', n') \<Rightarrow> (s\<lparr>ow_blob_off := n\<rparr> # ss', n'))
     else (case assign_offsets n ss of (ss', n') \<Rightarrow> (s # ss', n')))"

fun release_segs :: "'d cuda \<Rightarrow> owned list \<Rightarrow> 'd hook \<Rightarrow> owned list \<times> 'd hook" where
  "release_segs C [] h = ([], h)"
| "release_segs C (s # ss) h =
    (if \<not> ow_live s \<or> ow_frozen s then (case release_segs C ss h of (ss', h') \<Rightarrow> (s # ss', h'))
     else
       let h = snd (gpu_call (cuMemUnmap C (ow_va s) (ow_padded s)) h);
           h = snd (gpu_call (cuMemRelease C (ow_handle s)) h)
       in case release_segs C ss h of (ss', h') \<Rightarrow> (s\<lparr>ow_frozen := True\<rparr> # ss', h'))"

definition checkpoint_freeze ::
  "'d cuda \<Rightarrow> libc \<Rightarrow> (string \<Rightarrow> string option) \<Rightarrow> 'd hook \<Rightarrow> 'd hook" where
  "checkpoint_freeze C L getenv h0 =
    (let h = gcr_stage_init C L (resolve_vmm_real C (resolve_rt_copy C h0)) in
     if \<not> looked_up h ''rt_memcpy'' \<or> \<not> looked_up h ''r_cuMemUnmap2'' \<or> \<not> looked_up h ''r_cuMemRelease2'' then h
     else
       let h = gcr_gate_set True (h\<lparr>h_in_remap := True\<rparr>);
           h = call_opt ''rt_setdev'' (cudaSetDevice C 0) h;
           h = call_opt ''rt_sync'' (cudaDeviceSynchronize C) h;
           (ss, need) = assign_offsets 0 (h_owned h);
           h = h\<lparr>h_owned := ss\<rparr>
       in if need = 0 then h\<lparr>h_in_remap := False\<rparr>
       else case blob_map L getenv need h of
         (False, h) \<Rightarrow> h\<lparr>h_in_remap := False\<rparr>
       | (True, h) \<Rightarrow>
           (let (rc, h) = pipe_copy Freeze C L h;
                h = (if rc = -2 then serial_freeze C L (h_owned h) h else h);
                (ss, h) = release_segs C (h_owned h) h;
                h = h\<lparr>h_owned := ss\<rparr>;
                h = (if h_blob h then h\<lparr>h_blob := False, h_blob_size := 0\<rparr> else h);
                h = h\<lparr>h_blob_fd := False\<rparr>
            in h\<lparr>h_in_remap := False\<rparr>))"

subsection \<open>Remap\<close>

definition blob_need :: "owned list \<Rightarrow> size_t" where
  "blob_need ss = fold (\<lambda>s need. if ow_frozen s
     then (let e = ow_blob_off s + ROUND2M (ow_req s) in if need < e then e else need) else need) ss 0"

fun remap_segs :: "'d cuda \<Rightarrow> owned list \<Rightarrow> 'd hook \<Rightarrow> owned list \<times> 'd hook" where
  "remap_segs C [] h = ([], h)"
| "remap_segs C (s # ss) h =
    (if \<not> ow_frozen s then (case remap_segs C ss h of (ss', h') \<Rightarrow> (s # ss', h'))
     else case gpu_call (cuMemCreate C (ow_padded s) (Some (ow_prop s)) 0) h of
       ((rc, nh), h) \<Rightarrow>
         if rc \<noteq> 0 then (case remap_segs C ss h of (ss', h') \<Rightarrow> (s\<lparr>ow_frozen := False\<rparr> # ss', h'))
         else case gpu_call (cuMemMap C (ow_va s) (ow_padded s) 0 nh 0) h of
           (rc, h) \<Rightarrow>
             if rc \<noteq> 0 then
               (let h = snd (call_ptr ''r_cuMemRelease2'' 0 (cuMemRelease C nh) h)
                in case remap_segs C ss h of (ss', h') \<Rightarrow> (s\<lparr>ow_frozen := False\<rparr> # ss', h'))
             else
               let h = snd (gpu_call (cuMemSetAccess C (ow_va s) (ow_padded s) (rw_access (mp_location_id (ow_prop s)))) h)
               in case remap_segs C ss h of (ss', h') \<Rightarrow> (s\<lparr>ow_handle := nh\<rparr> # ss', h'))"

definition restore_remap ::
  "'d cuda \<Rightarrow> libc \<Rightarrow> (string \<Rightarrow> string option) \<Rightarrow> 'd hook \<Rightarrow> 'd hook" where
  "restore_remap C L getenv h0 =
    (let h = resolve_vmm_real C (resolve_rt_copy C (h0\<lparr>h_in_remap := True\<rparr>)) in
     if \<not> looked_up h ''rt_memcpy'' \<or> \<not> looked_up h ''r_cuMemCreate'' \<or> \<not> looked_up h ''r_cuMemMap'' \<or>
        \<not> looked_up h ''r_cuMemSetAccess'' then h
     else
       let h = gcr_stage_init C L h;
           h = (if \<not> h_blob h \<and> blob_need (h_owned h) \<noteq> 0
                then snd (blob_map L getenv (blob_need (h_owned h)) h) else h);
           h = call_opt ''rt_setdev'' (cudaSetDevice C 0) h;
           (ss, h) = remap_segs C (h_owned h) h;
           h = h\<lparr>h_owned := ss\<rparr>;
           (rc, h) = pipe_copy Remap C L h;
           h = (if rc = -2 then serial_remap C L (h_owned h) h else h);
           h = call_opt ''rt_sync'' (cudaDeviceSynchronize C) h
       in h\<lparr>h_owned := map (\<lambda>s. if ow_frozen s then s\<lparr>ow_frozen := False\<rparr> else s) (h_owned h), h_in_remap := False\<rparr>)"

end
