(* ===== verification/Hook_Pipe.thy ===== *)
theory Hook_Pipe
  imports Hook_Copy
begin

text \<open>
  The overlapped copy refines the serial one. The abstraction is the memory as it will be when
  the transfers under way are done: a step of the device does not change it, starting a transfer
  applies the transfer to it, and the two staging buffers are used in such an order that the
  program never touches a buffer a pending transfer reads or writes.
\<close>

definition queue :: "'d obs \<Rightarrow> 'd hook \<Rightarrow> dma list" where
  "queue V h = ob_queue V (h_dev h)"

definition issued :: "'d obs \<Rightarrow> 'd hook \<Rightarrow> nat" where
  "issued V h = ob_done V (h_dev h) + length (queue V h)"

definition eventual :: "'d obs \<Rightarrow> 'd hook \<Rightarrow> gpu_mem" where
  "eventual V h = run_dmas (queue V h) (h_mem h)"

lemma queue_simps [simp]:
  "queue V (set_gpu m d h) = ob_queue V d" "queue V (set_blob c h) = queue V h"
  "issued V (set_blob c h) = issued V h" "eventual V (set_blob c h) = eventual V h"
  by (simp_all add: queue_def issued_def eventual_def)

lemma eventual_idle: "queue V h = [] \<Longrightarrow> eventual V h = h_mem h"
  by (simp add: eventual_def run_dmas_def)

lemma run_dmas_simps [simp]:
  "run_dmas [] m = m" "run_dmas (op # q) m = run_dmas q (run_dma op m)"
  "run_dmas (q @ q') m = run_dmas q' (run_dmas q m)"
  by (simp_all add: run_dmas_def)

subsection \<open>The runtime calls\<close>

definition advances :: "'d obs \<Rightarrow> dma list \<Rightarrow> 'd hook \<Rightarrow> 'd hook \<Rightarrow> bool" where
  "advances V ops h h' \<longleftrightarrow>
    eventual V h' = run_dmas ops (eventual V h) \<and> issued V h' = issued V h + length ops \<and>
    (\<exists>pre. queue V h @ ops = pre @ queue V h') \<and> h' = set_gpu (h_mem h') (h_dev h') h"

lemma advances_trans:
  assumes "advances V ops h h1" and "advances V ops' h1 h2"
  shows "advances V (ops @ ops') h h2"
proof -
  obtain pre pre' where p: "queue V h @ ops = pre @ queue V h1" "queue V h1 @ ops' = pre' @ queue V h2"
    using assms by (auto simp: advances_def)
  then have "queue V h @ ops @ ops' = (pre @ pre') @ queue V h2" by (metis append.assoc)
  moreover have "h2 = set_gpu (h_mem h2) (h_dev h2) h"
    using assms unfolding advances_def by (metis set_gpu_simps(3))
  ultimately show ?thesis using assms unfolding advances_def by auto
qed

lemma progress_advances:
  assumes "progress V (queue V h @ ops) (h_mem h) (h_dev h) m d"
  shows "advances V ops h (set_gpu m d h)"
proof -
  obtain k where k: "k \<le> length (queue V h @ ops)" "m = run_dmas (take k (queue V h @ ops)) (h_mem h)"
    "ob_queue V d = drop k (queue V h @ ops)" "ob_done V d = ob_done V (h_dev h) + k"
    using assms by (auto simp: progress_def)
  have "run_dmas (drop k (queue V h @ ops)) m = run_dmas (take k (queue V h @ ops) @ drop k (queue V h @ ops)) (h_mem h)"
    unfolding k(2) by (rule run_dmas_simps(3) [symmetric])
  also have "\<dots> = run_dmas ops (run_dmas (queue V h) (h_mem h))" by (simp only: append_take_drop_id run_dmas_simps)
  finally have "eventual V (set_gpu m d h) = run_dmas ops (eventual V h)"
    by (simp add: eventual_def k(3))
  moreover have "issued V (set_gpu m d h) = issued V h + length ops"
    using k by (simp add: issued_def)
  moreover have "queue V h @ ops = take k (queue V h @ ops) @ queue V (set_gpu m d h)"
    unfolding queue_simps k(3) by (rule append_take_drop_id [symmetric])
  ultimately show ?thesis unfolding advances_def by auto
qed

lemma async_advances:
  assumes "copy_docs V C" and "no_copy_errors C"
  obtains h' where "gpu_call (cudaMemcpyAsync C op) h = (0, h')" and "advances V [op] h h'"
    and "ob_event V (h_dev h') = ob_event V (h_dev h)"
proof -
  obtain rc m d where c: "cudaMemcpyAsync C op (h_mem h) (h_dev h) = (rc, m, d)" by (metis prod_cases3)
  have "rc = 0" using assms(2) c by (metis no_copy_errors_def succeeds_def fst_conv)
  with c assms(1) have "progress V (queue V h @ [op]) (h_mem h) (h_dev h) m d" "ob_event V d = ob_event V (h_dev h)"
    by (auto simp: copy_docs_def queue_def)
  then show thesis using that [of "set_gpu m d h"] c \<open>rc = 0\<close> progress_advances [of V h "[op]" m d]
    by (simp add: gpu_call_eq)
qed

lemma record_advances:
  assumes "copy_docs V C" and "no_copy_errors C"
  shows "advances V [] h (snd (gpu_call (cudaEventRecord C b) h))"
    and "ob_event V (h_dev (snd (gpu_call (cudaEventRecord C b) h))) = (ob_event V (h_dev h))(b := issued V h)"
proof -
  obtain rc m d where c: "cudaEventRecord C b (h_mem h) (h_dev h) = (rc, m, d)" by (metis prod_cases3)
  have "rc = 0" using assms(2) c by (metis no_copy_errors_def succeeds_def fst_conv)
  with c assms(1) have "progress V (queue V h @ []) (h_mem h) (h_dev h) m d"
    "ob_event V d = (ob_event V (h_dev h))(b := issued V h)"
    by (auto simp: copy_docs_def queue_def issued_def)
  then show "advances V [] h (snd (gpu_call (cudaEventRecord C b) h))"
    "ob_event V (h_dev (snd (gpu_call (cudaEventRecord C b) h))) = (ob_event V (h_dev h))(b := issued V h)"
    using c progress_advances [of V h "[]" m d] by (simp_all add: gpu_call_eq)
qed

lemma sync_advances:
  assumes "copy_docs V C" and "no_copy_errors C"
  shows "advances V [] h (snd (gpu_call (cudaEventSynchronize C b) h))"
    and "ob_event V (h_dev (snd (gpu_call (cudaEventSynchronize C b) h))) = ob_event V (h_dev h)"
    and "ob_event V (h_dev h) b \<le> ob_done V (h_dev (snd (gpu_call (cudaEventSynchronize C b) h)))"
proof -
  obtain rc m d where c: "cudaEventSynchronize C b (h_mem h) (h_dev h) = (rc, m, d)" by (metis prod_cases3)
  have "rc = 0" using assms(2) c by (metis no_copy_errors_def succeeds_def fst_conv)
  with c assms(1) have "progress V (queue V h @ []) (h_mem h) (h_dev h) m d"
    "ob_event V d = ob_event V (h_dev h)" "ob_event V (h_dev h) b \<le> ob_done V d"
    by (auto simp: copy_docs_def queue_def)
  then show "advances V [] h (snd (gpu_call (cudaEventSynchronize C b) h))"
    "ob_event V (h_dev (snd (gpu_call (cudaEventSynchronize C b) h))) = ob_event V (h_dev h)"
    "ob_event V (h_dev h) b \<le> ob_done V (h_dev (snd (gpu_call (cudaEventSynchronize C b) h)))"
    using c progress_advances [of V h "[]" m d] by (simp_all add: gpu_call_eq)
qed

subsection \<open>One chunk\<close>

fun dma_buf :: "dma \<Rightarrow> bool" where
  "dma_buf (D2H b va n) = b"
| "dma_buf (H2D va b n) = b"

text \<open>
  The loop between two chunks: only the last transfer may be pending, its buffer is the one the
  loop remembers, and its event stands for everything started.
\<close>

definition in_step :: "'d obs \<Rightarrow> pipe \<Rightarrow> 'd hook \<Rightarrow> bool" where
  "in_step V p h \<longleftrightarrow>
    (case pp_prev p of
       None \<Rightarrow> pp_j p = 0 \<and> queue V h = []
     | Some k \<Rightarrow> pp_j p = Suc k \<and> pp_pbuf p = odd k \<and> ob_event V (h_dev h) (odd k) = issued V h \<and>
         (queue V h = [] \<or> (\<exists>op. queue V h = [op] \<and> dma_buf op = odd k)))"

text \<open>Start a transfer, record its event, and wait for the previous one.\<close>

definition start_transfer :: "'d cuda \<Rightarrow> dma \<Rightarrow> pipe \<Rightarrow> 'd hook \<Rightarrow> 'd hook" where
  "start_transfer C op p h =
    (let h = snd (gpu_call (cudaEventRecord C (odd (pp_j p))) (snd (gpu_call (cudaMemcpyAsync C op) h)))
     in case pp_prev p of None \<Rightarrow> h | Some k \<Rightarrow> snd (gpu_call (cudaEventSynchronize C (odd k)) h))"

lemma short_suffix: "q @ [x] = pre @ q' \<Longrightarrow> length q' \<le> 1 \<Longrightarrow> q' \<in> {[], [x]}"
  by (cases q' rule: rev_cases) auto

lemma start_transfer_ok:
  assumes docs: "copy_docs V C" "no_copy_errors C" and "in_step V p h"
  shows "advances V [op] h (start_transfer C op p h)"
    and "ob_event V (h_dev (start_transfer C op p h)) (odd (pp_j p)) = issued V (start_transfer C op p h)"
    and "queue V (start_transfer C op p h) \<in> {[], [op]}"
proof -
  obtain h1 where h1: "gpu_call (cudaMemcpyAsync C op) h = (0, h1)" "advances V [op] h h1"
    "ob_event V (h_dev h1) = ob_event V (h_dev h)"
    using async_advances [OF docs] by blast
  define h2 where "h2 = snd (gpu_call (cudaEventRecord C (odd (pp_j p))) h1)"
  have a2: "advances V [] h1 h2" and e2: "ob_event V (h_dev h2) = (ob_event V (h_dev h1))(odd (pp_j p) := issued V h1)"
    unfolding h2_def by (rule record_advances [OF docs])+
  have i2: "issued V h2 = issued V h1" using a2 by (simp add: advances_def)
  have a12: "advances V [op] h h2" using advances_trans [OF h1(2) a2] by simp
  have main: "advances V [op] h (start_transfer C op p h) \<and>
    ob_event V (h_dev (start_transfer C op p h)) (odd (pp_j p)) = issued V (start_transfer C op p h) \<and>
    queue V (start_transfer C op p h) \<in> {[], [op]}"
  proof (cases "pp_prev p")
    case None
    then have st: "start_transfer C op p h = h2" by (simp add: start_transfer_def h1 h2_def)
    have "queue V h = []" using assms(3) None by (simp add: in_step_def)
    then have "queue V h2 \<in> {[], [op]}" using a12 by (auto simp: advances_def append_eq_Cons_conv Cons_eq_append_conv)
    then show ?thesis using a12 e2 i2 st by simp
  next
    case (Some k)
    define h3 where "h3 = snd (gpu_call (cudaEventSynchronize C (odd k)) h2)"
    have st: "start_transfer C op p h = h3" by (simp add: start_transfer_def h1 h2_def h3_def Some)
    have a3: "advances V [] h2 h3" and e3: "ob_event V (h_dev h3) = ob_event V (h_dev h2)"
      and d3: "ob_event V (h_dev h2) (odd k) \<le> ob_done V (h_dev h3)"
      unfolding h3_def by (rule sync_advances [OF docs])+
    have i3: "issued V h3 = issued V h2" using a3 by (simp add: advances_def)
    have j: "pp_j p = Suc k" "ob_event V (h_dev h) (odd k) = issued V h"
      using assms(3) Some by (simp_all add: in_step_def)
    have a: "advances V [op] h h3" using advances_trans [OF a12 a3] by simp
    have "ob_event V (h_dev h2) (odd k) = issued V h" using e2 h1(3) j by simp
    then have "issued V h \<le> ob_done V (h_dev h3)" using d3 by simp
    moreover have "issued V h3 = issued V h + 1" using a by (simp add: advances_def)
    ultimately have "length (queue V h3) \<le> 1" by (simp add: issued_def)
    then have "queue V h3 \<in> {[], [op]}" using a short_suffix [of "queue V h" op] unfolding advances_def by blast
    then show ?thesis using a st e3 e2 i2 i3 by simp
  qed
  then show "advances V [op] h (start_transfer C op p h)"
    "ob_event V (h_dev (start_transfer C op p h)) (odd (pp_j p)) = issued V (start_transfer C op p h)"
    "queue V (start_transfer C op p h) \<in> {[], [op]}" by blast+
qed

lemma advances_frame: "advances V ops h h' \<Longrightarrow> blob_ok h \<Longrightarrow> frame h h'"
  unfolding advances_def by (metis frame_set_gpu)

subsection \<open>Device to blob\<close>

definition dev_bytes :: "(dptr \<Rightarrow> char option) \<Rightarrow> dptr \<Rightarrow> nat \<Rightarrow> string" where
  "dev_bytes dev va n = map (\<lambda>i. the (dev (va + of_nat i))) [0..<n]"

definition readable :: "(dptr \<Rightarrow> char option) \<Rightarrow> dptr \<Rightarrow> nat \<Rightarrow> bool" where
  "readable dev va n \<longleftrightarrow> (\<forall>i < n. dev (va + of_nat i) \<noteq> None)"

lemma length_dev_bytes [simp]: "length (dev_bytes dev va n) = n"
  by (simp add: dev_bytes_def)

lemma dev_bytes_add: "dev_bytes dev va (a + b) = dev_bytes dev va a @ dev_bytes dev (va + of_nat a) b"
  by (rule nth_equalityI) (auto simp: dev_bytes_def nth_append add.assoc algebra_simps)

lemma readable_add: "readable dev va (a + b) \<longleftrightarrow> readable dev va a \<and> readable dev (va + of_nat a) b"
proof
  assume r: "readable dev va (a + b)"
  have "dev (va + of_nat (a + i)) \<noteq> None" if "i < b" for i
    using r that unfolding readable_def by (metis add_less_cancel_left)
  then show "readable dev va a \<and> readable dev (va + of_nat a) b"
    using r by (auto simp: readable_def add.assoc)
next
  assume r: "readable dev va a \<and> readable dev (va + of_nat a) b"
  have "dev (va + of_nat i) \<noteq> None" if "i < a + b" for i
  proof (cases "i < a")
    case False
    then have "va + of_nat i = va + of_nat a + of_nat (i - a)" by (simp add: of_nat_diff)
    moreover have "i - a < b" using that False by simp
    ultimately show ?thesis using r unfolding readable_def by metis
  qed (use r in \<open>auto simp: readable_def\<close>)
  then show "readable dev va (a + b)" by (simp add: readable_def)
qed

lemma D2H_stage:
  "readable (m_dev m) va n \<Longrightarrow> map (m_stage (run_dma (D2H b va n) m) b) [0..<n] = dev_bytes (m_dev m) va n"
  by (auto simp: dev_bytes_def readable_def split: option.splits)

text \<open>The blob as it will be when the last chunk is out of its buffer.\<close>

definition pending_blob :: "'d obs \<Rightarrow> pipe \<Rightarrow> 'd hook \<Rightarrow> string" where
  "pending_blob V p h =
    (case pp_prev p of
       None \<Rightarrow> blob h
     | Some k \<Rightarrow> patch (unat (pp_pblob p)) (map (m_stage (eventual V h) (pp_pbuf p)) [0..<unat (pp_psz p)]) (blob h))"

definition fits :: "pipe \<Rightarrow> 'd hook \<Rightarrow> bool" where
  "fits p h \<longleftrightarrow> pp_prev p \<noteq> None \<longrightarrow>
    pp_psz p \<le> GCR_STAGE_BYTES \<and> unat (pp_pblob p) + unat (pp_psz p) \<le> unat (h_blob_size h)"

definition next_pipe :: "pipe \<Rightarrow> size_t \<Rightarrow> size_t \<Rightarrow> pipe" where
  "next_pipe p off chunk =
    \<lparr>pp_prev = Some (pp_j p), pp_j = Suc (pp_j p), pp_pbuf = odd (pp_j p), pp_pblob = off, pp_psz = chunk\<rparr>"

lemma pending_next:
  "pending_blob V (next_pipe p off chunk) h =
    patch (unat off) (map (m_stage (eventual V h) (odd (pp_j p))) [0..<unat chunk]) (blob h)"
  by (simp add: pending_blob_def next_pipe_def)

lemma pipe_chunk_Freeze:
  assumes "copy_docs V C" "no_copy_errors C"
  shows "pipe_chunk Freeze C L dev off chunk p h =
    (Some (next_pipe p off chunk),
     (let h1 = start_transfer C (D2H (odd (pp_j p)) dev (unat chunk)) p h
      in if pp_prev p = None then h1 else stage_to_blob L (pp_pbuf p) (pp_pblob p) (pp_psz p) h1))"
proof -
  obtain h1 where "gpu_call (cudaMemcpyAsync C (D2H (odd (pp_j p)) dev (unat chunk))) h = (0, h1)"
    using async_advances [OF assms] by blast
  then show ?thesis
    by (auto simp: pipe_chunk_def drain_prev_def start_transfer_def next_pipe_def Let_def split: option.splits)
qed

lemma next_in_step:
  assumes "copy_docs V C" "no_copy_errors C" "in_step V p h" "dma_buf op = odd (pp_j p)"
  shows "in_step V (next_pipe p off chunk) (start_transfer C op p h)"
  using start_transfer_ok [OF assms(1-3), of op] assms(4) by (auto simp: in_step_def next_pipe_def)

lemma flushed_stage:
  assumes "advances V [D2H b dev n] h h1" and "queue V h1 \<in> {[], [D2H b dev n]}" and "b' \<noteq> b"
  shows "m_stage (h_mem h1) b' = m_stage (eventual V h) b'"
proof -
  have "m_stage (h_mem h1) b' = m_stage (eventual V h1) b'"
    using assms(2,3) by (auto simp: eventual_def)
  then show ?thesis using assms(1,3) by (simp add: advances_def)
qed

lemma in_step_set_blob [simp]: "in_step V p (set_blob c h) = in_step V p h"
  by (simp add: in_step_def split: option.splits)

lemma freeze_chunk:
  assumes docs: "copy_docs V C" "no_copy_errors C" "any_order L"
    and inv: "in_step V p h" "blob_ok h" "fits p h"
    and chunk: "chunk \<le> GCR_STAGE_BYTES" "unat off + unat chunk \<le> unat (h_blob_size h)"
      "readable (m_dev (eventual V h)) dev (unat chunk)"
  obtains h' where "pipe_chunk Freeze C L dev off chunk p h = (Some (next_pipe p off chunk), h')"
    and "in_step V (next_pipe p off chunk) h'" and "fits (next_pipe p off chunk) h'" and "frame h h'"
    and "pending_blob V (next_pipe p off chunk) h' =
      patch (unat off) (dev_bytes (m_dev (eventual V h)) dev (unat chunk)) (pending_blob V p h)"
    and "m_dev (eventual V h') = m_dev (eventual V h)"
proof -
  let ?op = "D2H (odd (pp_j p)) dev (unat chunk)" and ?p = "next_pipe p off chunk"
  define h1 where "h1 = start_transfer C ?op p h"
  note st = start_transfer_ok [OF docs(1,2) inv(1), of ?op, folded h1_def]
  have step: "in_step V ?p h1" unfolding h1_def by (rule next_in_step [OF docs(1,2) inv(1)]) simp
  have fr: "frame h h1" by (rule advances_frame [OF st(1) inv(2)])
  have bl: "blob h1 = blob h" "blob_ok h1" "h_blob_size h1 = h_blob_size h"
    using st(1) inv(2) frameD(5,9) [OF fr] unfolding advances_def by (metis set_gpu_simps(2), auto)
  have ev: "eventual V h1 = run_dma ?op (eventual V h)" using st(1) by (simp add: advances_def)
  then have stage: "map (m_stage (eventual V h1) (odd (pp_j p))) [0..<unat chunk] = dev_bytes (m_dev (eventual V h)) dev (unat chunk)"
    using D2H_stage [OF chunk(3)] by simp
  define h' where "h' = (if pp_prev p = None then h1 else stage_to_blob L (pp_pbuf p) (pp_pblob p) (pp_psz p) h1)"
  have run: "pipe_chunk Freeze C L dev off chunk p h = (Some ?p, h')"
    unfolding pipe_chunk_Freeze [OF docs(1,2)] h'_def h1_def by (simp add: Let_def)
  have h': "h' = set_blob (pending_blob V p h) h1"
  proof (cases "pp_prev p")
    case None
    then show ?thesis using set_blob_id [OF bl(2)] bl(1) by (simp add: h'_def pending_blob_def)
  next
    case (Some k)
    then have b: "pp_pbuf p \<noteq> odd (pp_j p)" using inv(1) by (simp add: in_step_def)
    have "stage_bytes h1 (pp_pbuf p) 0 (unat (pp_psz p)) = map (m_stage (eventual V h) (pp_pbuf p)) [0..<unat (pp_psz p)]"
      using flushed_stage [OF st(1,3) b] by (simp add: stage_bytes_def)
    then show ?thesis using Some stage_to_blob_ok [OF docs(3) bl(2)] inv(3) bl
      by (simp add: h'_def pending_blob_def fits_def)
  qed
  have len: "length (pending_blob V p h) = length (blob h)"
    using inv by (auto simp: pending_blob_def fits_def blob_ok_def split: option.splits)
  show thesis
  proof (rule that [OF run])
    show "in_step V ?p h'" using step h' by simp
    show "fits ?p h'" using chunk bl h' by (simp add: fits_def next_pipe_def)
    show "frame h h'" unfolding h' using fr frame_set_blob [OF bl(2)] len bl(1) frame_trans by metis
    show "pending_blob V ?p h' = patch (unat off) (dev_bytes (m_dev (eventual V h)) dev (unat chunk)) (pending_blob V p h)"
      by (simp add: h' pending_next stage)
    show "m_dev (eventual V h') = m_dev (eventual V h)" by (simp add: h' ev)
  qed
qed

text \<open>The same for whole segments, by composition.\<close>

definition pipe_ok :: "'d obs \<Rightarrow> pipe \<Rightarrow> 'd hook \<Rightarrow> bool" where
  "pipe_ok V p h \<longleftrightarrow> in_step V p h \<and> blob_ok h \<and> fits p h"

definition offloads :: "'d obs \<Rightarrow> (string \<Rightarrow> string) \<Rightarrow> pipe \<Rightarrow> 'd hook \<Rightarrow> pipe option \<times> 'd hook \<Rightarrow> bool" where
  "offloads V f p h r \<longleftrightarrow>
    (\<exists>p' h'. r = (Some p', h') \<and> pipe_ok V p' h' \<and> frame h h' \<and>
      pending_blob V p' h' = f (pending_blob V p h) \<and> m_dev (eventual V h') = m_dev (eventual V h))"

lemma length_pending: "pipe_ok V p h \<Longrightarrow> length (pending_blob V p h) = unat (h_blob_size h)"
  by (auto simp: pipe_ok_def pending_blob_def fits_def blob_ok_def split: option.splits)

lemma offloads_then:
  assumes "offloads V f p h (Some p', h')" and "offloads V g p' h' r" and "fg (pending_blob V p h) = g (f (pending_blob V p h))"
  shows "offloads V fg p h r"
  using assms frame_trans unfolding offloads_def by fastforce

lemma freeze_chunk_offloads:
  assumes docs: "copy_docs V C" "no_copy_errors C" "any_order L" and "pipe_ok V p h"
    and "chunk \<le> GCR_STAGE_BYTES" "unat off + unat chunk \<le> unat (h_blob_size h)"
      "readable (m_dev (eventual V h)) dev (unat chunk)"
  shows "offloads V (patch (unat off) (dev_bytes (m_dev (eventual V h)) dev (unat chunk))) p h
    (pipe_chunk Freeze C L dev off chunk p h)"
proof -
  have ok: "in_step V p h" "blob_ok h" "fits p h" using assms(4) by (simp_all add: pipe_ok_def)
  obtain h' where h': "pipe_chunk Freeze C L dev off chunk p h = (Some (next_pipe p off chunk), h')"
    "in_step V (next_pipe p off chunk) h'" "fits (next_pipe p off chunk) h'" "frame h h'"
    "pending_blob V (next_pipe p off chunk) h' =
      patch (unat off) (dev_bytes (m_dev (eventual V h)) dev (unat chunk)) (pending_blob V p h)"
    "m_dev (eventual V h') = m_dev (eventual V h)"
    by (rule freeze_chunk [OF docs ok assms(5-7)])
  then show ?thesis using frameD(9) [OF h'(4) ok(2)] unfolding offloads_def pipe_ok_def by blast
qed

lemma offloads_frame: "offloads V f p h (Some p', h') \<Longrightarrow> frame h h' \<and> pipe_ok V p' h' \<and> m_dev (eventual V h') = m_dev (eventual V h)"
  by (simp add: offloads_def)

lemma offloads_Some: "offloads V f p h r \<Longrightarrow> \<exists>p' h'. r = (Some p', h')"
  by (auto simp: offloads_def)

lemma unat_chunk: "unat (chunk_of rem) + unat (rem - chunk_of rem) = unat rem"
  using chunk_of_le [of rem] by (simp add: unat_sub word_le_nat_alt)

lemma chunk_of_stage: "chunk_of rem \<le> GCR_STAGE_BYTES"
  by (simp add: chunk_of_def less_imp_le)

lemma freeze_seg_offloads:
  assumes docs: "copy_docs V C" "no_copy_errors C" "any_order L"
  shows "pipe_ok V p h \<Longrightarrow> unat (ow_blob_off s + coff) + unat rem \<le> unat (h_blob_size h) \<Longrightarrow>
    readable (m_dev (eventual V h)) (ow_va s + coff) (unat rem) \<Longrightarrow>
    offloads V (patch (unat (ow_blob_off s + coff)) (dev_bytes (m_dev (eventual V h)) (ow_va s + coff) (unat rem))) p h
      (pipe_seg Freeze C L s rem coff p h)"
proof (induction "unat rem" arbitrary: rem coff p h rule: less_induct)
  case less
  show ?case
  proof (cases "rem = 0")
    case True
    then show ?thesis using less.prems by (subst pipe_seg.simps) (auto simp: offloads_def dev_bytes_def pipe_ok_def)
  next
    case False
    let ?c = "chunk_of rem" and ?dev = "m_dev (eventual V h)" and ?va = "ow_va s + coff" and ?off = "ow_blob_off s + coff"
    note u = unat_chunk [of rem]
    have va: "?va + of_nat (unat ?c) = ow_va s + (coff + ?c)" by (simp add: algebra_simps)
    have off: "unat (ow_blob_off s + (coff + ?c)) = unat ?off + unat ?c"
      using unat_add_fits [of ?off ?c "h_blob_size h"] less.prems(2) u by (simp add: add.assoc)
    have rd: "readable ?dev ?va (unat ?c)" "readable ?dev (ow_va s + (coff + ?c)) (unat (rem - ?c))"
      using less.prems(3) unfolding u [symmetric] readable_add va by blast+
    have o1: "offloads V (patch (unat ?off) (dev_bytes ?dev ?va (unat ?c))) p h (pipe_chunk Freeze C L ?va ?off ?c p h)"
      using less.prems u by (intro freeze_chunk_offloads [OF docs] rd chunk_of_stage) auto
    obtain p1 h1 where r1: "pipe_chunk Freeze C L ?va ?off ?c p h = (Some p1, h1)" using offloads_Some [OF o1] by blast
    note f1 = offloads_frame [OF o1 [unfolded r1]]
    have "offloads V (patch (unat (ow_blob_off s + (coff + ?c))) (dev_bytes ?dev (ow_va s + (coff + ?c)) (unat (rem - ?c)))) p1 h1
        (pipe_seg Freeze C L s (rem - ?c) (coff + ?c) p1 h1)"
      using less.hyps [OF rest_smaller [OF False], of p1 h1 "coff + ?c"] f1 less.prems(2) rd(2) off u
        frameD(5) [OF conjunct1 [OF f1]] by simp
    moreover have "patch (unat ?off) (dev_bytes ?dev ?va (unat rem)) c =
        patch (unat (ow_blob_off s + (coff + ?c))) (dev_bytes ?dev (ow_va s + (coff + ?c)) (unat (rem - ?c)))
          (patch (unat ?off) (dev_bytes ?dev ?va (unat ?c)) c)" if "length c = unat (h_blob_size h)" for c
    proof -
      have "dev_bytes ?dev ?va (unat rem) = dev_bytes ?dev ?va (unat ?c) @ dev_bytes ?dev (ow_va s + (coff + ?c)) (unat (rem - ?c))"
        using dev_bytes_add [of ?dev ?va "unat ?c" "unat (rem - ?c)"] unfolding u va .
      then show ?thesis
        using patch_append [of "unat ?off" "dev_bytes ?dev ?va (unat ?c)" "dev_bytes ?dev (ow_va s + (coff + ?c)) (unat (rem - ?c))" c]
          less.prems(2) that u off by simp
    qed
    ultimately have "offloads V (patch (unat ?off) (dev_bytes ?dev ?va (unat rem))) p h (pipe_seg Freeze C L s (rem - ?c) (coff + ?c) p1 h1)"
      using offloads_then [OF o1 [unfolded r1]] length_pending [OF less.prems(1)] by blast
    then show ?thesis using False r1 by (subst pipe_seg.simps) (simp add: Let_def)
  qed
qed

text \<open>The blob with the selected segments in it.\<close>

definition offload :: "(dptr \<Rightarrow> char option) \<Rightarrow> owned list \<Rightarrow> string \<Rightarrow> string" where
  "offload dev ss = fold (\<lambda>s. if selected Freeze s then patch (unat (ow_blob_off s)) (dev_bytes dev (ow_va s) (unat (ow_req s))) else id) ss"

text \<open>Where the selected segments lie in the blob and on the device.\<close>

definition seg_fits :: "'d hook \<Rightarrow> owned \<Rightarrow> bool" where
  "seg_fits h s \<longleftrightarrow> unat (ow_blob_off s) + unat (ow_req s) \<le> unat (h_blob_size h)"

definition seg_readable :: "(dptr \<Rightarrow> char option) \<Rightarrow> owned \<Rightarrow> bool" where
  "seg_readable dev s \<longleftrightarrow> readable dev (ow_va s) (unat (ow_req s))"

lemma freeze_segs_offloads:
  assumes docs: "copy_docs V C" "no_copy_errors C" "any_order L"
  shows "pipe_ok V p h \<Longrightarrow> (\<And>s. s \<in> set ss \<Longrightarrow> selected Freeze s \<Longrightarrow> seg_fits h s \<and> seg_readable (m_dev (eventual V h)) s) \<Longrightarrow>
    offloads V (offload (m_dev (eventual V h)) ss) p h (pipe_segs Freeze C L ss p h)"
proof (induction ss arbitrary: p h)
  case Nil
  then show ?case by (auto simp: offloads_def offload_def pipe_ok_def)
next
  case (Cons s ss)
  show ?case
  proof (cases "selected Freeze s")
    case False
    then show ?thesis using Cons by (simp add: offload_def)
  next
    case True
    let ?f = "patch (unat (ow_blob_off s)) (dev_bytes (m_dev (eventual V h)) (ow_va s) (unat (ow_req s)))"
    have o1: "offloads V ?f p h (pipe_seg Freeze C L s (ow_req s) 0 p h)"
      using freeze_seg_offloads [OF docs Cons.prems(1), of s 0 "ow_req s"] Cons.prems(2) [of s] True
      by (simp add: seg_fits_def seg_readable_def)
    obtain p1 h1 where r1: "pipe_seg Freeze C L s (ow_req s) 0 p h = (Some p1, h1)" using offloads_Some [OF o1] by blast
    note f1 = offloads_frame [OF o1 [unfolded r1]]
    have "offloads V (offload (m_dev (eventual V h)) ss) p1 h1 (pipe_segs Freeze C L ss p1 h1)"
      using Cons.IH [of p1 h1] f1 Cons.prems(2) frameD(5) [OF conjunct1 [OF f1]] by (simp add: seg_fits_def)
    from offloads_then [OF o1 [unfolded r1] this] show ?thesis using True r1 by (simp add: offload_def)
  qed
qed

subsection \<open>Blob to device\<close>

definition load_bytes :: "dptr \<Rightarrow> string \<Rightarrow> (dptr \<Rightarrow> char option) \<Rightarrow> dptr \<Rightarrow> char option" where
  "load_bytes va bytes dev = (\<lambda>x. if unat (x - va) < length bytes \<and> dev x \<noteq> None then Some (bytes ! unat (x - va)) else dev x)"

lemma load_append:
  assumes "length a + length b \<le> 2 ^ 64"
  shows "load_bytes va (a @ b) dev = load_bytes (va + of_nat (length a)) b (load_bytes va a dev)"
proof
  fix x :: dptr
  show "load_bytes va (a @ b) dev x = load_bytes (va + of_nat (length a)) b (load_bytes va a dev) x"
  proof (cases "b = []")
    case True
    then show ?thesis by (simp add: load_bytes_def)
  next
    case False
    then have "length a < 2 ^ 64" using assms by (cases b) auto
    then have la: "unat (of_nat (length a) :: dptr) = length a" by (simp add: unat_of_nat)
    have "unat (y - of_nat (length a)) = (if length a \<le> unat y then unat y - length a else unat y + 2 ^ 64 - length a)" for y :: dptr
      by (simp add: unat_sub_if_size la word_size word_le_nat_alt)
    moreover have "x - (va + of_nat (length a)) = (x - va) - of_nat (length a)" by (simp add: algebra_simps)
    ultimately have "unat (x - (va + of_nat (length a))) =
        (if length a \<le> unat (x - va) then unat (x - va) - length a else unat (x - va) + 2 ^ 64 - length a)" by presburger
    then show ?thesis using assms by (auto simp: load_bytes_def nth_append)
  qed
qed

lemma load_Nil [simp]: "load_bytes va [] dev = dev"
  by (simp add: load_bytes_def)

lemma run_dma_set_stage: "dma_buf op \<noteq> b \<Longrightarrow> run_dma op (set_stage b f m) = set_stage b f (run_dma op m)"
  by (cases m; cases op) (auto simp: set_stage_def fun_eq_iff split: option.splits)

lemma eventual_set_stage:
  assumes "in_step V p h" and "b = odd (pp_j p)"
  shows "eventual V (set_gpu (set_stage b f (h_mem h)) (h_dev h) h) = set_stage b f (eventual V h)"
  using assms run_dma_set_stage by (auto simp: eventual_def queue_def in_step_def split: option.splits)

lemma in_step_mem [simp]: "in_step V p (set_gpu m (h_dev h) h) = in_step V p h"
  by (simp add: in_step_def issued_def queue_def split: option.splits)

lemma pipe_chunk_Remap:
  assumes "copy_docs V C" "no_copy_errors C"
  shows "pipe_chunk Remap C L dev off chunk p h =
    (Some (next_pipe p off chunk),
     start_transfer C (H2D dev (odd (pp_j p)) (unat chunk)) p (blob_to_stage L (odd (pp_j p)) off chunk h))"
proof -
  obtain h1 where "gpu_call (cudaMemcpyAsync C (H2D dev (odd (pp_j p)) (unat chunk)))
      (blob_to_stage L (odd (pp_j p)) off chunk h) = (0, h1)"
    using async_advances [OF assms] by blast
  then show ?thesis
    by (auto simp: pipe_chunk_def drain_prev_def start_transfer_def next_pipe_def Let_def split: option.splits)
qed

definition onloads ::
  "'d obs \<Rightarrow> ((dptr \<Rightarrow> char option) \<Rightarrow> dptr \<Rightarrow> char option) \<Rightarrow> pipe \<Rightarrow> 'd hook \<Rightarrow> pipe option \<times> 'd hook \<Rightarrow> bool" where
  "onloads V f p h r \<longleftrightarrow>
    (\<exists>p' h'. r = (Some p', h') \<and> pipe_ok V p' h' \<and> frame h h' \<and> blob h' = blob h \<and>
      m_dev (eventual V h') = f (m_dev (eventual V h)))"

lemma onloads_then:
  assumes "onloads V f p h (Some p', h')" and "onloads V g p' h' r" and "fg (m_dev (eventual V h)) = g (f (m_dev (eventual V h)))"
  shows "onloads V fg p h r"
  using assms frame_trans unfolding onloads_def by fastforce

lemma onloads_frame: "onloads V f p h (Some p', h') \<Longrightarrow> frame h h' \<and> pipe_ok V p' h' \<and> blob h' = blob h"
  by (simp add: onloads_def)

lemma onloads_Some: "onloads V f p h r \<Longrightarrow> \<exists>p' h'. r = (Some p', h')"
  by (auto simp: onloads_def)

definition blob_part :: "'d hook \<Rightarrow> nat \<Rightarrow> nat \<Rightarrow> string" where
  "blob_part h off n = take n (drop off (blob h))"

lemma remap_chunk_onloads:
  assumes docs: "copy_docs V C" "no_copy_errors C" "any_order L" and ok: "pipe_ok V p h"
    and chunk: "chunk \<le> GCR_STAGE_BYTES" "unat off + unat chunk \<le> unat (h_blob_size h)"
  shows "onloads V (load_bytes dev (blob_part h (unat off) (unat chunk))) p h (pipe_chunk Remap C L dev off chunk p h)"
proof -
  have inv: "in_step V p h" "blob_ok h" "fits p h" using ok by (simp_all add: pipe_ok_def)
  let ?b = "odd (pp_j p)" and ?p = "next_pipe p off chunk"
  let ?f = "\<lambda>k. if k < unat chunk then blob h ! (unat off + k) else m_stage (h_mem h) ?b k"
  let ?op = "H2D dev ?b (unat chunk)"
  define h0 where "h0 = set_gpu (set_stage ?b ?f (h_mem h)) (h_dev h) h"
  define h1 where "h1 = start_transfer C ?op p h0"
  have in0: "in_step V p h0" using inv(1) by (simp add: h0_def)
  have run: "pipe_chunk Remap C L dev off chunk p h = (Some ?p, h1)"
    using blob_to_stage_ok [OF docs(3) inv(2) chunk] pipe_chunk_Remap [OF docs(1,2)] by (simp add: h1_def h0_def)
  note st = start_transfer_ok [OF docs(1,2) in0, of ?op, folded h1_def]
  have step: "in_step V ?p h1" unfolding h1_def by (rule next_in_step [OF docs(1,2) in0]) simp
  have h1: "h1 = set_gpu (h_mem h1) (h_dev h1) h"
    using st(1) unfolding advances_def h0_def set_gpu_simps by blast
  have bl: "blob h1 = blob h" "blob_ok h1" "h_blob_size h1 = h_blob_size h" "frame h h1"
    using inv(2) by (subst h1, simp)+
  have len: "length (blob h) = unat (h_blob_size h)" using inv(2) by (simp add: blob_ok_def)
  have "m_dev (eventual V h1) = m_dev (run_dma ?op (set_stage ?b ?f (eventual V h)))"
    using st(1) eventual_set_stage [OF inv(1) refl, of ?f] by (simp add: advances_def h0_def)
  also have "\<dots> = load_bytes dev (blob_part h (unat off) (unat chunk)) (m_dev (eventual V h))"
    using len chunk(2) by (auto simp: load_bytes_def blob_part_def)
  finally have "m_dev (eventual V h1) = load_bytes dev (blob_part h (unat off) (unat chunk)) (m_dev (eventual V h))" .
  moreover have "fits ?p h1" using chunk bl by (simp add: fits_def next_pipe_def)
  ultimately show ?thesis using run step bl unfolding onloads_def pipe_ok_def by blast
qed

lemma blob_part_add: "blob_part h off (a + b) = blob_part h off a @ blob_part h (off + a) b"
  by (simp add: blob_part_def take_add add.commute)

text \<open>Loading a part of the blob chunk by chunk.\<close>

lemma load_part:
  assumes "blob_ok h" and "unat off + unat rem \<le> unat (h_blob_size h)"
  shows "load_bytes va (blob_part h (unat off) (unat rem)) dev =
    load_bytes (va + chunk_of rem) (blob_part h (unat off + unat (chunk_of rem)) (unat (rem - chunk_of rem)))
      (load_bytes va (blob_part h (unat off) (unat (chunk_of rem))) dev)"
proof -
  let ?c = "chunk_of rem"
  note u = unat_chunk [of rem]
  have l: "length (blob_part h (unat off) (unat ?c)) = unat ?c"
    using assms u by (simp add: blob_part_def blob_ok_def)
  have "unat rem < 2 ^ 64" using unsigned_less [of rem, where ?'a = nat] by simp
  then have "unat ?c + length (blob_part h (unat off + unat ?c) (unat (rem - ?c))) \<le> 2 ^ 64"
    using u by (simp add: blob_part_def)
  then show ?thesis
    using load_append [of "blob_part h (unat off) (unat ?c)" "blob_part h (unat off + unat ?c) (unat (rem - ?c))" va dev]
      blob_part_add [of h "unat off" "unat ?c" "unat (rem - ?c)"] unfolding l u by simp
qed

lemma remap_seg_onloads:
  assumes docs: "copy_docs V C" "no_copy_errors C" "any_order L"
  shows "pipe_ok V p h \<Longrightarrow> unat (ow_blob_off s + coff) + unat rem \<le> unat (h_blob_size h) \<Longrightarrow>
    onloads V (load_bytes (ow_va s + coff) (blob_part h (unat (ow_blob_off s + coff)) (unat rem))) p h
      (pipe_seg Remap C L s rem coff p h)"
proof (induction "unat rem" arbitrary: rem coff p h rule: less_induct)
  case less
  show ?case
  proof (cases "rem = 0")
    case True
    then show ?thesis using less.prems
      by (subst pipe_seg.simps) (auto simp: onloads_def pipe_ok_def blob_part_def)
  next
    case False
    let ?c = "chunk_of rem" and ?va = "ow_va s + coff" and ?off = "ow_blob_off s + coff"
    note u = unat_chunk [of rem]
    have off: "unat (ow_blob_off s + (coff + ?c)) = unat ?off + unat ?c"
      using unat_add_fits [of ?off ?c "h_blob_size h"] less.prems(2) u by (simp add: add.assoc)
    have o1: "onloads V (load_bytes ?va (blob_part h (unat ?off) (unat ?c))) p h (pipe_chunk Remap C L ?va ?off ?c p h)"
      using less.prems u by (intro remap_chunk_onloads [OF docs] chunk_of_stage) auto
    obtain p1 h1 where r1: "pipe_chunk Remap C L ?va ?off ?c p h = (Some p1, h1)" using onloads_Some [OF o1] by blast
    note f1 = onloads_frame [OF o1 [unfolded r1]]
    let ?g = "load_bytes (ow_va s + (coff + ?c)) (blob_part h (unat ?off + unat ?c) (unat (rem - ?c)))"
    have "onloads V ?g p1 h1 (pipe_seg Remap C L s (rem - ?c) (coff + ?c) p1 h1)"
      using less.hyps [OF rest_smaller [OF False], of p1 h1 "coff + ?c"] f1 less.prems(2) off u
        frameD(5) [OF conjunct1 [OF f1]] by (simp add: blob_part_def)
    moreover have "load_bytes ?va (blob_part h (unat ?off) (unat rem)) dev = ?g (load_bytes ?va (blob_part h (unat ?off) (unat ?c)) dev)" for dev
      using load_part [of h ?off rem ?va dev] less.prems by (simp add: pipe_ok_def add.assoc)
    ultimately have "onloads V (load_bytes ?va (blob_part h (unat ?off) (unat rem))) p h (pipe_seg Remap C L s (rem - ?c) (coff + ?c) p1 h1)"
      using onloads_then [OF o1 [unfolded r1]] by blast
    then show ?thesis using False r1 by (subst pipe_seg.simps) (simp add: Let_def)
  qed
qed

definition onload :: "string \<Rightarrow> owned list \<Rightarrow> (dptr \<Rightarrow> char option) \<Rightarrow> dptr \<Rightarrow> char option" where
  "onload c ss = fold (\<lambda>s. if selected Remap s then load_bytes (ow_va s) (take (unat (ow_req s)) (drop (unat (ow_blob_off s)) c)) else id) ss"

lemma remap_segs_onloads:
  assumes docs: "copy_docs V C" "no_copy_errors C" "any_order L"
  shows "pipe_ok V p h \<Longrightarrow> (\<And>s. s \<in> set ss \<Longrightarrow> selected Remap s \<Longrightarrow> seg_fits h s) \<Longrightarrow>
    onloads V (onload (blob h) ss) p h (pipe_segs Remap C L ss p h)"
proof (induction ss arbitrary: p h)
  case Nil
  then show ?case by (auto simp: onloads_def onload_def pipe_ok_def)
next
  case (Cons s ss)
  show ?case
  proof (cases "selected Remap s")
    case False
    then show ?thesis using Cons by (simp add: onload_def)
  next
    case True
    have o1: "onloads V (load_bytes (ow_va s) (take (unat (ow_req s)) (drop (unat (ow_blob_off s)) (blob h)))) p h
        (pipe_seg Remap C L s (ow_req s) 0 p h)"
      using remap_seg_onloads [OF docs Cons.prems(1), of s 0 "ow_req s"] Cons.prems(2) [of s] True
      by (simp add: seg_fits_def blob_part_def)
    obtain p1 h1 where r1: "pipe_seg Remap C L s (ow_req s) 0 p h = (Some p1, h1)" using onloads_Some [OF o1] by blast
    note f1 = onloads_frame [OF o1 [unfolded r1]]
    have "onloads V (onload (blob h) ss) p1 h1 (pipe_segs Remap C L ss p1 h1)"
      using Cons.IH [of p1 h1] f1 Cons.prems(2) frameD(5) [OF conjunct1 [OF f1]] by (simp add: seg_fits_def)
    from onloads_then [OF o1 [unfolded r1] this] show ?thesis using True r1 by (simp add: onload_def)
  qed
qed

end
