(* ===== verification/Hook_Freeze.thy ===== *)
theory Hook_Freeze
  imports Hook_Pipe
begin

text \<open>
  \<^verbatim>\<open>checkpoint_freeze\<close>: the interface between the two operations of the engine and the copy they
  use, its two providers (the overlapped copy with its fallback, and the serial copy), the layout
  of the blob, and what a freeze leaves behind.
\<close>

subsection \<open>Calls that move no data\<close>

definition quiet :: "'d obs \<Rightarrow> 'd hook \<Rightarrow> 'd hook \<Rightarrow> bool" where
  "quiet V h h' \<longleftrightarrow> queue V h' = [] \<and> h' = set_gpu (h_mem h') (h_dev h') h \<and> m_dev (h_mem h') = m_dev (h_mem h)"

lemma quiet_refl [simp]: "queue V h = [] \<Longrightarrow> quiet V h h"
  by (simp add: quiet_def)

lemma quiet_trans: "quiet V h1 h2 \<Longrightarrow> quiet V h2 h3 \<Longrightarrow> quiet V h1 h3"
  unfolding quiet_def by (metis set_gpu_simps(3))

lemma quietD:
  assumes "quiet V h h'"
  shows "queue V h' = []" "m_dev (h_mem h') = m_dev (h_mem h)" "blob_ok h' = blob_ok h" "blob h' = blob h"
    "h_owned h' = h_owned h" "h_blob_size h' = h_blob_size h" "h_stageA h' = h_stageA h" "h_ptrs h' = h_ptrs h"
    "h_fault h' = h_fault h"
  using assms set_gpu_simps unfolding quiet_def by metis+

lemma quiet_frame: "quiet V h h' \<Longrightarrow> blob_ok h \<Longrightarrow> frame h h'"
  unfolding quiet_def by (metis frame_set_gpu)

lemma quiet_gpu_call: "keeps_device V f \<Longrightarrow> queue V h = [] \<Longrightarrow> quiet V h (snd (gpu_call f h))"
  by (simp add: quiet_def gpu_call_eq keeps_device_def queue_def)

lemma quiet_call_opt: "keeps_device V f \<Longrightarrow> queue V h = [] \<Longrightarrow> quiet V h (call_opt p f h)"
  by (simp add: call_opt_def quiet_gpu_call)

lemma quiet_call: "gpu_call f h = (r, h') \<Longrightarrow> keeps_device V f \<Longrightarrow> queue V h = [] \<Longrightarrow> quiet V h h'"
  using quiet_gpu_call by (metis snd_conv)

subsection \<open>The interface of a copy\<close>

definition good :: "'d obs \<Rightarrow> 'd cuda \<Rightarrow> libc \<Rightarrow> bool" where
  "good V C L \<longleftrightarrow> copy_docs V C \<and> control_docs V C \<and> no_copy_errors C \<and> any_order L"

definition ready_out :: "'d obs \<Rightarrow> 'd hook \<Rightarrow> bool" where
  "ready_out V h \<longleftrightarrow> queue V h = [] \<and> blob_ok h \<and> h_stageA h \<and>
    (\<forall>s \<in> set (h_owned h). selected Freeze s \<longrightarrow> seg_fits h s \<and> seg_readable (m_dev (h_mem h)) s)"

definition offloaded :: "'d obs \<Rightarrow> 'd hook \<Rightarrow> 'd hook \<Rightarrow> bool" where
  "offloaded V h h' \<longleftrightarrow> queue V h' = [] \<and> frame h h' \<and> m_dev (h_mem h') = m_dev (h_mem h) \<and>
    blob h' = offload (m_dev (h_mem h)) (h_owned h) (blob h)"

definition ready_in :: "'d obs \<Rightarrow> 'd hook \<Rightarrow> bool" where
  "ready_in V h \<longleftrightarrow> queue V h = [] \<and> blob_ok h \<and> h_stageA h \<and>
    (\<forall>s \<in> set (h_owned h). selected Remap s \<longrightarrow> seg_fits h s)"

definition onloaded :: "'d obs \<Rightarrow> 'd hook \<Rightarrow> 'd hook \<Rightarrow> bool" where
  "onloaded V h h' \<longleftrightarrow> queue V h' = [] \<and> frame h h' \<and> blob h' = blob h \<and>
    m_dev (h_mem h') = onload (blob h) (h_owned h) (m_dev (h_mem h))"

text \<open>Segments that do not overlap in the blob, in the order of their offsets.\<close>

definition blob_apart :: "copy_mode \<Rightarrow> owned list \<Rightarrow> bool" where
  "blob_apart mode ss \<longleftrightarrow> sorted_wrt (\<lambda>s t. selected mode s \<longrightarrow> selected mode t \<longrightarrow>
     unat (ow_blob_off s) + unat (ow_req s) \<le> unat (ow_blob_off t)) ss"

lemma length_offload:
  "(\<And>s. s \<in> set ss \<Longrightarrow> selected Freeze s \<Longrightarrow> unat (ow_blob_off s) + unat (ow_req s) \<le> length c) \<Longrightarrow>
    length (offload dev ss c) = length c"
proof (induction ss arbitrary: c)
  case (Cons s ss)
  show ?case
  proof (cases "selected Freeze s")
    case True
    then have "unat (ow_blob_off s) + unat (ow_req s) \<le> length c" using Cons.prems by simp
    then show ?thesis using Cons.IH [of "patch (unat (ow_blob_off s)) (dev_bytes dev (ow_va s) (unat (ow_req s))) c"]
      Cons.prems True by (simp add: offload_def)
  qed (use Cons in \<open>simp add: offload_def\<close>)
qed (simp add: offload_def)

lemma offload_below:
  assumes "\<And>s. s \<in> set ss \<Longrightarrow> selected Freeze s \<Longrightarrow> b \<le> unat (ow_blob_off s) \<and> unat (ow_blob_off s) + unat (ow_req s) \<le> length c"
  shows "take b (offload dev ss c) = take b c"
  using assms
proof (induction ss arbitrary: c)
  case (Cons s ss)
  show ?case
  proof (cases "selected Freeze s")
    case True
    let ?c = "patch (unat (ow_blob_off s)) (dev_bytes dev (ow_va s) (unat (ow_req s))) c"
    have fit: "b \<le> unat (ow_blob_off s)" "unat (ow_blob_off s) + unat (ow_req s) \<le> length c"
      using Cons.prems True by auto
    have "take b ?c = take b c" using fit by (simp add: patch_def min_def)
    then show ?thesis using Cons.IH [of ?c] Cons.prems fit True by (simp add: offload_def)
  qed (use Cons in \<open>simp add: offload_def\<close>)
qed (simp add: offload_def)

lemma offload_stored:
  assumes "blob_apart Freeze ss"
    and "\<And>s. s \<in> set ss \<Longrightarrow> selected Freeze s \<Longrightarrow> unat (ow_blob_off s) + unat (ow_req s) \<le> length c"
    and "s \<in> set ss" "selected Freeze s"
  shows "take (unat (ow_req s)) (drop (unat (ow_blob_off s)) (offload dev ss c)) = dev_bytes dev (ow_va s) (unat (ow_req s))"
  using assms
proof (induction ss arbitrary: c)
  case (Cons t ss)
  let ?c = "if selected Freeze t then patch (unat (ow_blob_off t)) (dev_bytes dev (ow_va t) (unat (ow_req t))) c else c"
  have off: "offload dev (t # ss) c = offload dev ss ?c" by (simp add: offload_def)
  have len: "length ?c = length c" using Cons.prems(2) [of t] by simp
  show ?case
  proof (cases "s = t")
    case True
    let ?o = "unat (ow_blob_off s)" and ?r = "unat (ow_req s)"
    have fit: "?o + ?r \<le> length c" using Cons.prems(2) [of t] Cons.prems(4) True by simp
    have "take (?o + ?r) (offload dev ss ?c) = take (?o + ?r) ?c"
    proof (rule offload_below)
      fix u assume u: "u \<in> set ss" "selected Freeze u"
      then show "?o + ?r \<le> unat (ow_blob_off u) \<and> unat (ow_blob_off u) + unat (ow_req u) \<le> length ?c"
        using Cons.prems len True by (auto simp: blob_apart_def)
    qed
    then have "take ?r (drop ?o (offload dev ss ?c)) = take ?r (drop ?o ?c)"
      by (metis take_drop add.commute)
    also have "\<dots> = dev_bytes dev (ow_va s) ?r"
      using fit True Cons.prems(4) by (simp add: patch_def)
    finally show ?thesis unfolding off .
  next
    case False
    then show ?thesis using Cons.IH [of ?c] Cons.prems len off by (simp add: blob_apart_def)
  qed
qed simp

locale offloader =
  fixes copy :: "'d cuda \<Rightarrow> libc \<Rightarrow> 'd hook \<Rightarrow> 'd hook"
  assumes copies_out: "good V C L \<Longrightarrow> ready_out V h \<Longrightarrow> offloaded V h (copy C L h)"
begin

text \<open>A client finds the bytes of every selected segment at the segment's offset.\<close>

lemma segment_stored:
  assumes "good V C L" and "ready_out V h" and "blob_apart Freeze (h_owned h)"
    and "s \<in> set (h_owned h)" and "selected Freeze s"
  shows "take (unat (ow_req s)) (drop (unat (ow_blob_off s)) (blob (copy C L h))) =
    dev_bytes (m_dev (h_mem h)) (ow_va s) (unat (ow_req s))"
  using copies_out [OF assms(1,2)] offload_stored [OF assms(3) _ assms(4,5), of "blob h"] assms(2)
  by (simp add: offloaded_def ready_out_def seg_fits_def blob_ok_def)

lemma copy_frame: "good V C L \<Longrightarrow> ready_out V h \<Longrightarrow> frame h (copy C L h) \<and> queue V (copy C L h) = []"
  using copies_out by (simp add: offloaded_def)

end

locale onloader =
  fixes copy :: "'d cuda \<Rightarrow> libc \<Rightarrow> 'd hook \<Rightarrow> 'd hook"
  assumes copies_in: "good V C L \<Longrightarrow> ready_in V h \<Longrightarrow> onloaded V h (copy C L h)"

subsection \<open>The serial copies\<close>

lemma sync_copy:
  assumes "good V C L" and "queue V h = []"
  obtains h1 where "gpu_call (cudaMemcpy C op) h = (0, h1)" "queue V h1 = []" "h1 = set_gpu (h_mem h1) (h_dev h1) h"
    "h_mem h1 = run_dma op (h_mem h)"
proof -
  obtain rc m d where c: "cudaMemcpy C op (h_mem h) (h_dev h) = (rc, m, d)" by (metis prod_cases3)
  have rc: "rc = 0" using assms(1) c by (metis good_def no_copy_errors_def succeeds_def fst_conv)
  with c assms have m: "m = run_dma op (h_mem h)" "ob_queue V d = []"
    unfolding good_def copy_docs_def queue_def by blast+
  show thesis by (rule that [of "set_gpu m d h"]) (use c rc m in \<open>simp_all add: gpu_call_eq\<close>)
qed

lemma fault_unchanged: "h_stageA h \<Longrightarrow> h\<lparr>h_fault := h_fault h \<or> \<not> h_stageA h\<rparr> = h"
  by simp

lemma serial_freeze_seg_ok:
  assumes g: "good V C L"
  shows "queue V h = [] \<Longrightarrow> blob_ok h \<Longrightarrow> h_stageA h \<Longrightarrow>
    unat (ow_blob_off s + coff) + unat rem \<le> unat (h_blob_size h) \<Longrightarrow> readable (m_dev (h_mem h)) (ow_va s + coff) (unat rem) \<Longrightarrow>
    (let h' = serial_freeze_seg C L s rem coff h
     in queue V h' = [] \<and> frame h h' \<and> m_dev (h_mem h') = m_dev (h_mem h) \<and>
       blob h' = patch (unat (ow_blob_off s + coff)) (dev_bytes (m_dev (h_mem h)) (ow_va s + coff) (unat rem)) (blob h))"
proof (induction "unat rem" arbitrary: rem coff h rule: less_induct)
  case less
  show ?case
  proof (cases "rem = 0")
    case True
    then show ?thesis using less.prems by (subst serial_freeze_seg.simps) (simp add: dev_bytes_def)
  next
    case False
    let ?c = "chunk_of rem" and ?dev = "m_dev (h_mem h)" and ?va = "ow_va s + coff" and ?off = "ow_blob_off s + coff"
    note u = unat_chunk [of rem]
    have va: "?va + of_nat (unat ?c) = ow_va s + (coff + ?c)" by (simp add: algebra_simps)
    have off: "unat (ow_blob_off s + (coff + ?c)) = unat ?off + unat ?c"
      using unat_add_fits [of ?off ?c "h_blob_size h"] less.prems(4) u by (simp add: add.assoc)
    have rd: "readable ?dev ?va (unat ?c)" "readable ?dev (ow_va s + (coff + ?c)) (unat (rem - ?c))"
      using less.prems(5) unfolding u [symmetric] readable_add va by blast+
    obtain h1 where h1: "gpu_call (cudaMemcpy C (D2H False ?va (unat ?c))) h = (0, h1)" "queue V h1 = []"
      "h1 = set_gpu (h_mem h1) (h_dev h1) h" "h_mem h1 = run_dma (D2H False ?va (unat ?c)) (h_mem h)"
      using sync_copy [OF g less.prems(1)] by blast
    have k1: "blob_ok h1" "h_stageA h1" "h_blob_size h1 = h_blob_size h" "blob h1 = blob h" "frame h h1"
      using less.prems by (subst h1(3), simp)+
    define h2 where "h2 = set_blob (patch (unat ?off) (dev_bytes ?dev ?va (unat ?c)) (blob h)) h1"
    have st: "stage_to_blob L False ?off ?c h1 = h2"
      using stage_to_blob_ok [of L h1 ?c ?off False] g k1 less.prems(4) u chunk_of_stage [of rem] D2H_stage [OF rd(1), of False]
      by (simp add: h2_def good_def stage_bytes_def h1(4))
    have len: "length (patch (unat ?off) (dev_bytes ?dev ?va (unat ?c)) (blob h)) = length (blob h)"
      using less.prems(2,4) u by (simp add: blob_ok_def)
    have k2: "queue V h2 = []" "blob_ok h2" "h_stageA h2" "m_dev (h_mem h2) = ?dev" "h_blob_size h2 = h_blob_size h" "frame h h2"
      using h1 k1 len frame_trans [OF k1(5) frame_set_blob [OF k1(1)]] by (simp_all add: h2_def)
    define h' where "h' = serial_freeze_seg C L s (rem - ?c) (coff + ?c) h2"
    have "serial_freeze_seg C L s rem coff h = h'"
      using False h1(1) st k1(2) by (subst serial_freeze_seg.simps) (simp add: Let_def h'_def)
    moreover have "queue V h' = [] \<and> frame h2 h' \<and> m_dev (h_mem h') = ?dev \<and>
        blob h' = patch (unat ?off + unat ?c) (dev_bytes ?dev (ow_va s + (coff + ?c)) (unat (rem - ?c))) (blob h2)"
      using less.hyps [OF rest_smaller [OF False] k2(1-3), of "coff + ?c"] rd(2) k2 less.prems(4) u off
      by (simp add: Let_def h'_def)
    moreover have "dev_bytes ?dev ?va (unat rem) = dev_bytes ?dev ?va (unat ?c) @ dev_bytes ?dev (ow_va s + (coff + ?c)) (unat (rem - ?c))"
      using dev_bytes_add [of ?dev ?va "unat ?c" "unat (rem - ?c)"] unfolding u va .
    ultimately show ?thesis
      using patch_append [of "unat ?off" "dev_bytes ?dev ?va (unat ?c)" "dev_bytes ?dev (ow_va s + (coff + ?c)) (unat (rem - ?c))" "blob h"]
        less.prems(2,4) u frame_trans [OF k2(6)] by (simp add: Let_def blob_ok_def h2_def)
  qed
qed

lemma serial_freeze_ok:
  assumes g: "good V C L"
  shows "queue V h = [] \<Longrightarrow> blob_ok h \<Longrightarrow> h_stageA h \<Longrightarrow>
    (\<And>s. s \<in> set ss \<Longrightarrow> selected Freeze s \<Longrightarrow> seg_fits h s \<and> seg_readable (m_dev (h_mem h)) s) \<Longrightarrow>
    (let h' = serial_freeze C L ss h
     in queue V h' = [] \<and> frame h h' \<and> m_dev (h_mem h') = m_dev (h_mem h) \<and>
       blob h' = offload (m_dev (h_mem h)) ss (blob h))"
proof (induction ss arbitrary: h)
  case (Cons s ss)
  show ?case
  proof (cases "selected Freeze s")
    case False
    then have "serial_freeze C L (s # ss) h = serial_freeze C L ss h" by (auto simp: selected_def)
    then show ?thesis using Cons False by (simp add: offload_def)
  next
    case True
    define h1 where "h1 = serial_freeze_seg C L s (ow_req s) 0 h"
    have h1: "queue V h1 = []" "frame h h1" "m_dev (h_mem h1) = m_dev (h_mem h)"
      "blob h1 = patch (unat (ow_blob_off s)) (dev_bytes (m_dev (h_mem h)) (ow_va s) (unat (ow_req s))) (blob h)"
      using serial_freeze_seg_ok [OF g Cons.prems(1-3), of s 0 "ow_req s"] Cons.prems(4) [of s] True
      by (simp_all add: Let_def h1_def seg_fits_def seg_readable_def)
    have "serial_freeze C L (s # ss) h = serial_freeze C L ss h1" using True by (simp add: selected_def h1_def)
    moreover have "(let h' = serial_freeze C L ss h1 in queue V h' = [] \<and> frame h1 h' \<and> m_dev (h_mem h') = m_dev (h_mem h1) \<and>
       blob h' = offload (m_dev (h_mem h1)) ss (blob h1))"
      using Cons.IH [OF h1(1) frameD(9) [OF h1(2) Cons.prems(2)]] frameD [OF h1(2)] Cons.prems h1(3) by (simp add: seg_fits_def)
    ultimately show ?thesis using h1 frame_trans [OF h1(2)] True by (simp add: Let_def offload_def)
  qed
qed (simp add: offload_def)

interpretation serial_out: offloader "\<lambda>C L h. serial_freeze C L (h_owned h) h"
proof
  fix V :: "'a obs" and C L and h :: "'a hook"
  assume "good V C L" and "ready_out V h"
  then show "offloaded V h (serial_freeze C L (h_owned h) h)"
    using serial_freeze_ok [of V C L h "h_owned h"] by (simp add: ready_out_def offloaded_def Let_def)
qed

lemma serial_remap_seg_ok:
  assumes g: "good V C L"
  shows "queue V h = [] \<Longrightarrow> blob_ok h \<Longrightarrow> h_stageA h \<Longrightarrow>
    unat (ow_blob_off s + coff) + unat rem \<le> unat (h_blob_size h) \<Longrightarrow>
    (let h' = serial_remap_seg C L s rem coff h
     in queue V h' = [] \<and> frame h h' \<and> blob h' = blob h \<and>
       m_dev (h_mem h') = load_bytes (ow_va s + coff) (blob_part h (unat (ow_blob_off s + coff)) (unat rem)) (m_dev (h_mem h)))"
proof (induction "unat rem" arbitrary: rem coff h rule: less_induct)
  case less
  show ?case
  proof (cases "rem = 0")
    case True
    then show ?thesis using less.prems by (subst serial_remap_seg.simps) (simp add: blob_part_def)
  next
    case False
    let ?c = "chunk_of rem" and ?va = "ow_va s + coff" and ?off = "ow_blob_off s + coff"
    note u = unat_chunk [of rem]
    have off: "unat (ow_blob_off s + (coff + ?c)) = unat ?off + unat ?c"
      using unat_add_fits [of ?off ?c "h_blob_size h"] less.prems(4) u by (simp add: add.assoc)
    let ?f = "\<lambda>k. if k < unat ?c then blob h ! (unat ?off + k) else m_stage (h_mem h) False k"
    define h0 where "h0 = set_gpu (set_stage False ?f (h_mem h)) (h_dev h) h"
    have st: "blob_to_stage L False ?off ?c h = h0"
      using blob_to_stage_ok [of L h ?c ?off False] g less.prems(2,4) u chunk_of_stage [of rem] by (simp add: h0_def good_def)
    have "queue V h0 = []" using less.prems(1) by (simp add: h0_def queue_def)
    then obtain h1 where h1: "gpu_call (cudaMemcpy C (H2D ?va False (unat ?c))) h0 = (0, h1)" "queue V h1 = []"
      "h1 = set_gpu (h_mem h1) (h_dev h1) h0" "h_mem h1 = run_dma (H2D ?va False (unat ?c)) (h_mem h0)"
      using sync_copy [OF g] by blast
    have h1': "h1 = set_gpu (h_mem h1) (h_dev h1) h" using h1(3) unfolding h0_def set_gpu_simps .
    have k1: "blob_ok h1" "h_stageA h1" "h_blob_size h1 = h_blob_size h" "blob h1 = blob h" "frame h h1"
      using less.prems by (subst h1', simp)+
    have dev1: "m_dev (h_mem h1) = load_bytes ?va (blob_part h (unat ?off) (unat ?c)) (m_dev (h_mem h))"
      using less.prems(2,4) u by (auto simp: h1(4) h0_def load_bytes_def blob_part_def blob_ok_def)
    define h' where "h' = serial_remap_seg C L s (rem - ?c) (coff + ?c) h1"
    have "serial_remap_seg C L s rem coff h = h'"
      using False h1(1) st less.prems(2,3) by (subst serial_remap_seg.simps) (simp add: Let_def h'_def blob_ok_def)
    moreover have "queue V h' = [] \<and> frame h1 h' \<and> blob h' = blob h \<and>
        m_dev (h_mem h') = load_bytes (ow_va s + (coff + ?c)) (blob_part h (unat ?off + unat ?c) (unat (rem - ?c))) (m_dev (h_mem h1))"
      using less.hyps [OF rest_smaller [OF False] h1(2) k1(1,2), of "coff + ?c"] k1 less.prems(4) u off
      by (simp add: Let_def h'_def blob_part_def)
    moreover have "load_bytes ?va (blob_part h (unat ?off) (unat rem)) dev =
        load_bytes (ow_va s + (coff + ?c)) (blob_part h (unat ?off + unat ?c) (unat (rem - ?c)))
          (load_bytes ?va (blob_part h (unat ?off) (unat ?c)) dev)" for dev
      using load_part [of h ?off rem ?va dev] less.prems(2,4) by (simp add: add.assoc)
    ultimately show ?thesis using dev1 frame_trans [OF k1(5)] by (simp add: Let_def)
  qed
qed

lemma serial_remap_ok:
  assumes g: "good V C L"
  shows "queue V h = [] \<Longrightarrow> blob_ok h \<Longrightarrow> h_stageA h \<Longrightarrow>
    (\<And>s. s \<in> set ss \<Longrightarrow> selected Remap s \<Longrightarrow> seg_fits h s) \<Longrightarrow>
    (let h' = serial_remap C L ss h
     in queue V h' = [] \<and> frame h h' \<and> blob h' = blob h \<and>
       m_dev (h_mem h') = onload (blob h) ss (m_dev (h_mem h)))"
proof (induction ss arbitrary: h)
  case (Cons s ss)
  show ?case
  proof (cases "selected Remap s")
    case False
    then have "serial_remap C L (s # ss) h = serial_remap C L ss h" by (auto simp: selected_def)
    then show ?thesis using Cons False by (simp add: onload_def)
  next
    case True
    define h1 where "h1 = serial_remap_seg C L s (ow_req s) 0 h"
    have h1: "queue V h1 = []" "frame h h1" "blob h1 = blob h"
      "m_dev (h_mem h1) = load_bytes (ow_va s) (take (unat (ow_req s)) (drop (unat (ow_blob_off s)) (blob h))) (m_dev (h_mem h))"
      using serial_remap_seg_ok [OF g Cons.prems(1-3), of s 0 "ow_req s"] Cons.prems(4) [of s] True
      by (simp_all add: Let_def h1_def seg_fits_def blob_part_def)
    have "serial_remap C L (s # ss) h = serial_remap C L ss h1" using True by (simp add: selected_def h1_def)
    moreover have "(let h' = serial_remap C L ss h1 in queue V h' = [] \<and> frame h1 h' \<and> blob h' = blob h1 \<and>
       m_dev (h_mem h') = onload (blob h1) ss (m_dev (h_mem h1)))"
      using Cons.IH [OF h1(1) frameD(9) [OF h1(2) Cons.prems(2)]] frameD [OF h1(2)] Cons.prems h1(3) by (simp add: seg_fits_def)
    ultimately show ?thesis using h1 frame_trans [OF h1(2)] True by (simp add: Let_def onload_def)
  qed
qed (simp add: onload_def)

interpretation serial_in: onloader "\<lambda>C L h. serial_remap C L (h_owned h) h"
proof
  fix V :: "'a obs" and C L and h :: "'a hook"
  assume "good V C L" and "ready_in V h"
  then show "onloaded V h (serial_remap C L (h_owned h) h)"
    using serial_remap_ok [of V C L h "h_owned h"] by (simp add: ready_in_def onloaded_def Let_def)
qed

subsection \<open>The overlapped copy with its fallback\<close>

definition copy_out :: "'d cuda \<Rightarrow> libc \<Rightarrow> 'd hook \<Rightarrow> 'd hook" where
  "copy_out C L h =
    (case pipe_copy Freeze C L h of (rc, h) \<Rightarrow> if rc = -2 then serial_freeze C L (h_owned h) h else h)"

definition copy_back :: "'d cuda \<Rightarrow> libc \<Rightarrow> 'd hook \<Rightarrow> 'd hook" where
  "copy_back C L h =
    (case pipe_copy Remap C L h of (rc, h) \<Rightarrow> if rc = -2 then serial_remap C L (h_owned h) h else h)"

text \<open>After the last wait nothing is pending.\<close>

lemma drained:
  assumes g: "good V C L" and ok: "pipe_ok V p h"
  shows "queue V (drain_prev mode C L p h) = []" and "frame h (drain_prev mode C L p h)"
    and "m_dev (h_mem (drain_prev mode C L p h)) = m_dev (eventual V h)"
    and "blob (drain_prev mode C L p h) = (if mode = Freeze then pending_blob V p h else blob h)"
proof -
  have docs: "copy_docs V C" "no_copy_errors C" "any_order L" using g by (simp_all add: good_def)
  have inv: "in_step V p h" "blob_ok h" "fits p h" using ok by (simp_all add: pipe_ok_def)
  have "queue V (drain_prev mode C L p h) = [] \<and> frame h (drain_prev mode C L p h) \<and>
    m_dev (h_mem (drain_prev mode C L p h)) = m_dev (eventual V h) \<and>
    blob (drain_prev mode C L p h) = (if mode = Freeze then pending_blob V p h else blob h)"
  proof (cases "pp_prev p")
    case None
    then show ?thesis using inv by (simp add: drain_prev_def in_step_def eventual_idle pending_blob_def)
  next
    case (Some k)
    define h1 where "h1 = snd (gpu_call (cudaEventSynchronize C (odd k)) h)"
    have a1: "advances V [] h h1" and d1: "ob_event V (h_dev h) (odd k) \<le> ob_done V (h_dev h1)"
      unfolding h1_def by (rule sync_advances [OF docs(1,2)])+
    have "ob_event V (h_dev h) (odd k) = issued V h" using inv(1) Some by (simp add: in_step_def)
    moreover have "issued V h1 = issued V h" using a1 by (simp add: advances_def)
    ultimately have "length (queue V h1) = 0" using d1 unfolding issued_def by linarith
    then have q: "queue V h1 = []" by simp
    have ev: "h_mem h1 = eventual V h" using a1 eventual_idle [OF q] by (simp add: advances_def)
    have h1: "h1 = set_gpu (h_mem h1) (h_dev h1) h" using a1 by (simp add: advances_def)
    have k1: "blob_ok h1" "h_blob_size h1 = h_blob_size h" "blob h1 = blob h" "frame h h1"
      using inv(2) by (subst h1, simp)+
    show ?thesis
    proof (cases mode)
      case Freeze
      have "drain_prev mode C L p h = set_blob (pending_blob V p h) h1"
        using stage_to_blob_ok [OF docs(3) k1(1)] inv(3) k1 Some ev
        by (simp add: drain_prev_def Freeze h1_def [symmetric] fits_def pending_blob_def stage_bytes_def)
      moreover have "length (pending_blob V p h) = length (blob h1)"
        using length_pending [OF ok] inv(2) k1(3) by (simp add: blob_ok_def)
      ultimately show ?thesis using q ev k1 Freeze frame_trans [OF k1(4) frame_set_blob [OF k1(1)]] by simp
    next
      case Remap
      then have "drain_prev mode C L p h = h1" using Some by (simp add: drain_prev_def h1_def)
      then show ?thesis using q ev k1 Remap by simp
    qed
  qed
  then show "queue V (drain_prev mode C L p h) = []" "frame h (drain_prev mode C L p h)"
    "m_dev (h_mem (drain_prev mode C L p h)) = m_dev (eventual V h)"
    "blob (drain_prev mode C L p h) = (if mode = Freeze then pending_blob V p h else blob h)" by blast+
qed

lemma pipe_fin_quiet:
  assumes "good V C L" and "queue V h = []"
  shows "quiet V h (pipe_fin C h)"
proof -
  have c: "control_docs V C" using assms(1) by (simp add: good_def)
  define h1 where "h1 = call_opt ''rt_stream_sync'' (cudaStreamSynchronize C) h"
  define h2 where "h2 = call_opt ''rt_event_destroy'' (cudaEventDestroy C False) h1"
  define h3 where "h3 = call_opt ''rt_event_destroy'' (cudaEventDestroy C True) h2"
  have q1: "quiet V h h1" unfolding h1_def using c assms(2) by (intro quiet_call_opt) (auto simp: control_docs_def)
  have q2: "quiet V h1 h2" unfolding h2_def using c quietD(1) [OF q1] by (intro quiet_call_opt) (auto simp: control_docs_def)
  have q3: "quiet V h2 h3" unfolding h3_def using c quietD(1) [OF q2] by (intro quiet_call_opt) (auto simp: control_docs_def)
  have "quiet V h3 (pipe_fin C h)"
    unfolding pipe_fin_def Let_def h1_def [symmetric] h2_def [symmetric] h3_def [symmetric]
    using c quietD(1) [OF q3] by (intro quiet_call_opt) (auto simp: control_docs_def)
  then show ?thesis using q1 q2 q3 quiet_trans by blast
qed

lemma pipe_copy_cases:
  assumes g: "good V C L" and q: "queue V h = []"
  obtains (unavailable) h' where "pipe_copy mode C L h = (-2, h')" and "quiet V h h'"
  | (started) h1 where "quiet V h h1" and "h_blob h" and "pipe_copy mode C L h =
      (case pipe_segs mode C L (h_owned h1) pipe_start h1 of
         (None, h) \<Rightarrow> (-1, pipe_fin C h) | (Some p, h) \<Rightarrow> (0, pipe_fin C (drain_prev mode C L p h)))"
proof -
  have c: "keeps_device V (cudaStreamCreate C)" "\<And>b. keeps_device V (cudaEventCreate C b)" "keeps_device V (cudaStreamDestroy C)"
    using g by (auto simp: good_def control_docs_def)
  obtain rc st h1 where r1: "gpu_call (cudaStreamCreate C) h = ((rc, st), h1)" by (metis prod.collapse)
  obtain rc0 h2 where r2: "gpu_call (cudaEventCreate C False) h1 = (rc0, h2)" by fastforce
  obtain rc1 h3 where r3: "gpu_call (cudaEventCreate C True) h2 = (rc1, h3)" by fastforce
  have q1: "quiet V h h1" by (rule quiet_call [OF r1 c(1) q])
  have q2: "quiet V h h2" using quiet_call [OF r2 c(2) quietD(1) [OF q1]] quiet_trans q1 by blast
  have q3: "quiet V h h3" using quiet_call [OF r3 c(2) quietD(1) [OF q2]] quiet_trans q2 by blast
  have d: "quiet V h (call_opt ''rt_stream_destroy'' (cudaStreamDestroy C) h')" if "quiet V h h'" for h'
    using quiet_call_opt [OF c(3) quietD(1) [OF that]] quiet_trans that by blast
  show thesis
  proof (cases "looked_up h ''rt_memcpy_async'' \<and> looked_up h ''rt_stream_create'' \<and> looked_up h ''rt_event_create'' \<and>
      looked_up h ''rt_event_record'' \<and> looked_up h ''rt_event_sync'' \<and> h_stageA h \<and> h_stageB h \<and> h_blob h")
    case False
    then have "pipe_copy mode C L h = (-2, h)" unfolding pipe_copy_def by auto
    then show thesis using unavailable q by auto
  next
    case True
    note ok = this
    show thesis
    proof (cases "rc = 0 \<and> st \<and> rc0 = 0 \<and> rc1 = 0")
      case True
      then have "pipe_copy mode C L h = (case pipe_segs mode C L (h_owned h3) pipe_start h3 of
         (None, h) \<Rightarrow> (-1, pipe_fin C h) | (Some p, h) \<Rightarrow> (0, pipe_fin C (drain_prev mode C L p h)))"
        using ok unfolding pipe_copy_def by (simp add: r1 r2 r3)
      then show thesis using started q3 ok by blast
    next
      case False
      then have "\<exists>h'. pipe_copy mode C L h = (-2, h') \<and> quiet V h h'"
        using ok q1 d [OF q2] d [OF q3] unfolding pipe_copy_def by (auto simp: r1 r2 r3)
      then show thesis using unavailable by blast
    qed
  qed
qed

lemma pipe_start_ok: "queue V h = [] \<Longrightarrow> blob_ok h \<Longrightarrow> pipe_ok V pipe_start h"
  by (simp add: pipe_ok_def in_step_def fits_def pipe_start_def)

lemma pipe_copy_out:
  assumes g: "good V C L" and r: "ready_out V h"
  obtains h' where "pipe_copy Freeze C L h = (-2, h')" "quiet V h h'" | h' where "pipe_copy Freeze C L h = (0, h')" "offloaded V h h'"
proof -
  have docs: "copy_docs V C" "no_copy_errors C" "any_order L" and q: "queue V h = []"
    using g r by (simp_all add: good_def ready_out_def)
  show thesis
  proof (cases rule: pipe_copy_cases [OF g q, of Freeze])
    case (1 h')
    then show thesis by (rule that(1))
  next
    case (2 h1)
    have b1: "blob_ok h1" "queue V h1 = []" using quietD [OF 2(1)] r by (simp_all add: ready_out_def)
    have m1: "eventual V h1 = h_mem h1" by (rule eventual_idle [OF b1(2)])
    have "offloads V (offload (m_dev (eventual V h1)) (h_owned h1)) pipe_start h1 (pipe_segs Freeze C L (h_owned h1) pipe_start h1)"
      using freeze_segs_offloads [OF docs pipe_start_ok [OF b1(2,1)], of "h_owned h1"] r quietD [OF 2(1)] m1
      by (simp add: ready_out_def seg_fits_def)
    then obtain p h2 where s: "pipe_segs Freeze C L (h_owned h1) pipe_start h1 = (Some p, h2)" "pipe_ok V p h2" "frame h1 h2"
      "pending_blob V p h2 = offload (m_dev (h_mem h1)) (h_owned h1) (blob h1)" "m_dev (eventual V h2) = m_dev (h_mem h1)"
      unfolding offloads_def m1 by (auto simp: pending_blob_def pipe_start_def)
    note dr = drained [OF g s(2), of Freeze]
    have fin: "quiet V (drain_prev Freeze C L p h2) (pipe_fin C (drain_prev Freeze C L p h2))" by (rule pipe_fin_quiet [OF g dr(1)])
    have "frame h (pipe_fin C (drain_prev Freeze C L p h2))"
      using quiet_frame [OF 2(1)] s(3) dr(2) quiet_frame [OF fin] frameD(9) b1 r frame_trans unfolding ready_out_def by metis
    then have "offloaded V h (pipe_fin C (drain_prev Freeze C L p h2))"
      using dr s quietD [OF fin] quietD [OF 2(1)] by (simp add: offloaded_def)
    then show thesis using that(2) 2(3) s(1) by simp
  qed
qed

lemma pipe_copy_in:
  assumes g: "good V C L" and r: "ready_in V h"
  obtains h' where "pipe_copy Remap C L h = (-2, h')" "quiet V h h'" | h' where "pipe_copy Remap C L h = (0, h')" "onloaded V h h'"
proof -
  have docs: "copy_docs V C" "no_copy_errors C" "any_order L" and q: "queue V h = []"
    using g r by (simp_all add: good_def ready_in_def)
  show thesis
  proof (cases rule: pipe_copy_cases [OF g q, of Remap])
    case (1 h')
    then show thesis by (rule that(1))
  next
    case (2 h1)
    have b1: "blob_ok h1" "queue V h1 = []" using quietD [OF 2(1)] r by (simp_all add: ready_in_def)
    have m1: "eventual V h1 = h_mem h1" by (rule eventual_idle [OF b1(2)])
    have "onloads V (onload (blob h1) (h_owned h1)) pipe_start h1 (pipe_segs Remap C L (h_owned h1) pipe_start h1)"
      using remap_segs_onloads [OF docs pipe_start_ok [OF b1(2,1)], of "h_owned h1"] r quietD [OF 2(1)]
      by (simp add: ready_in_def seg_fits_def)
    then obtain p h2 where s: "pipe_segs Remap C L (h_owned h1) pipe_start h1 = (Some p, h2)" "pipe_ok V p h2" "frame h1 h2"
      "blob h2 = blob h1" "m_dev (eventual V h2) = onload (blob h1) (h_owned h1) (m_dev (h_mem h1))"
      unfolding onloads_def m1 by auto
    note dr = drained [OF g s(2), of Remap]
    have fin: "quiet V (drain_prev Remap C L p h2) (pipe_fin C (drain_prev Remap C L p h2))" by (rule pipe_fin_quiet [OF g dr(1)])
    have "frame h (pipe_fin C (drain_prev Remap C L p h2))"
      using quiet_frame [OF 2(1)] s(3) dr(2) quiet_frame [OF fin] frameD(9) b1 r frame_trans unfolding ready_in_def by metis
    then have "onloaded V h (pipe_fin C (drain_prev Remap C L p h2))"
      using dr s quietD [OF fin] quietD [OF 2(1)] by (simp add: onloaded_def)
    then show thesis using that(2) 2(3) s(1) by simp
  qed
qed

interpretation overlapped_out: offloader copy_out
proof
  fix V :: "'a obs" and C L and h :: "'a hook"
  assume g: "good V C L" and r: "ready_out V h"
  show "offloaded V h (copy_out C L h)"
  proof (rule pipe_copy_out [OF g r])
    fix h' assume a: "pipe_copy Freeze C L h = (-2, h')" and q: "quiet V h h'"
    have "ready_out V h'" using r quietD [OF q] by (simp add: ready_out_def seg_fits_def)
    from serial_out.copies_out [OF g this] show ?thesis
      using a quietD [OF q] quiet_frame [OF q] r frame_trans by (auto simp: copy_out_def offloaded_def ready_out_def)
  qed (simp add: copy_out_def)
qed

interpretation overlapped_in: onloader copy_back
proof
  fix V :: "'a obs" and C L and h :: "'a hook"
  assume g: "good V C L" and r: "ready_in V h"
  show "onloaded V h (copy_back C L h)"
  proof (rule pipe_copy_in [OF g r])
    fix h' assume a: "pipe_copy Remap C L h = (-2, h')" and q: "quiet V h h'"
    have "ready_in V h'" using r quietD [OF q] by (simp add: ready_in_def seg_fits_def)
    from serial_in.copies_in [OF g this] show ?thesis
      using a quietD [OF q] quiet_frame [OF q] r frame_trans by (auto simp: copy_back_def onloaded_def ready_in_def)
  qed (simp add: copy_back_def)
qed

end
