(* ===== verification/Hook_Frames.thy ===== *)
theory Hook_Frames
  imports Hook_Freeze
begin

text \<open>
  What the copies of the engine leave alone, whatever the driver answers: a relation between
  states that every driver call and every write of the engine respects is respected by the
  copies. The two instances are the interceptor's control state and the device's reservations.
\<close>

subsection \<open>The shape of the two operations\<close>

text \<open>Each is a preparation, a copy, and what is done after the copy.\<close>

definition engine_init :: "'d cuda \<Rightarrow> libc \<Rightarrow> 'd hook \<Rightarrow> 'd hook" where
  "engine_init C L h = gcr_stage_init C L (resolve_vmm_real C (resolve_rt_copy C h))"

definition freeze_missing :: "'d hook \<Rightarrow> bool" where
  "freeze_missing h \<longleftrightarrow> \<not> looked_up h ''rt_memcpy'' \<or> \<not> looked_up h ''r_cuMemUnmap2'' \<or> \<not> looked_up h ''r_cuMemRelease2''"

definition freeze_prep :: "'d cuda \<Rightarrow> libc \<Rightarrow> 'd hook \<Rightarrow> 'd hook" where
  "freeze_prep C L h0 =
    (let h = gcr_gate_set True ((engine_init C L h0)\<lparr>h_in_remap := True\<rparr>);
         h = call_opt ''rt_setdev'' (cudaSetDevice C 0) h
     in call_opt ''rt_sync'' (cudaDeviceSynchronize C) h)"

definition freeze_close :: "'d cuda \<Rightarrow> 'd hook \<Rightarrow> 'd hook" where
  "freeze_close C h =
    (case release_segs C (h_owned h) h of
       (ss, h') \<Rightarrow> h'\<lparr>h_owned := ss, h_blob := False,
         h_blob_size := (if h_blob h' then 0 else h_blob_size h'), h_blob_fd := False, h_in_remap := False\<rparr>)"

lemma checkpoint_freeze_eq:
  "checkpoint_freeze C L getenv h =
    (if freeze_missing (engine_init C L h) then engine_init C L h
     else case assign_offsets 0 (h_owned (freeze_prep C L h)) of (ss, need) \<Rightarrow>
       if need = 0 then (freeze_prep C L h)\<lparr>h_owned := ss, h_in_remap := False\<rparr>
       else case blob_map L getenv need ((freeze_prep C L h)\<lparr>h_owned := ss\<rparr>) of
         (False, h) \<Rightarrow> h\<lparr>h_in_remap := False\<rparr>
       | (True, h) \<Rightarrow> freeze_close C (copy_out C L h))"
proof -
  have close: "(let (rc, h) = pipe_copy Freeze C L h3;
         h = (if rc = -2 then serial_freeze C L (h_owned h) h else h);
         (ss, h) = release_segs C (h_owned h) h;
         h = h\<lparr>h_owned := ss\<rparr>;
         h = (if h_blob h then h\<lparr>h_blob := False, h_blob_size := 0\<rparr> else h);
         h = h\<lparr>h_blob_fd := False\<rparr>
     in h\<lparr>h_in_remap := False\<rparr>) = freeze_close C (copy_out C L h3)" for h3
    by (auto simp: copy_out_def freeze_close_def Let_def split: prod.splits)
  show ?thesis
    unfolding checkpoint_freeze_def engine_init_def [symmetric] Let_def [of "engine_init C L h"] freeze_missing_def [symmetric]
      close [symmetric]
    by (simp add: freeze_prep_def Let_def freeze_missing_def split: prod.splits bool.splits)
qed

definition remap_missing :: "'d hook \<Rightarrow> bool" where
  "remap_missing h \<longleftrightarrow> \<not> looked_up h ''rt_memcpy'' \<or> \<not> looked_up h ''r_cuMemCreate'' \<or> \<not> looked_up h ''r_cuMemMap'' \<or>
    \<not> looked_up h ''r_cuMemSetAccess''"

definition remap_prep :: "'d cuda \<Rightarrow> libc \<Rightarrow> (string \<Rightarrow> string option) \<Rightarrow> 'd hook \<Rightarrow> 'd hook" where
  "remap_prep C L getenv h0 =
    (let h = gcr_stage_init C L h0;
         h = (if \<not> h_blob h \<and> blob_need (h_owned h) \<noteq> 0
              then snd (blob_map L getenv (blob_need (h_owned h)) h) else h);
         h = call_opt ''rt_setdev'' (cudaSetDevice C 0) h
     in case remap_segs C (h_owned h) h of (ss, h') \<Rightarrow> h'\<lparr>h_owned := ss\<rparr>)"

definition unfreeze :: "owned \<Rightarrow> owned" where
  "unfreeze s = (if ow_frozen s then s\<lparr>ow_frozen := False\<rparr> else s)"

definition remap_close :: "'d cuda \<Rightarrow> 'd hook \<Rightarrow> 'd hook" where
  "remap_close C h0 =
    (let h = call_opt ''rt_sync'' (cudaDeviceSynchronize C) h0
     in h\<lparr>h_owned := map unfreeze (h_owned h), h_in_remap := False\<rparr>)"

lemma restore_remap_eq:
  "restore_remap C L getenv h0 =
    (let h = resolve_vmm_real C (resolve_rt_copy C (h0\<lparr>h_in_remap := True\<rparr>))
     in if remap_missing h then h else remap_close C (copy_back C L (remap_prep C L getenv h)))"
  by (simp add: restore_remap_def remap_missing_def remap_close_def remap_prep_def copy_back_def unfreeze_def Let_def
      split: prod.splits)

subsection \<open>Frames of the copies\<close>

locale engine_frame =
  fixes C :: "'d cuda" and R :: "'d hook \<Rightarrow> 'd hook \<Rightarrow> bool"
  assumes same: "R h h"
    and step: "R h1 h2 \<Longrightarrow> R h2 h3 \<Longrightarrow> R h1 h3"
    and call: "R h (snd (gpu_call (cudaMemcpyAsync C op) h))" "R h (snd (gpu_call (cudaMemcpy C op) h))"
      "R h (snd (gpu_call (cudaEventRecord C b) h))" "R h (snd (gpu_call (cudaEventSynchronize C b) h))"
      "R h (snd (gpu_call (cudaEventCreate C b) h))" "R h (snd (gpu_call (cudaEventDestroy C b) h))"
      "R h (snd (gpu_call (cudaStreamCreate C) h))" "R h (snd (gpu_call (cudaStreamDestroy C) h))"
      "R h (snd (gpu_call (cudaStreamSynchronize C) h))"
    and writes: "R h (blob_write off bytes h)" "R h (stage_write b k bytes h)" "R h (h\<lparr>h_fault := x\<rparr>)"
begin

lemma kept_call:
  "gpu_call (cudaMemcpyAsync C op) h = (rc, h') \<Longrightarrow> R h h'" "gpu_call (cudaMemcpy C op) h = (rc, h') \<Longrightarrow> R h h'"
  "gpu_call (cudaEventCreate C b) h = (rc, h') \<Longrightarrow> R h h'" "gpu_call (cudaStreamCreate C) h = (x, h') \<Longrightarrow> R h h'"
  using call(1) [of h op] call(2) [of h op] call(5) [of h b] call(7) [of h] by simp_all

lemma kept_opt:
  "R h (call_opt p (cudaStreamDestroy C) h)" "R h (call_opt p (cudaStreamSynchronize C) h)"
  "R h (call_opt p (cudaEventDestroy C b) h)"
  by (simp_all add: call_opt_def call same)

lemma kept_fold: "(\<And>x h. R h (f x h)) \<Longrightarrow> R h (fold f xs h)"
proof (induction xs arbitrary: h)
  case (Cons x xs)
  then show ?case using step by (metis fold_simps(2))
qed (simp add: same)

lemma kept_copy_in: "R h (copy_in b off x h)"
  by (cases x) (simp add: copy_in_def same writes split: option.split)

lemma kept_stage_to_blob: "R h (stage_to_blob L b off n h)"
  unfolding stage_to_blob_def by (rule kept_fold) (auto intro: writes(1) split: prod.split)

lemma kept_blob_to_stage: "R h (blob_to_stage L b off n h)"
  unfolding blob_to_stage_def by (rule kept_fold) (rule kept_copy_in)

lemma kept_drain: "R h (drain_prev mode C L p h)"
  using step [OF call(4) kept_stage_to_blob] call(4) same
  by (auto simp: drain_prev_def Let_def split: option.splits)

lemma kept_chunk: "pipe_chunk mode C L dev off chunk p h = (r, h') \<Longrightarrow> R h h'"
proof -
  assume r: "pipe_chunk mode C L dev off chunk p h = (r, h')"
  obtain rc h1 where 1: "(case mode of
      Freeze \<Rightarrow> gpu_call (cudaMemcpyAsync C (D2H (odd (pp_j p)) dev (unat chunk))) h
    | Remap \<Rightarrow> gpu_call (cudaMemcpyAsync C (H2D dev (odd (pp_j p)) (unat chunk))) (blob_to_stage L (odd (pp_j p)) off chunk h)) = (rc, h1)"
    by fastforce
  have c1: "R h h1"
  proof (cases mode)
    case Freeze
    then show ?thesis using 1 kept_call(1) by simp
  next
    case Remap
    then have "gpu_call (cudaMemcpyAsync C (H2D dev (odd (pp_j p)) (unat chunk))) (blob_to_stage L (odd (pp_j p)) off chunk h) = (rc, h1)"
      using 1 by simp
    then show ?thesis by (rule step [OF kept_blob_to_stage kept_call(1)])
  qed
  show ?thesis
  proof (cases "rc = 0")
    case False
    then show ?thesis using r 1 c1 by (simp add: pipe_chunk_def Let_def)
  next
    case True
    then have "h' = drain_prev mode C L p (snd (gpu_call (cudaEventRecord C (odd (pp_j p))) h1))"
      using r 1 by (simp add: pipe_chunk_def Let_def)
    then show ?thesis using c1 call(3) kept_drain step by metis
  qed
qed

lemma kept_seg: "pipe_seg mode C L s rem coff p h = (r, h') \<Longrightarrow> R h h'"
proof (induction "unat rem" arbitrary: rem coff p h rule: less_induct)
  case less
  obtain q h1 where c: "pipe_chunk mode C L (ow_va s + coff) (ow_blob_off s + coff) (chunk_of rem) p h = (q, h1)" by fastforce
  note c1 = kept_chunk [OF c]
  show ?case
  proof (cases "rem = 0")
    case True
    then show ?thesis using less.prems same by (subst (asm) pipe_seg.simps) simp
  next
    case False
    show ?thesis
    proof (cases q)
      case None
      then show ?thesis using less.prems False c c1 by (subst (asm) pipe_seg.simps) (simp add: Let_def)
    next
      case (Some p1)
      then have "pipe_seg mode C L s (rem - chunk_of rem) (coff + chunk_of rem) p1 h1 = (r, h')"
        using less.prems False c by (subst (asm) pipe_seg.simps) (simp add: Let_def)
      then show ?thesis using less.hyps [OF rest_smaller [OF False]] step [OF c1] by blast
    qed
  qed
qed

lemma kept_segs: "pipe_segs mode C L ss p h = (r, h') \<Longrightarrow> R h h'"
proof (induction ss arbitrary: p h)
  case (Cons s ss)
  obtain q h1 where c: "pipe_seg mode C L s (ow_req s) 0 p h = (q, h1)" by fastforce
  show ?case
  proof (cases "selected mode s")
    case False
    then show ?thesis using Cons by simp
  next
    case True
    show ?thesis
    proof (cases q)
      case None
      then show ?thesis using Cons.prems True c kept_seg [OF c] by simp
    next
      case (Some p1)
      then have "pipe_segs mode C L ss p1 h1 = (r, h')" using Cons.prems True c by simp
      then show ?thesis using Cons.IH step [OF kept_seg [OF c]] by blast
    qed
  qed
qed (simp add: same)

lemma kept_fin: "R h (pipe_fin C h)"
  unfolding pipe_fin_def Let_def by (meson kept_opt step)

lemma kept_pipe_copy: "pipe_copy mode C L h = (rc, h') \<Longrightarrow> R h h'"
proof -
  assume r: "pipe_copy mode C L h = (rc, h')"
  obtain r1 st h1 where 1: "gpu_call (cudaStreamCreate C) h = ((r1, st), h1)" by (metis prod.collapse)
  obtain r2 h2 where 2: "gpu_call (cudaEventCreate C False) h1 = (r2, h2)" by fastforce
  obtain r3 h3 where 3: "gpu_call (cudaEventCreate C True) h2 = (r3, h3)" by fastforce
  obtain q h4 where 4: "pipe_segs mode C L (h_owned h3) pipe_start h3 = (q, h4)" by fastforce
  have c: "R h h1" "R h h2" "R h h3" "R h h4"
    using kept_call(4) [OF 1] kept_call(3) [OF 2] kept_call(3) [OF 3] kept_segs [OF 4] step by metis+
  have "h' \<in> {h, h1, call_opt ''rt_stream_destroy'' (cudaStreamDestroy C) h2,
      call_opt ''rt_stream_destroy'' (cudaStreamDestroy C) h3, pipe_fin C h4} \<union>
      (\<lambda>p. pipe_fin C (drain_prev mode C L p h4)) ` UNIV"
    using r 1 2 3 4 unfolding pipe_copy_def by (auto split: if_splits option.splits)
  moreover have "R h (pipe_fin C (drain_prev mode C L p h4))" for p
    by (rule step [OF step [OF c(4) kept_drain] kept_fin])
  ultimately show ?thesis
    using same c(1) step [OF c(2) kept_opt(1)] step [OF c(3) kept_opt(1)] step [OF c(4) kept_fin] by auto
qed

lemma kept_serial_freeze_seg: "R h (serial_freeze_seg C L s rem coff h)"
proof (induction "unat rem" arbitrary: rem coff h rule: less_induct)
  case less
  obtain rc h1 where c: "gpu_call (cudaMemcpy C (D2H False (ow_va s + coff) (unat (chunk_of rem)))) h = (rc, h1)" by fastforce
  let ?h2 = "stage_to_blob L False (ow_blob_off s + coff) (chunk_of rem) (h1\<lparr>h_fault := h_fault h1 \<or> \<not> h_stageA h1\<rparr>)"
  show ?case
  proof (cases "rem = 0 \<or> rc \<noteq> 0")
    case True
    then show ?thesis using c kept_call(2) [OF c] same by (subst serial_freeze_seg.simps) (auto simp: Let_def)
  next
    case False
    have "R h ?h2" by (rule step [OF step [OF kept_call(2) [OF c] writes(3)] kept_stage_to_blob])
    moreover have "R ?h2 (serial_freeze_seg C L s (rem - chunk_of rem) (coff + chunk_of rem) ?h2)"
      using less.hyps [OF rest_smaller] False by simp
    ultimately show ?thesis using False c step by (subst serial_freeze_seg.simps) (simp add: Let_def)
  qed
qed

lemma kept_serial_freeze: "R h (serial_freeze C L ss h)"
proof (induction ss arbitrary: h)
  case (Cons s ss)
  have "R h (if \<not> ow_live s \<or> ow_frozen s then h else serial_freeze_seg C L s (ow_req s) 0 h)"
    by (simp add: kept_serial_freeze_seg same)
  from step [OF this Cons.IH] show ?case by (simp only: serial_freeze.simps)
qed (simp add: same)

lemma kept_serial_remap_seg: "R h (serial_remap_seg C L s rem coff h)"
proof (induction "unat rem" arbitrary: rem coff h rule: less_induct)
  case less
  let ?h1 = "snd (gpu_call (cudaMemcpy C (H2D (ow_va s + coff) False (unat (chunk_of rem))))
     (blob_to_stage L False (ow_blob_off s + coff) (chunk_of rem) (h\<lparr>h_fault := h_fault h \<or> \<not> h_stageA h\<rparr>)))"
  show ?case
  proof (cases "rem = 0 \<or> \<not> h_blob h")
    case True
    then show ?thesis using same by (subst serial_remap_seg.simps) auto
  next
    case False
    have "R h ?h1" by (rule step [OF step [OF writes(3) kept_blob_to_stage] call(2)])
    moreover have "R ?h1 (serial_remap_seg C L s (rem - chunk_of rem) (coff + chunk_of rem) ?h1)"
      using less.hyps [OF rest_smaller] False by simp
    ultimately show ?thesis using False step by (subst serial_remap_seg.simps) (simp add: Let_def)
  qed
qed

lemma kept_serial_remap: "R h (serial_remap C L ss h)"
proof (induction ss arbitrary: h)
  case (Cons s ss)
  have "R h (if \<not> ow_frozen s then h else serial_remap_seg C L s (ow_req s) 0 h)"
    by (simp add: kept_serial_remap_seg same)
  from step [OF this Cons.IH] show ?case by (simp only: serial_remap.simps)
qed (simp add: same)

lemma kept_copies: "R h (copy_out C L h)" "R h (copy_back C L h)"
  using kept_pipe_copy step [OF kept_pipe_copy kept_serial_freeze] step [OF kept_pipe_copy kept_serial_remap]
  unfolding copy_out_def copy_back_def by (auto split: prod.split)

end

text \<open>The same for the two operations, which make more calls and write more of the state.\<close>

lemma not_async: "filter (\<lambda>p. p \<noteq> ''rt_memcpy_async'') ps = removeAll ''rt_memcpy_async'' ps"
  by (induction ps) auto

locale engine_run = engine_frame +
  assumes more_calls: "R h (snd (gpu_call (cudaSetDevice C n) h))" "R h (snd (gpu_call (cudaDeviceSynchronize C) h))"
      "R h (snd (gpu_call (cudaHostAlloc C b sz) h))" "R h (snd (gpu_call (cuMemUnmap C va sz) h))"
      "R h (snd (gpu_call (cuMemRelease C a) h))" "R h (snd (gpu_call (cuMemCreate C sz pr fl) h))"
      "R h (snd (gpu_call (cuMemMap C va sz sz' a fl) h))" "R h (snd (gpu_call (cuMemSetAccess C va sz acc) h))"
    and lookups: "R h (resolve C ps h)" "R h (reassign C stage_ptrs h)" "R h (h\<lparr>h_ptrs := removeAll ''rt_memcpy_async'' (h_ptrs h)\<rparr>)"
    and fields: "R h (h\<lparr>h_gate := x\<rparr>)" "R h (h\<lparr>h_in_remap := x\<rparr>)" "R h (h\<lparr>h_owned := ss\<rparr>)"
      "R h (h\<lparr>h_stageA := x\<rparr>)" "R h (h\<lparr>h_stageB := x\<rparr>)" "R h (h\<lparr>h_calls := k\<rparr>)" "R h (h\<lparr>h_blob := x\<rparr>)"
      "R h (h\<lparr>h_blob_size := sz\<rparr>)" "R h (h\<lparr>h_blob_fd := x\<rparr>)"
    and files: "R h (h\<lparr>h_files := (h_files h)(blob_path h := f)\<rparr>)"
    and paths: "h_data_dir h = [] \<Longrightarrow> R h (build_paths getenv h)"
begin

lemmas run_steps = same more_calls lookups fields files paths kept_copies

lemma run_calls:
  "gpu_call (cudaHostAlloc C b sz) h = (rc, h') \<Longrightarrow> R h h'" "gpu_call (cuMemCreate C sz pr fl) h = (x, h') \<Longrightarrow> R h h'"
  "gpu_call (cuMemMap C va sz sz' a fl) h = (rc, h') \<Longrightarrow> R h h'" 
  "R h (call_opt p (cudaSetDevice C n) h)" "R h (call_opt p (cudaDeviceSynchronize C) h)"
  "R h (snd (call_ptr p dflt (cuMemRelease C a) h))"
  using more_calls(3) [of h b sz] more_calls(6) [of h sz pr fl] more_calls(7) [of h va sz sz' a fl]
  by (simp_all add: call_opt_def call_ptr_def more_calls same writes(3))

lemma run_libc: "libc_call L h = (ok, h') \<Longrightarrow> R h h'"
  using fields(6) [of h "Suc (h_calls h)"] by (auto simp: libc_call_def)

lemma run_pinned: "pinned_stage C h = (ok, h') \<Longrightarrow> R h h'"
  unfolding pinned_stage_def using run_calls(1) step same by (auto split: if_splits prod.splits) blast+

lemma run_stage_init: "R h (gcr_stage_init C L h)"
proof (cases "h_stageA h")
  case False
  define h1 where "h1 = reassign C stage_ptrs (resolve C [''rt_hostalloc'', ''rt_hostfree''] h)"
  obtain ok h2 where p: "pinned_stage C h1 = (ok, h2)" by fastforce
  obtain a h3 where 3: "libc_call L h2 = (a, h3)" by fastforce
  obtain b h4 where 4: "libc_call L h3 = (b, h4)" by fastforce
  have r: "R h h2" unfolding h1_def using step [OF step [OF lookups(1) lookups(2)] run_pinned [OF p [unfolded h1_def]]] .
  have "R h4 (h4\<lparr>h_stageA := a, h_stageB := b, h_ptrs := removeAll ''rt_memcpy_async'' (h_ptrs h4)\<rparr>)"
    using step [OF step [OF fields(4) fields(5)] lookups(3), of h4 b a] by simp
  then have "R h (h4\<lparr>h_stageA := a, h_stageB := b, h_ptrs := removeAll ''rt_memcpy_async'' (h_ptrs h4)\<rparr>)"
    using step [OF step [OF r run_libc [OF 3]] run_libc [OF 4]] step by blast
  moreover have "R h (h2\<lparr>h_stageA := True, h_stageB := True\<rparr>)"
    using step [OF r step [OF fields(4) fields(5)]] by simp
  ultimately show ?thesis
    using False p 3 4 by (cases ok) (simp_all add: gcr_stage_init_def h1_def [symmetric] Let_def not_async)
qed (simp add: gcr_stage_init_def same)

lemma run_blob_map: "blob_map L getenv need h = (ok, h') \<Longrightarrow> R h h'"
proof -
  assume m: "blob_map L getenv need h = (ok, h')"
  define h1 where "h1 = (if h_data_dir h = [] then build_paths getenv h else h)"
  define h2 where "h2 = h1\<lparr>h_blob := False\<rparr>"
  obtain o1 h3 where 3: "(if h_blob_fd h2 then (True, h2) else (case libc_call L h2 of
     (True, h) \<Rightarrow> (True, h\<lparr>h_blob_fd := True, h_files := (h_files h)(blob_path h :=
         Some (case h_files h (blob_path h) of None \<Rightarrow> [] | Some c \<Rightarrow> c))\<rparr>)
   | (False, h) \<Rightarrow> (False, h))) = (o1, h3)" by fastforce
  obtain o2 h4 where 4: "libc_call L h3 = (o2, h4)" by fastforce
  define h5 where "h5 = h4\<lparr>h_files := (h_files h4)(blob_path h4 := map_option (resize (unat need)) (h_files h4 (blob_path h4)))\<rparr>"
  obtain o3 h6 where 6: "libc_call L h5 = (o3, h6)" by fastforce
  have r1: "R h h1" using paths same by (simp add: h1_def)
  have r2: "R h h2" using step [OF r1 fields(7)] by (simp add: h2_def)
  have "R h2 h3"
  proof (cases "h_blob_fd h2")
    case False
    obtain ok2 g where g: "libc_call L h2 = (ok2, g)" by fastforce
    have "R g (g\<lparr>h_blob_fd := True, h_files := (h_files g)(blob_path g := f)\<rparr>)" for f
      using step [OF fields(9) files, of g True f] by (simp add: blob_path_def)
    then show ?thesis using 3 g False run_libc [OF g] step by (cases ok2) auto
  qed (use 3 same in simp)
  then have r4: "R h h3" "R h h4" using step r2 run_libc [OF 4] by blast+
  then have r6: "R h h6" using step files run_libc [OF 6] unfolding h5_def by blast
  have "R h6 (h6\<lparr>h_blob := True, h_blob_size := need\<rparr>)" using step [OF fields(7) fields(8)] by simp
  then have r7: "R h (h6\<lparr>h_blob := True, h_blob_size := need\<rparr>)" using step r6 by blast
  show ?thesis
    using m r1 r4 r6 r7 unfolding blob_map_def h1_def [symmetric] Let_def h2_def [symmetric] 3
    by (auto simp: 4 h5_def [symmetric] 6 split: if_splits)
qed

lemma run_release: "release_segs C ss h = (ss', h') \<Longrightarrow> R h h'"
proof (induction ss arbitrary: h ss' h')
  case (Cons s ss)
  define h1 where "h1 = snd (gpu_call (cuMemRelease C (ow_handle s)) (snd (gpu_call (cuMemUnmap C (ow_va s) (ow_padded s)) h)))"
  have r1: "R h h1" unfolding h1_def by (rule step [OF more_calls(4) more_calls(5)])
  show ?case
  proof (cases "\<not> ow_live s \<or> ow_frozen s")
    case True
    then show ?thesis using Cons by (auto split: prod.splits)
  next
    case False
    then obtain tt where "release_segs C ss h1 = (tt, h')"
      using Cons.prems by (auto simp: h1_def Let_def split: prod.splits)
    then show ?thesis using Cons.IH step [OF r1] by blast
  qed
qed (simp add: same)

lemma run_remap_segs: "remap_segs C ss h = (ss', h') \<Longrightarrow> R h h'"
proof (induction ss arbitrary: h ss' h')
  case (Cons s ss)
  obtain r1 nh h1 where 1: "gpu_call (cuMemCreate C (ow_padded s) (Some (ow_prop s)) 0) h = ((r1, nh), h1)" by (metis prod.collapse)
  obtain r2 h2 where 2: "gpu_call (cuMemMap C (ow_va s) (ow_padded s) 0 nh 0) h1 = (r2, h2)" by fastforce
  define h3 where "h3 = snd (call_ptr ''r_cuMemRelease2'' 0 (cuMemRelease C nh) h2)"
  define h4 where "h4 = snd (gpu_call (cuMemSetAccess C (ow_va s) (ow_padded s) (rw_access (mp_location_id (ow_prop s)))) h2)"
  have r: "R h h1" "R h h3" "R h h4"
    unfolding h3_def h4_def using run_calls(2) [OF 1] step [OF run_calls(2) [OF 1] run_calls(3) [OF 2]]
      step [OF step [OF run_calls(2) [OF 1] run_calls(3) [OF 2]]] run_calls(6) more_calls(8) by blast+
  have "\<exists>g \<in> {h, h1, h3, h4}. \<exists>tt. remap_segs C ss g = (tt, h')"
    using Cons.prems 1 2 by (auto simp: h3_def [symmetric] h4_def [symmetric] Let_def split: if_splits prod.splits)
  then show ?case using Cons.IH r step by blast
qed (simp add: same)

lemma run_init: "R h (engine_init C L h)"
  unfolding engine_init_def resolve_vmm_real_def resolve_rt_copy_def
  by (rule step [OF step [OF lookups(1) lookups(1)] run_stage_init])

lemma run_prep: "R (engine_init C L h) (freeze_prep C L h)"
proof -
  have "R (engine_init C L h) (gcr_gate_set True ((engine_init C L h)\<lparr>h_in_remap := True\<rparr>))"
    unfolding gcr_gate_set_def by (rule step [OF fields(2) fields(1)])
  from this show ?thesis unfolding freeze_prep_def Let_def using run_calls(4,5) step by meson
qed

lemma run_close: "R h (freeze_close C h)"
proof -
  obtain tt h5 where t: "release_segs C (h_owned h) h = (tt, h5)" by fastforce
  have "R h5 (h5\<lparr>h_owned := tt, h_blob := x, h_blob_size := n, h_blob_fd := False, h_in_remap := False\<rparr>)" for x n
    using step [OF step [OF step [OF step [OF fields(3) fields(7)] fields(8)] fields(9)] fields(2)] by simp
  from step [OF run_release [OF t] this] show ?thesis unfolding freeze_close_def by (simp only: t split_conv)
qed

lemma run_freeze_init: "R (engine_init C L h) (checkpoint_freeze C L getenv h)"
proof -
  let ?h = "engine_init C L h"
  obtain ss need where a: "assign_offsets 0 (h_owned (freeze_prep C L h)) = (ss, need)" by fastforce
  obtain ok h3 where m: "blob_map L getenv need ((freeze_prep C L h)\<lparr>h_owned := ss\<rparr>) = (ok, h3)" by fastforce
  have r: "R ?h ((freeze_prep C L h)\<lparr>h_owned := ss\<rparr>)" by (rule step [OF run_prep fields(3)])
  have r3: "R ?h h3" by (rule step [OF r run_blob_map [OF m]])
  have "R ?h ((freeze_prep C L h)\<lparr>h_owned := ss, h_in_remap := False\<rparr>)" using step [OF r fields(2)] by simp
  then show ?thesis
    using same step [OF r3 fields(2)] step [OF step [OF r3 kept_copies(1)] run_close]
    by (cases ok) (simp_all add: checkpoint_freeze_eq a m)
qed

lemma run_freeze: "R h (checkpoint_freeze C L getenv h)"
  by (rule step [OF run_init run_freeze_init])

lemma run_remap: "R h (restore_remap C L getenv h)"
proof -
  define h1 where "h1 = resolve_vmm_real C (resolve_rt_copy C (h\<lparr>h_in_remap := True\<rparr>))"
  have r1: "R h h1" unfolding h1_def resolve_vmm_real_def resolve_rt_copy_def
    by (rule step [OF step [OF fields(2) lookups(1)] lookups(1)])
  define h2 where "h2 = gcr_stage_init C L h1"
  define h3 where "h3 = (if \<not> h_blob h2 \<and> blob_need (h_owned h2) \<noteq> 0
     then snd (blob_map L getenv (blob_need (h_owned h2)) h2) else h2)"
  define h4 where "h4 = call_opt ''rt_setdev'' (cudaSetDevice C 0) h3"
  obtain ss h5 where 5: "remap_segs C (h_owned h4) h4 = (ss, h5)" by fastforce
  have r2: "R h h2" unfolding h2_def by (rule step [OF r1 run_stage_init])
  have "R h2 (snd (blob_map L getenv (blob_need (h_owned h2)) h2))" by (rule run_blob_map) (rule surjective_pairing)
  then have r3: "R h h3" using step [OF r2] r2 by (simp add: h3_def)
  have "R h h4" unfolding h4_def by (rule step [OF r3 run_calls(4)])
  then have "R h (h5\<lparr>h_owned := ss\<rparr>)" using run_remap_segs [OF 5] fields(3) step by blast
  then have p: "R h (remap_prep C L getenv h1)"
    by (simp add: remap_prep_def Let_def h2_def [symmetric] h3_def [symmetric] h4_def [symmetric] 5)
  have c: "R g (remap_close C g)" for g
    using step [OF run_calls(5) step [OF fields(3) fields(2)], of g] by (simp add: remap_close_def Let_def)
  show ?thesis
    using r1 step [OF step [OF p kept_copies(2)] c] by (simp add: restore_remap_eq Let_def h1_def [symmetric])
qed

end

text \<open>The interceptor's own state, apart from the registries of buffers that are not its own.\<close>

definition same_ctl :: "'d hook \<Rightarrow> 'd hook \<Rightarrow> bool" where
  "same_ctl h h' \<longleftrightarrow> h_gate h' = h_gate h \<and> h_owned h' = h_owned h \<and> h_ptrs h' = h_ptrs h \<and>
    h_ctrl_path h' = h_ctrl_path h \<and> h_info_path h' = h_info_path h \<and> h_data_dir h' = h_data_dir h \<and>
    (\<forall>p. p \<noteq> blob_path h \<longrightarrow> h_files h' p = h_files h p)"

lemma ctl_gpu_call: "same_ctl h (snd (gpu_call f h))"
  by (simp add: same_ctl_def gpu_call_def split: prod.splits)

interpretation ctl: engine_frame C same_ctl for C
proof
  show "same_ctl h1 h3" if "same_ctl h1 h2" "same_ctl h2 h3" for h1 h2 h3 :: "'a hook"
    using that by (simp add: same_ctl_def blob_path_def)
qed (simp_all add: same_ctl_def gpu_call_def blob_write_def stage_write_def split: prod.splits)

text \<open>Where the interceptor's files are, and what is in all of them but the blob.\<close>

definition same_paths :: "'d hook \<Rightarrow> 'd hook \<Rightarrow> bool" where
  "same_paths h h' \<longleftrightarrow> (h_data_dir h \<noteq> [] \<longrightarrow> h_data_dir h' = h_data_dir h \<and>
    h_ctrl_path h' = h_ctrl_path h \<and> h_info_path h' = h_info_path h \<and>
    (\<forall>p. p \<noteq> blob_path h \<longrightarrow> h_files h' p = h_files h p))"

interpretation paths: engine_run C same_paths for C
proof
  show "same_paths h1 h3" if "same_paths h1 h2" "same_paths h2 h3" for h1 h2 h3 :: "'a hook"
    using that by (auto simp: same_paths_def blob_path_def)
qed (simp_all add: same_paths_def resolve_def reassign_def gpu_call_def blob_write_def stage_write_def blob_path_def split: prod.splits)

text \<open>Only reserving and freeing an address range changes the reservations.\<close>

definition copies_reserve_nothing :: "'d obs \<Rightarrow> 'd cuda \<Rightarrow> bool" where
  "copies_reserve_nothing V C \<longleftrightarrow>
    (\<forall>op. same_reserved V (cudaMemcpyAsync C op)) \<and> (\<forall>op. same_reserved V (cudaMemcpy C op)) \<and>
    (\<forall>b. same_reserved V (cudaEventRecord C b)) \<and> (\<forall>b. same_reserved V (cudaEventSynchronize C b)) \<and>
    (\<forall>b. same_reserved V (cudaEventCreate C b)) \<and> (\<forall>b. same_reserved V (cudaEventDestroy C b)) \<and>
    same_reserved V (cudaStreamCreate C) \<and> same_reserved V (cudaStreamDestroy C) \<and> same_reserved V (cudaStreamSynchronize C) \<and>
    (\<forall>n. same_reserved V (cudaSetDevice C n)) \<and> same_reserved V (cudaDeviceSynchronize C) \<and>
    (\<forall>b n. same_reserved V (cudaHostAlloc C b n))"

definition maps_reserve_nothing :: "'d obs \<Rightarrow> 'd cuda \<Rightarrow> bool" where
  "maps_reserve_nothing V C \<longleftrightarrow>
    (\<forall>n p fl. same_reserved V (cuMemCreate C n p fl)) \<and> (\<forall>a. same_reserved V (cuMemRelease C a)) \<and>
    (\<forall>va n off a fl. same_reserved V (cuMemMap C va n off a fl)) \<and>
    (\<forall>va n p. same_reserved V (cuMemSetAccess C va n p)) \<and> (\<forall>va n. same_reserved V (cuMemUnmap C va n))"

definition same_ranges :: "'d obs \<Rightarrow> 'd cuda \<Rightarrow> 'd hook \<Rightarrow> 'd hook \<Rightarrow> bool" where
  "same_ranges V C h h' \<longleftrightarrow> (copies_reserve_nothing V C \<longrightarrow> maps_reserve_nothing V C \<longrightarrow>
    ob_reserved V (h_dev h') = ob_reserved V (h_dev h))"

lemma same_reserved_call: "same_reserved V f \<Longrightarrow> ob_reserved V (h_dev (snd (gpu_call f h))) = ob_reserved V (h_dev h)"
  by (simp add: same_reserved_def gpu_call_eq)

interpretation ranges: engine_run C "same_ranges V C" for V C
  by unfold_locales
    (simp_all add: same_ranges_def copies_reserve_nothing_def maps_reserve_nothing_def same_reserved_call blob_write_def
      stage_write_def build_paths_def resolve_def reassign_def Let_def)

text \<open>A pointer once looked_up stays looked_up, except those the staging looks up again.\<close>

definition keeps_pointers :: "'d hook \<Rightarrow> 'd hook \<Rightarrow> bool" where
  "keeps_pointers h h' \<longleftrightarrow> (\<forall>p. p \<notin> set stage_ptrs \<longrightarrow> looked_up h p \<longrightarrow> looked_up h' p)"

lemma async_staged: "''rt_memcpy_async'' \<in> set stage_ptrs"
  by (simp add: stage_ptrs_def)

interpretation pointers: engine_run C keeps_pointers for C
  by unfold_locales
    (auto simp: keeps_pointers_def gpu_call_def blob_write_def stage_write_def resolve_def reassign_def build_paths_def Let_def
      async_staged split: prod.splits)

end
