(* ===== verification/Hook_Roundtrip.thy ===== *)
theory Hook_Roundtrip
  imports Hook_Frames
begin

text \<open>
  A freeze followed by a remap: the layout of the blob, what a freeze leaves behind, and that a
  remap on a fresh device brings every byte back to its address.
\<close>

subsection \<open>The layout of the blob\<close>

lemma ROUND2M_bounds:
  assumes "unat x + 2 ^ 21 \<le> 2 ^ 64"
  shows "unat x \<le> unat (ROUND2M x)" and "unat (ROUND2M x) < unat x + 2 ^ 21"
proof -
  define y where "y = x + 2097151"
  have y: "unat y = unat x + 2097151" using assms by (simp add: y_def unat_word_ariths)
  define m :: size_t where "m = 2097151"
  define a where "a = and y (not m)"
  have r: "ROUND2M x = a" by (simp add: ROUND2M_def a_def y_def m_def)
  have "a + and y m = or a (and y m)"
    by (rule disjunctive_add_eq_or) (auto simp: a_def bit_eq_iff bit_and_iff bit_not_iff)
  also have "\<dots> = y" by (rule bit_eqI) (auto simp: a_def bit_or_iff bit_and_iff bit_not_iff)
  finally have "y - a = and y m" by (simp add: algebra_simps)
  then have "y - a \<le> m" by (simp add: word_and_le1)
  moreover have le: "a \<le> y" unfolding a_def by (rule word_and_le2)
  ultimately have "unat y - unat a \<le> 2097151" by (simp add: word_le_nat_alt unat_sub m_def)
  then show "unat x \<le> unat (ROUND2M x)" "unat (ROUND2M x) < unat x + 2 ^ 21"
    using y r le by (simp_all add: word_le_nat_alt)
qed

definition blob_room :: "owned list \<Rightarrow> nat" where
  "blob_room ss = sum_list (map (\<lambda>s. if selected Freeze s then unat (ow_req s) + 2 ^ 21 else 0) ss)"

lemma blob_room_Cons [simp]:
  "blob_room (s # ss) = (if selected Freeze s then unat (ow_req s) + 2 ^ 21 else 0) + blob_room ss"
  by (simp add: blob_room_def)

text \<open>Assigning offsets changes nothing else.\<close>

definition placed :: "owned \<Rightarrow> owned \<Rightarrow> bool" where
  "placed s s' \<longleftrightarrow> s' = s\<lparr>ow_blob_off := ow_blob_off s'\<rparr>"

lemma placedD:
  assumes "placed s s'"
  shows "ow_va s' = ow_va s" "ow_req s' = ow_req s" "ow_padded s' = ow_padded s" "ow_live s' = ow_live s"
    "ow_frozen s' = ow_frozen s" "selected mode s' = selected mode s"
proof -
  show *: "ow_va s' = ow_va s" "ow_req s' = ow_req s" "ow_padded s' = ow_padded s" "ow_live s' = ow_live s"
    "ow_frozen s' = ow_frozen s"
    using arg_cong [OF assms [unfolded placed_def], of ow_va] arg_cong [OF assms [unfolded placed_def], of ow_req]
      arg_cong [OF assms [unfolded placed_def], of ow_padded] arg_cong [OF assms [unfolded placed_def], of ow_live]
      arg_cong [OF assms [unfolded placed_def], of ow_frozen] by simp_all
  then show "selected mode s' = selected mode s" by (simp add: selected_def)
qed

lemma list_all2_right: "list_all2 P xs ys \<Longrightarrow> x \<in> set xs \<Longrightarrow> \<exists>y \<in> set ys. P x y"
  by (metis in_set_conv_nth list_all2_conv_all_nth)

lemma list_all2_left: "list_all2 P xs ys \<Longrightarrow> y \<in> set ys \<Longrightarrow> \<exists>x \<in> set xs. P x y"
  by (metis in_set_conv_nth list_all2_conv_all_nth)

definition ends_between :: "size_t \<Rightarrow> size_t \<Rightarrow> owned list \<Rightarrow> bool" where
  "ends_between n n' ss \<longleftrightarrow> (\<forall>s \<in> set ss. selected Freeze s \<longrightarrow>
     unat n \<le> unat (ow_blob_off s) \<and> unat (ow_blob_off s) + unat (ROUND2M (ow_req s)) \<le> unat n' \<and>
     unat (ow_req s) \<le> unat (ROUND2M (ow_req s)))"

lemma assign_offsets_ok:
  "assign_offsets n ss = (ss', n') \<Longrightarrow> unat n + blob_room ss < 2 ^ 64 \<Longrightarrow>
    list_all2 placed ss ss' \<and> ends_between n n' ss' \<and> blob_apart Freeze ss' \<and>
    unat n \<le> unat n' \<and> unat n' \<le> unat n + blob_room ss"
proof (induction ss arbitrary: n ss' n')
  case (Cons s ss)
  show ?case
  proof (cases "selected Freeze s")
    case False
    then obtain tt where tt: "assign_offsets n ss = (tt, n')" "ss' = s # tt"
      using Cons.prems(1) by (auto simp: selected_def split: prod.splits if_splits)
    then show ?thesis using Cons.IH [OF tt(1)] Cons.prems(2) False
      by (auto simp: ends_between_def blob_apart_def placed_def)
  next
    case True
    let ?r = "ROUND2M (ow_req s)"
    obtain tt where tt: "assign_offsets (n + ?r) ss = (tt, n')" "ss' = s\<lparr>ow_blob_off := n\<rparr> # tt"
      using Cons.prems(1) True by (auto simp: selected_def split: prod.splits)
    have "unat (ow_req s) + 2 ^ 21 \<le> 2 ^ 64" using Cons.prems(2) True by simp
    note rb = ROUND2M_bounds [OF this]
    have un: "unat (n + ?r) = unat n + unat ?r"
      using Cons.prems(2) rb True by (simp add: unat_word_ariths)
    have ih: "list_all2 placed ss tt" "ends_between (n + ?r) n' tt" "blob_apart Freeze tt"
      "unat (n + ?r) \<le> unat n'" "unat n' \<le> unat (n + ?r) + blob_room ss"
      using Cons.IH [OF tt(1)] Cons.prems(2) rb un True by simp_all
    have "ends_between n n' ss'" using ih(2,4) un rb tt(2) by (fastforce simp: ends_between_def)
    moreover have "blob_apart Freeze ss'" using ih(2,3) un rb tt(2) by (fastforce simp: ends_between_def blob_apart_def)
    moreover have "placed s (s\<lparr>ow_blob_off := n\<rparr>)" by (simp add: placed_def)
    ultimately show ?thesis using ih un rb tt(2) True by simp
  qed
qed (simp add: ends_between_def blob_apart_def)

subsection \<open>Preparation\<close>

definition no_libc_failures :: "libc \<Rightarrow> bool" where
  "no_libc_failures L \<longleftrightarrow> (\<forall>k. \<not> lc_fails L k)"

text \<open>Steps that leave the registry, the blob and the device memory alone.\<close>

definition keeps_state :: "'d obs \<Rightarrow> 'd hook \<Rightarrow> 'd hook \<Rightarrow> bool" where
  "keeps_state V h h' \<longleftrightarrow> queue V h' = [] \<and> m_dev (h_mem h') = m_dev (h_mem h) \<and> h_owned h' = h_owned h \<and>
    h_blob h' = h_blob h \<and> h_blob_size h' = h_blob_size h \<and> h_blob_fd h' = h_blob_fd h \<and>
    h_files h' = h_files h \<and> h_data_dir h' = h_data_dir h \<and> h_fault h' = h_fault h"

lemma keeps_refl: "queue V h = [] \<Longrightarrow> keeps_state V h h"
  by (simp add: keeps_state_def)

lemma keeps_trans: "keeps_state V h1 h2 \<Longrightarrow> keeps_state V h2 h3 \<Longrightarrow> keeps_state V h1 h3"
  by (simp add: keeps_state_def)

lemma set_gpu_keeps [simp]:
  "h_blob_fd (set_gpu m d h) = h_blob_fd h" "h_files (set_gpu m d h) = h_files h" "h_data_dir (set_gpu m d h) = h_data_dir h"
  "h_gate (set_gpu m d h) = h_gate h" "h_calls (set_gpu m d h) = h_calls h" "h_in_remap (set_gpu m d h) = h_in_remap h"
  "h_stageB (set_gpu m d h) = h_stageB h"
  by (simp_all add: set_gpu_def)

lemma set_blob_gate [simp]: "h_data_dir (set_blob c h) = h_data_dir h" "h_gate (set_blob c h) = h_gate h"
  by (simp_all add: set_blob_def)

lemma quiet_keeps: "quiet V h h' \<Longrightarrow> keeps_state V h h'"
  unfolding quiet_def keeps_state_def by (metis set_gpu_simps set_gpu_keeps)

lemma keeps_resolve [simp]: "keeps_state V h (resolve C ps h') = keeps_state V h h'" "keeps_state V h (reassign C ps h') = keeps_state V h h'"
  by (simp_all add: keeps_state_def resolve_def reassign_def queue_def)

lemma keeps_fields [simp]:
  "keeps_state V h (h'\<lparr>h_in_remap := b\<rparr>) = keeps_state V h h'" "keeps_state V h (h'\<lparr>h_calls := k\<rparr>) = keeps_state V h h'"
  "keeps_state V h (h'\<lparr>h_stageA := b\<rparr>) = keeps_state V h h'" "keeps_state V h (h'\<lparr>h_stageB := b\<rparr>) = keeps_state V h h'"
  "keeps_state V h (h'\<lparr>h_ptrs := ps\<rparr>) = keeps_state V h h'" "keeps_state V h (h'\<lparr>h_gate := b\<rparr>) = keeps_state V h h'"
  by (simp_all add: keeps_state_def queue_def)

lemma resolved_resolve: "looked_up h p \<Longrightarrow> looked_up (resolve C ps h) p"
  "p \<in> set ps \<Longrightarrow> cu_has C (h_dev h) p \<Longrightarrow> looked_up (resolve C ps h) p"
  by (auto simp: resolve_def)

lemma pinned_stage_keeps:
  assumes "control_docs V C" and "keeps_state V h0 h" and "pinned_stage C h = (b, h')"
  shows "keeps_state V h0 h' \<and> h_ptrs h' = h_ptrs h"
proof -
  have k: "keeps_device V (cudaHostAlloc C c n)" for c n using assms(1) by (simp add: control_docs_def)
  obtain rA h1 where r1: "gpu_call (cudaHostAlloc C False GCR_STAGE_BYTES) h = (rA, h1)" by fastforce
  obtain rB h2 where r2: "gpu_call (cudaHostAlloc C True GCR_STAGE_BYTES) h1 = (rB, h2)" by fastforce
  have q1: "quiet V h h1" using quiet_call [OF r1 k] assms(2) by (simp add: keeps_state_def)
  have q2: "quiet V h1 h2" using quiet_call [OF r2 k] quietD(1) [OF q1] by simp
  have "keeps_state V h0 h1" "keeps_state V h0 h2" using assms(2) quiet_keeps [OF q1] quiet_keeps [OF q2] keeps_trans by blast+
  then show ?thesis using assms(2,3) r1 r2 quietD(8) [OF q1] quietD(8) [OF q2]
    by (auto simp: pinned_stage_def split: if_splits)
qed

lemma stage_init_ok:
  assumes "control_docs V C" and "no_libc_failures L" and "keeps_state V h0 h"
  shows "keeps_state V h0 (gcr_stage_init C L h)" and "h_stageA (gcr_stage_init C L h)"
    and "looked_up h p \<Longrightarrow> p \<notin> set stage_ptrs \<Longrightarrow> looked_up (gcr_stage_init C L h) p"
proof -
  have "keeps_state V h0 (gcr_stage_init C L h) \<and> h_stageA (gcr_stage_init C L h) \<and>
    (looked_up h p \<longrightarrow> p \<notin> set stage_ptrs \<longrightarrow> looked_up (gcr_stage_init C L h) p)"
  proof (cases "h_stageA h")
    case True
    then show ?thesis using assms(3) by (simp add: gcr_stage_init_def)
  next
    case False
    define h1 where "h1 = reassign C stage_ptrs (resolve C [''rt_hostalloc'', ''rt_hostfree''] h)"
    obtain b h2 where r: "pinned_stage C h1 = (b, h2)" by fastforce
    have k1: "keeps_state V h0 h1" using assms(3) by (simp add: h1_def)
    have p1: "looked_up h p \<longrightarrow> p \<notin> set stage_ptrs \<longrightarrow> looked_up h1 p" by (simp add: h1_def reassign_def resolve_def)
    have "''rt_memcpy_async'' \<in> set stage_ptrs" by (simp add: stage_ptrs_def)
    then show ?thesis
      using pinned_stage_keeps [OF assms(1) k1 r] p1 assms(2) False r
      unfolding gcr_stage_init_def h1_def [symmetric] Let_def
      by (cases b) (auto simp: libc_call_def no_libc_failures_def)
  qed
  then show "keeps_state V h0 (gcr_stage_init C L h)" "h_stageA (gcr_stage_init C L h)"
    "looked_up h p \<Longrightarrow> p \<notin> set stage_ptrs \<Longrightarrow> looked_up (gcr_stage_init C L h) p" by blast+
qed

text \<open>The blob file and its mapping belong together.\<close>

definition blob_consistent :: "'d hook \<Rightarrow> bool" where
  "blob_consistent h \<longleftrightarrow> (h_blob h \<longrightarrow> blob_ok h) \<and> (h_blob_fd h \<longrightarrow> h_files h (blob_path h) \<noteq> None)"

lemma blob_map_ok:
  assumes "no_libc_failures L" and "h_data_dir h \<noteq> []" and "blob_consistent h" and "0 \<le> sint need"
  obtains h' where "blob_map L getenv need h = (True, h')" "blob_ok h'" "need \<le> h_blob_size h'" "h_blob_fd h \<or> \<not> h_blob h \<longrightarrow> h_blob_fd h'"
    "h_mem h' = h_mem h" "h_dev h' = h_dev h" "h_owned h' = h_owned h" "h_stageA h' = h_stageA h" "h_ptrs h' = h_ptrs h"
    "h_fault h' = h_fault h" "h_data_dir h' = h_data_dir h" "h_gate h' = h_gate h"
    "\<And>c. h_files h (blob_path h) = Some c \<Longrightarrow> unat need \<le> length c \<Longrightarrow> take (unat need) (blob h') = take (unat need) c"
proof (cases "h_blob h \<and> need \<le> h_blob_size h")
  case True
  then show thesis using that [of h] assms by (simp add: blob_map_def blob_consistent_def blob_def)
next
  case False
  define c where "c = (case h_files h (blob_path h) of None \<Rightarrow> [] | Some c \<Rightarrow> c)"
  define h' where "h' = h\<lparr>h_blob := True, h_blob_size := need, h_blob_fd := True,
    h_files := (h_files h)(blob_path h \<mapsto> resize (unat need) c),
    h_calls := h_calls h + (if h_blob_fd h then 2 else 3)\<rparr>"
  have "blob_map L getenv need h = (True, h')"
  proof (cases "h_blob_fd h")
    case True
    then obtain f where "h_files h (blob_path h) = Some f" using assms(3) by (auto simp: blob_consistent_def)
    then show ?thesis using False True assms(1,2,4)
      by (auto simp: blob_map_def libc_call_def no_libc_failures_def Let_def blob_path_def h'_def c_def)
  next
    case closed: False
    then show ?thesis using False assms(1,2,4)
      by (cases "h_files h (blob_path h)")
        (auto simp: blob_map_def libc_call_def no_libc_failures_def Let_def blob_path_def h'_def c_def)
  qed
  moreover have bl: "blob h' = resize (unat need) c" by (simp add: h'_def blob_def blob_path_def)
  moreover have "blob_ok h'" by (simp add: blob_ok_def h'_def blob_def blob_path_def resize_def)
  moreover have "need \<le> h_blob_size h'" "h_blob_fd h'" "h_mem h' = h_mem h" "h_dev h' = h_dev h" "h_owned h' = h_owned h"
    "h_stageA h' = h_stageA h" "h_ptrs h' = h_ptrs h" "h_fault h' = h_fault h" "h_data_dir h' = h_data_dir h" "h_gate h' = h_gate h"
    by (simp_all add: h'_def)
  moreover have "take (unat need) (blob h') = take (unat need) f"
    if "h_files h (blob_path h) = Some f" "unat need \<le> length f" for f
    using that by (simp add: bl c_def resize_def)
  ultimately show thesis by (intro that [of h']) simp_all
qed

subsection \<open>What a freeze leaves behind\<close>

definition ranges_apart :: "owned \<Rightarrow> owned \<Rightarrow> bool" where
  "ranges_apart s t \<longleftrightarrow> (\<forall>x. \<not> (within (ow_va s) (ow_padded s) x \<and> within (ow_va t) (ow_padded t) x))"

definition segs_wf :: "'d hook \<Rightarrow> bool" where
  "segs_wf h \<longleftrightarrow>
    (\<forall>s \<in> set (h_owned h). \<not> ow_frozen s \<and>
       (ow_live s \<longrightarrow> ow_req s \<noteq> 0 \<and> ow_req s \<le> ow_padded s \<and> seg_readable (m_dev (h_mem h)) s)) \<and>
    sorted_wrt (\<lambda>s t. ow_live s \<longrightarrow> ow_live t \<longrightarrow> ranges_apart s t) (h_owned h)"

definition segs_fit :: "'d hook \<Rightarrow> bool" where
  "segs_fit h \<longleftrightarrow> segs_wf h \<and> blob_room (h_owned h) < 2 ^ 63"

definition freeze_ptrs :: "string list" where
  "freeze_ptrs = [''rt_memcpy'', ''r_cuMemUnmap2'', ''r_cuMemRelease2'', ''r_cuMemCreate'', ''r_cuMemMap'', ''r_cuMemSetAccess'']"

definition has_ptrs :: "'d cuda \<Rightarrow> bool" where
  "has_ptrs C \<longleftrightarrow> (\<forall>d. \<forall>p \<in> set freeze_ptrs. cu_has C d p)"

definition freeze_seg :: "owned \<Rightarrow> owned" where
  "freeze_seg s = (if selected Freeze s then s\<lparr>ow_frozen := True\<rparr> else s)"

lemma release_segs_eq:
  "release_segs C ss h = (ss', h') \<Longrightarrow> ss' = map freeze_seg ss \<and> h' = set_gpu (h_mem h') (h_dev h') h"
proof (induction ss arbitrary: h ss' h')
  case (Cons s ss)
  show ?case
  proof (cases "selected Freeze s")
    case False
    then show ?thesis using Cons by (auto simp: freeze_seg_def selected_def split: prod.splits if_splits)
  next
    case True
    define h1 where "h1 = snd (gpu_call (cuMemRelease C (ow_handle s)) (snd (gpu_call (cuMemUnmap C (ow_va s) (ow_padded s)) h)))"
    obtain tt where tt: "release_segs C ss h1 = (tt, h')" "ss' = s\<lparr>ow_frozen := True\<rparr> # tt"
      using Cons.prems True by (auto simp: selected_def h1_def Let_def split: prod.splits)
    have "h' = set_gpu (h_mem h') (h_dev h') h1" using Cons.IH [OF tt(1)] by blast
    also have "\<dots> = set_gpu (h_mem h') (h_dev h') h" by (simp add: h1_def gpu_call_eq)
    finally show ?thesis using Cons.IH [OF tt(1)] tt(2) True by (simp add: freeze_seg_def)
  qed
qed simp

text \<open>The freeze up to the copy.\<close>

lemma quiet_opt_keeps:
  assumes "keeps_device V f" and "keeps_state V h0 h"
  shows "keeps_state V h0 (call_opt p f h)" "h_stageA (call_opt p f h) = h_stageA h" "h_gate (call_opt p f h) = h_gate h"
    "h_ptrs (call_opt p f h) = h_ptrs h"
proof -
  have q: "quiet V h (call_opt p f h)" using assms by (intro quiet_call_opt) (simp_all add: keeps_state_def)
  show "keeps_state V h0 (call_opt p f h)" using assms(2) quiet_keeps [OF q] keeps_trans by blast
  show "h_stageA (call_opt p f h) = h_stageA h" "h_ptrs (call_opt p f h) = h_ptrs h" using quietD [OF q] by simp_all
  show "h_gate (call_opt p f h) = h_gate h" using q unfolding quiet_def by (metis set_gpu_keeps(4))
qed

lemma ptrs_vmm: "set freeze_ptrs \<subseteq> insert ''rt_memcpy'' (set vmm_ptrs)" "set freeze_ptrs \<inter> set stage_ptrs = {}"
  by (simp_all add: freeze_ptrs_def vmm_ptrs_def stage_ptrs_def)

lemma resolved_prep:
  assumes "has_ptrs C" "p \<in> set freeze_ptrs"
  shows "looked_up (resolve_vmm_real C (resolve_rt_copy C h)) p"
proof (cases "p \<in> set vmm_ptrs")
  case True
  then show ?thesis using assms unfolding resolve_vmm_real_def has_ptrs_def by (intro resolved_resolve(2)) auto
next
  case False
  then have "p = ''rt_memcpy''" using assms(2) ptrs_vmm(1) by auto
  then show ?thesis using assms unfolding resolve_vmm_real_def resolve_rt_copy_def has_ptrs_def
    by (intro resolved_resolve(1) [OF resolved_resolve(2)]) auto
qed

lemma freeze_prep_ok:
  assumes "control_docs V C" "no_libc_failures L" "queue V h = []" "has_ptrs C"
  shows "keeps_state V h (freeze_prep C L h)" "h_stageA (freeze_prep C L h)" "h_gate (freeze_prep C L h)"
    and "p \<in> set freeze_ptrs \<Longrightarrow> looked_up (freeze_prep C L h) p"
proof -
  define h1 where "h1 = resolve_vmm_real C (resolve_rt_copy C h)"
  define h2 where "h2 = gcr_gate_set True ((gcr_stage_init C L h1)\<lparr>h_in_remap := True\<rparr>)"
  define h3 where "h3 = call_opt ''rt_setdev'' (cudaSetDevice C 0) h2"
  have k1: "keeps_state V h h1" using keeps_refl [OF assms(3)] by (simp add: h1_def resolve_vmm_real_def resolve_rt_copy_def)
  note si = stage_init_ok [OF assms(1,2) k1]
  have k2: "keeps_state V h h2" "h_stageA h2" "h_gate h2" using si by (simp_all add: h2_def gcr_gate_set_def)
  have c: "keeps_device V (cudaSetDevice C 0)" "keeps_device V (cudaDeviceSynchronize C)"
    using assms(1) by (simp_all add: control_docs_def)
  note k3 = quiet_opt_keeps [OF c(1) k2(1), of "''rt_setdev''", folded h3_def]
  note k4 = quiet_opt_keeps [OF c(2) k3(1), of "''rt_sync''"]
  have eq: "freeze_prep C L h = call_opt ''rt_sync'' (cudaDeviceSynchronize C) h3"
    by (simp add: freeze_prep_def engine_init_def Let_def h1_def h2_def h3_def)
  show "keeps_state V h (freeze_prep C L h)" "h_stageA (freeze_prep C L h)" "h_gate (freeze_prep C L h)"
    using k2 k3 k4 by (simp_all add: eq)
  show "looked_up (freeze_prep C L h) p" if "p \<in> set freeze_ptrs"
  proof -
    have "p \<notin> set stage_ptrs" using ptrs_vmm(2) that by blast
    then have "looked_up (gcr_stage_init C L h1) p" using si(3) resolved_prep [OF assms(4) that, of h] by (simp add: h1_def)
    then show ?thesis using k3(4) k4(4) by (simp add: eq h2_def gcr_gate_set_def)
  qed
qed

lemma freeze_unfold:
  assumes "control_docs V C" "no_libc_failures L" "queue V h = []" "has_ptrs C"
    and "assign_offsets 0 (h_owned h) = (ss, need)" and "need \<noteq> 0"
    and "blob_map L getenv need ((freeze_prep C L h)\<lparr>h_owned := ss\<rparr>) = (True, h3)"
  shows "checkpoint_freeze C L getenv h = freeze_close C (copy_out C L h3)"
proof -
  have k1: "keeps_state V h (resolve_vmm_real C (resolve_rt_copy C h))"
    using keeps_refl [OF assms(3)] by (simp add: resolve_vmm_real_def resolve_rt_copy_def)
  have "looked_up (engine_init C L h) p" if "p \<in> set freeze_ptrs" for p
  proof -
    have "p \<notin> set stage_ptrs" using ptrs_vmm(2) that by blast
    then show ?thesis using stage_init_ok(3) [OF assms(1,2) k1] resolved_prep [OF assms(4) that] by (simp add: engine_init_def)
  qed
  then have "\<not> freeze_missing (engine_init C L h)" by (simp add: freeze_missing_def freeze_ptrs_def)
  moreover have "h_owned (freeze_prep C L h) = h_owned h" using freeze_prep_ok(1) [OF assms(1-4)] by (simp add: keeps_state_def)
  ultimately show ?thesis using assms(5-7) by (simp add: checkpoint_freeze_eq)
qed

lemma sint_nonneg: "unat (n :: size_t) < 2 ^ 63 \<Longrightarrow> 0 \<le> sint n"
proof -
  assume "unat n < 2 ^ 63"
  then have "int (unat n) < int (2 ^ 63)" by (simp only: of_nat_less_iff)
  then have lt: "uint n < 2 ^ 63" by (simp only: of_nat_unat of_nat_power of_nat_numeral)
  have "- (2 ^ 63) \<le> uint n" by (rule order.trans [OF _ uint_ge_0]) simp
  then have "signed_take_bit 63 (uint n) = uint n" using lt by (rule signed_take_bit_int_eq_self)
  moreover have "sint n = signed_take_bit 63 (uint n)" by (simp add: sint_uint)
  ultimately show "0 \<le> sint n" by (metis uint_ge_0)
qed

definition can_freeze :: "'d obs \<Rightarrow> 'd cuda \<Rightarrow> libc \<Rightarrow> 'd hook \<Rightarrow> bool" where
  "can_freeze V C L h \<longleftrightarrow> good V C L \<and> no_libc_failures L \<and> has_ptrs C \<and> queue V h = [] \<and>
    h_data_dir h \<noteq> [] \<and> blob_consistent h \<and> segs_fit h"

lemma offsets_ok:
  assumes "segs_fit h" and "s0 \<in> set (h_owned h)" "ow_live s0" and "assign_offsets 0 (h_owned h) = (ss, need)"
  shows "list_all2 placed (h_owned h) ss" "ends_between 0 need ss" "blob_apart Freeze ss" "need \<noteq> 0" "unat need < 2 ^ 63"
proof -
  have room: "blob_room (h_owned h) < 2 ^ 63" using assms(1) by (simp add: segs_fit_def)
  then have a: "list_all2 placed (h_owned h) ss \<and> ends_between 0 need ss \<and> blob_apart Freeze ss \<and>
    unat (0 :: size_t) \<le> unat need \<and> unat need \<le> unat (0 :: size_t) + blob_room (h_owned h)"
    by (intro assign_offsets_ok [OF assms(4)]) simp
  then show "list_all2 placed (h_owned h) ss" "ends_between 0 need ss" "blob_apart Freeze ss" "unat need < 2 ^ 63"
    using room by simp_all
  obtain s where s: "s \<in> set ss" "placed s0 s" using a assms(2) list_all2_right by metis
  have "selected Freeze s" "ow_req s \<noteq> 0"
    using assms(1-3) s(2) by (auto simp: segs_fit_def segs_wf_def placedD selected_def)
  then have "0 < unat need" using a s(1) unfolding ends_between_def by (metis gr_zeroI le_zero_eq add_is_0 unat_eq_0)
  then show "need \<noteq> 0" by auto
qed

lemma freeze_ok:
  assumes cf: "can_freeze V C L h" and s0: "s0 \<in> set (h_owned h)" "ow_live s0"
    and as: "assign_offsets 0 (h_owned h) = (ss, need)"
  obtains c h' where "checkpoint_freeze C L getenv h = h'" "h_owned h' = map freeze_seg ss"
    "h_files h' (blob_path h') = Some c" "unat need \<le> length c"
    "\<And>s. s \<in> set ss \<Longrightarrow> selected Freeze s \<Longrightarrow> take (unat (ow_req s)) (drop (unat (ow_blob_off s)) c) =
        dev_bytes (m_dev (h_mem h)) (ow_va s) (unat (ow_req s))"
    "\<not> h_blob h'" "\<not> h_blob_fd h'" "h_gate h'" "\<not> h_in_remap h'" "h_fault h' = h_fault h" "h_data_dir h' = h_data_dir h"
proof -
  have g: "good V C L" and L: "no_libc_failures L" and ptr: "has_ptrs C" and q: "queue V h = []" and dd: "h_data_dir h \<noteq> []"
    and bc: "blob_consistent h" and so: "segs_fit h"
    using cf by (simp_all add: can_freeze_def)
  have c: "control_docs V C" using g by (simp add: good_def)
  note off = offsets_ok [OF so s0 as]
  define h2 where "h2 = (freeze_prep C L h)\<lparr>h_owned := ss\<rparr>"
  note fp = freeze_prep_ok [OF c L q ptr]
  have k: "queue V h2 = []" "m_dev (h_mem h2) = m_dev (h_mem h)" "h_data_dir h2 = h_data_dir h" "h_fault h2 = h_fault h"
    "h_stageA h2" "h_gate h2" "blob_consistent h2"
    using fp bc by (simp_all add: h2_def keeps_state_def queue_def blob_consistent_def blob_ok_def blob_def blob_path_def)
  obtain h3 where h3: "blob_map L getenv need h2 = (True, h3)" "blob_ok h3" "need \<le> h_blob_size h3"
    "h_mem h3 = h_mem h2" "h_dev h3 = h_dev h2" "h_owned h3 = h_owned h2" "h_stageA h3 = h_stageA h2"
    "h_fault h3 = h_fault h2" "h_data_dir h3 = h_data_dir h2" "h_gate h3 = h_gate h2"
    by (rule blob_map_ok [OF L _ k(7) sint_nonneg [OF off(5)], of getenv]) (use dd k(3) in auto)
  have own3: "h_owned h3 = ss" using h3(6) by (simp add: h2_def)
  have rdy: "ready_out V h3"
    unfolding ready_out_def
  proof (intro conjI ballI impI)
    show "queue V h3 = []" using k(1) h3(5) by (simp add: queue_def)
    show "blob_ok h3" "h_stageA h3" using h3 k by simp_all
    fix s assume s: "s \<in> set (h_owned h3)" "selected Freeze s"
    then show "seg_fits h3 s"
      using off(2) h3(3) own3 unfolding seg_fits_def ends_between_def word_le_nat_alt by fastforce
    obtain s1 where "s1 \<in> set (h_owned h)" "placed s1 s"
      using off(1) s(1) own3 list_all2_left by metis
    then show "seg_readable (m_dev (h_mem h3)) s"
      using so s(2) h3(4) k(2) by (simp add: segs_fit_def segs_wf_def seg_readable_def placedD selected_def)
  qed
  define h4 where "h4 = copy_out C L h3"
  have f4: "frame h3 h4" unfolding h4_def using overlapped_out.copy_frame [OF g rdy] by blast
  have run: "checkpoint_freeze C L getenv h = freeze_close C h4"
    unfolding h4_def by (rule freeze_unfold [OF c L q ptr as off(4) h3(1) [unfolded h2_def]])
  obtain tt h5 where r: "release_segs C (h_owned h4) h4 = (tt, h5)" by fastforce
  note rel = release_segs_eq [OF r]
  have e5: "h5 = set_gpu (h_mem h5) (h_dev h5) h4" using rel by blast
  have k5: "h_files h5 = h_files h4" "h_data_dir h5 = h_data_dir h4" "h_gate h5 = h_gate h4" "h_fault h5 = h_fault h4"
    by (subst e5, simp)+
  have k4: "h_data_dir h4 = h_data_dir h3" "h_gate h4 = h_gate h3"
    using f4 unfolding frame_def by (metis set_blob_gate set_gpu_keeps)+
  have "blob_ok h4" using frameD(9) [OF f4 h3(2)] .
  then have bl: "h_files h4 (blob_path h4) = Some (blob h4)" "length (blob h4) = unat (h_blob_size h4)"
    by (auto simp: blob_ok_def blob_def)
  show thesis
  proof (rule that [OF run, of "blob h4"])
    show "h_owned (freeze_close C h4) = map freeze_seg ss" using rel frameD(1) [OF f4] own3 r by (simp add: freeze_close_def)
    show "h_files (freeze_close C h4) (blob_path (freeze_close C h4)) = Some (blob h4)"
      using bl k5 by (simp add: freeze_close_def r blob_path_def)
    show "unat need \<le> length (blob h4)" using bl(2) h3(3) frameD(5) [OF f4] by (simp add: word_le_nat_alt)
    show "take (unat (ow_req s)) (drop (unat (ow_blob_off s)) (blob h4)) = dev_bytes (m_dev (h_mem h)) (ow_va s) (unat (ow_req s))"
      if "s \<in> set ss" "selected Freeze s" for s
      using overlapped_out.segment_stored [OF g rdy, of s] off(3) own3 that h3(4) k(2) by (simp add: h4_def)
    show "\<not> h_blob (freeze_close C h4)" "\<not> h_blob_fd (freeze_close C h4)" "\<not> h_in_remap (freeze_close C h4)"
      by (simp_all add: freeze_close_def r)
    show "h_gate (freeze_close C h4)" "h_fault (freeze_close C h4) = h_fault h" "h_data_dir (freeze_close C h4) = h_data_dir h"
      using k5 k4 k h3 frameD(2) [OF f4] by (simp_all add: freeze_close_def r)
  qed
qed

end
