(* ===== verification/Hook_Restore.thy ===== *)
theory Hook_Restore
  imports Hook_Roundtrip
begin

text \<open>
  \<^verbatim>\<open>restore_remap\<close>, and its composition with \<^verbatim>\<open>checkpoint_freeze\<close>.
\<close>

subsection \<open>Mapping the segments again\<close>

definition frozen_apart :: "owned list \<Rightarrow> bool" where
  "frozen_apart ss \<longleftrightarrow> sorted_wrt (\<lambda>s t. ow_frozen s \<longrightarrow> ow_frozen t \<longrightarrow> ranges_apart s t) ss"

definition rehandled :: "owned \<Rightarrow> owned \<Rightarrow> bool" where
  "rehandled s s' \<longleftrightarrow> s' = s\<lparr>ow_handle := ow_handle s'\<rparr>"

lemma rehandledD:
  assumes "rehandled s s'"
  shows "ow_va s' = ow_va s" "ow_req s' = ow_req s" "ow_padded s' = ow_padded s" "ow_blob_off s' = ow_blob_off s"
    "ow_frozen s' = ow_frozen s" "ow_live s' = ow_live s"
  using arg_cong [OF assms [unfolded rehandled_def], of ow_va] arg_cong [OF assms [unfolded rehandled_def], of ow_req]
    arg_cong [OF assms [unfolded rehandled_def], of ow_padded] arg_cong [OF assms [unfolded rehandled_def], of ow_blob_off]
    arg_cong [OF assms [unfolded rehandled_def], of ow_frozen] arg_cong [OF assms [unfolded rehandled_def], of ow_live] by simp_all

lemma rehandled_apart:
  assumes "rehandled s s'" "rehandled t t'"
  shows "(ow_frozen s' \<longrightarrow> ow_frozen t' \<longrightarrow> ranges_apart s' t') = (ow_frozen s \<longrightarrow> ow_frozen t \<longrightarrow> ranges_apart s t)"
  by (simp add: ranges_apart_def rehandledD [OF assms(1)] rehandledD [OF assms(2)])

definition outside :: "owned list \<Rightarrow> dptr \<Rightarrow> bool" where
  "outside ss x \<longleftrightarrow> (\<forall>s \<in> set ss. ow_frozen s \<longrightarrow> \<not> within (ow_va s) (ow_padded s) x)"

lemma remap_one:
  assumes docs: "vmm_docs V C" "control_docs V C" "no_vmm_errors C" and q: "queue V h = []"
  obtains nh h1 h2 h3 where "gpu_call (cuMemCreate C n p 0) h = ((0, nh), h1)" "gpu_call (cuMemMap C va n 0 nh 0) h1 = (0, h2)"
    "gpu_call (cuMemSetAccess C va n a) h2 = (0, h3)" "queue V h3 = []" "h3 = set_gpu (h_mem h3) (h_dev h3) h"
    "\<And>x. \<not> within va n x \<Longrightarrow> m_dev (h_mem h3) x = m_dev (h_mem h) x" "\<And>x. within va n x \<Longrightarrow> m_dev (h_mem h3) x \<noteq> None"
proof -
  obtain rc nh h1 where r1: "gpu_call (cuMemCreate C n p 0) h = ((rc, nh), h1)" by (metis prod.collapse)
  obtain rc2 h2 where r2: "gpu_call (cuMemMap C va n 0 nh 0) h1 = (rc2, h2)" by fastforce
  obtain rc3 h3 where r3: "gpu_call (cuMemSetAccess C va n a) h2 = (rc3, h3)" by fastforce
  have rc: "rc = 0" "rc2 = 0" "rc3 = 0"
    using docs(3) r1 r2 r3 unfolding no_vmm_errors_def succeeds_def gpu_call_eq by (metis fst_conv)+
  have e: "h1 = set_gpu (h_mem h1) (h_dev h1) h" "h2 = set_gpu (h_mem h2) (h_dev h2) h1" "h3 = set_gpu (h_mem h3) (h_dev h3) h2"
    using r1 r2 r3 by (auto simp: gpu_call_eq)
  have q1: "quiet V h h1" using quiet_call [OF r1 _ q] docs(2) by (simp add: control_docs_def)
  have c2: "changes_within V va n (cuMemMap C va n 0 nh 0)" and c3: "changes_within V va n (cuMemSetAccess C va n a)"
    using docs(1) by (simp_all add: vmm_docs_def)
  have q2: "queue V h2 = []" "\<And>x. \<not> within va n x \<Longrightarrow> m_dev (h_mem h2) x = m_dev (h_mem h1) x"
    using c2 r2 quietD(1) [OF q1] by (auto simp: changes_within_def gpu_call_eq queue_def)
  have q3: "queue V h3 = []" "\<And>x. \<not> within va n x \<Longrightarrow> m_dev (h_mem h3) x = m_dev (h_mem h2) x"
    using c3 r3 q2(1) by (auto simp: changes_within_def gpu_call_eq queue_def)
  obtain m d where sa: "cuMemSetAccess C va n a (h_mem h2) (h_dev h2) = (0, m, d)" "h_mem h3 = m"
    using r3 rc(3) by (auto simp: gpu_call_eq) (metis prod.collapse)
  have "m_dev (h_mem h3) x \<noteq> None" if "within va n x" for x
    using docs(1) sa that unfolding vmm_docs_def by blast
  moreover have "h3 = set_gpu (h_mem h3) (h_dev h3) h" using e by (metis set_gpu_simps(3))
  ultimately show thesis using that r1 r2 r3 rc q1 q2 q3 quietD(2) [OF q1] by metis
qed

lemma remap_segs_ok:
  assumes docs: "vmm_docs V C" "control_docs V C" "no_vmm_errors C"
  shows "queue V h = [] \<Longrightarrow> remap_segs C ss h = (ss', h') \<Longrightarrow>
    queue V h' = [] \<and> h' = set_gpu (h_mem h') (h_dev h') h \<and> list_all2 rehandled ss ss' \<and>
    (\<forall>x. outside ss x \<longrightarrow> m_dev (h_mem h') x = m_dev (h_mem h) x) \<and>
    (frozen_apart ss \<longrightarrow> (\<forall>s \<in> set ss. ow_frozen s \<longrightarrow> (\<forall>x. within (ow_va s) (ow_padded s) x \<longrightarrow> m_dev (h_mem h') x \<noteq> None)))"
proof (induction ss arbitrary: h ss' h')
  case (Cons s ss)
  show ?case
  proof (cases "ow_frozen s")
    case False
    then obtain tt where tt: "remap_segs C ss h = (tt, h')" "ss' = s # tt"
      using Cons.prems(2) by (auto split: prod.splits)
    have "rehandled s s" by (simp add: rehandled_def)
    then show ?thesis using Cons.IH [OF Cons.prems(1) tt(1)] tt(2) False by (auto simp: outside_def frozen_apart_def)
  next
    case True
    obtain nh h1 h2 h3 where r: "gpu_call (cuMemCreate C (ow_padded s) (Some (ow_prop s)) 0) h = ((0, nh), h1)"
      "gpu_call (cuMemMap C (ow_va s) (ow_padded s) 0 nh 0) h1 = (0, h2)"
      "gpu_call (cuMemSetAccess C (ow_va s) (ow_padded s) (rw_access (mp_location_id (ow_prop s)))) h2 = (0, h3)"
      "queue V h3 = []" "h3 = set_gpu (h_mem h3) (h_dev h3) h"
      "\<And>x. \<not> within (ow_va s) (ow_padded s) x \<Longrightarrow> m_dev (h_mem h3) x = m_dev (h_mem h) x"
      "\<And>x. within (ow_va s) (ow_padded s) x \<Longrightarrow> m_dev (h_mem h3) x \<noteq> None"
      using remap_one [OF docs Cons.prems(1)] by blast
    obtain tt where tt: "remap_segs C ss h3 = (tt, h')" "ss' = s\<lparr>ow_handle := nh\<rparr> # tt"
      using Cons.prems(2) True r(1-3) by (auto simp: Let_def split: prod.splits)
    note ih = Cons.IH [OF r(4) tt(1)]
    have "rehandled s (s\<lparr>ow_handle := nh\<rparr>)" by (simp add: rehandled_def)
    moreover have "h' = set_gpu (h_mem h') (h_dev h') h" using ih r(5) by (metis set_gpu_simps(3))
    moreover have "m_dev (h_mem h') x = m_dev (h_mem h) x" if "outside (s # ss) x" for x
      using that ih r(6) True by (simp add: outside_def)
    moreover have "m_dev (h_mem h') x \<noteq> None" if "frozen_apart (s # ss)" "within (ow_va s) (ow_padded s) x" for x
    proof -
      have "outside ss x" using that True by (auto simp: outside_def frozen_apart_def ranges_apart_def)
      then show ?thesis using ih r(7) that(2) by simp
    qed
    ultimately show ?thesis using ih tt(2) by (auto simp: frozen_apart_def)
  qed
qed (simp add: outside_def)

subsection \<open>The loaded bytes\<close>

lemma onload_same:
  "(\<And>s. s \<in> set ss \<Longrightarrow> ow_frozen s \<Longrightarrow> \<not> unat (x - ow_va s) < unat (ow_req s)) \<Longrightarrow> onload c ss dev x = dev x"
proof (induction ss arbitrary: dev)
  case (Cons s ss)
  then show ?case by (auto simp: onload_def selected_def load_bytes_def)
qed (simp add: onload_def)

lemma within_req: "ow_req s \<le> ow_padded s \<Longrightarrow> unat (x - ow_va s) < unat (ow_req s) \<Longrightarrow> within (ow_va s) (ow_padded s) x"
  by (simp add: within_def word_le_nat_alt word_less_nat_alt)

lemma onload_seg:
  assumes "frozen_apart ss" and "\<And>t. t \<in> set ss \<Longrightarrow> ow_frozen t \<Longrightarrow> ow_req t \<le> ow_padded t"
    and "s \<in> set ss" "ow_frozen s" "dev x \<noteq> None" "unat (x - ow_va s) < unat (ow_req s)"
    and "unat (ow_blob_off s) + unat (ow_req s) \<le> length c"
  shows "onload c ss dev x = Some (c ! (unat (ow_blob_off s) + unat (x - ow_va s)))"
  using assms
proof (induction ss arbitrary: dev)
  case (Cons t ss)
  let ?dev = "if ow_frozen t then load_bytes (ow_va t) (take (unat (ow_req t)) (drop (unat (ow_blob_off t)) c)) dev else dev"
  have on: "onload c (t # ss) dev x = onload c ss ?dev x" by (simp add: onload_def selected_def)
  show ?case
  proof (cases "s = t")
    case True
    have "onload c ss ?dev x = ?dev x"
    proof (rule onload_same)
      fix u assume u: "u \<in> set ss" "ow_frozen u"
      have "ranges_apart s u" using Cons.prems(1,4) u True by (simp add: frozen_apart_def)
      then show "\<not> unat (x - ow_va u) < unat (ow_req u)"
        using within_req [of s x] within_req [of u x] Cons.prems(2) [of u] Cons.prems(2) [of s] Cons.prems(4,6) u True
        by (auto simp: ranges_apart_def)
    qed
    then show ?thesis using on Cons.prems True by (simp add: load_bytes_def)
  next
    case False
    have "?dev x \<noteq> None" using Cons.prems(5) by (simp add: load_bytes_def)
    then show ?thesis using Cons.IH [of ?dev] Cons.prems False on by (simp add: frozen_apart_def)
  qed
qed simp

subsection \<open>The size of the blob\<close>

definition seg_end :: "owned \<Rightarrow> size_t" where
  "seg_end s = ow_blob_off s + ROUND2M (ow_req s)"

definition need_step :: "owned \<Rightarrow> size_t \<Rightarrow> size_t" where
  "need_step s need = (if ow_frozen s then (if need < seg_end s then seg_end s else need) else need)"

lemma blob_need_eq: "blob_need ss = fold need_step ss 0"
  by (simp add: blob_need_def need_step_def [abs_def] seg_end_def Let_def cong: if_cong)

lemma need_step_fold:
  "(\<And>s. s \<in> set ss \<Longrightarrow> ow_frozen s \<Longrightarrow> seg_end s \<le> b) \<Longrightarrow> n \<le> b \<Longrightarrow>
    n \<le> fold need_step ss n \<and> fold need_step ss n \<le> b \<and> (\<forall>s \<in> set ss. ow_frozen s \<longrightarrow> seg_end s \<le> fold need_step ss n)"
proof (induction ss arbitrary: n)
  case (Cons s ss)
  have "need_step s n \<le> b" using Cons.prems by (simp add: need_step_def)
  then have ih: "need_step s n \<le> fold need_step ss (need_step s n)" "fold need_step ss (need_step s n) \<le> b"
    "\<forall>s' \<in> set ss. ow_frozen s' \<longrightarrow> seg_end s' \<le> fold need_step ss (need_step s n)"
    using Cons.IH [of "need_step s n"] Cons.prems(1) by simp_all
  have "n \<le> need_step s n" "ow_frozen s \<Longrightarrow> seg_end s \<le> need_step s n" by (auto simp: need_step_def not_less)
  then have "n \<le> fold need_step ss (need_step s n)" "ow_frozen s \<Longrightarrow> seg_end s \<le> fold need_step ss (need_step s n)"
    using ih(1) order.trans by blast+
  then show ?case using ih by simp
qed simp

lemma blob_need_bounds:
  assumes "\<And>s. s \<in> set ss \<Longrightarrow> ow_frozen s \<Longrightarrow> seg_end s \<le> b"
  shows "blob_need ss \<le> b" and "s \<in> set ss \<Longrightarrow> ow_frozen s \<Longrightarrow> seg_end s \<le> blob_need ss"
  using need_step_fold [of ss b 0] assms by (simp_all add: blob_need_eq)

lemma unat_of_nat_eq_small: "n < 2 ^ 64 \<Longrightarrow> unat (word_of_nat n :: size_t) = n"
  by (simp add: unat_of_nat)

subsection \<open>The remap\<close>

definition can_remap :: "'d obs \<Rightarrow> 'd cuda \<Rightarrow> libc \<Rightarrow> bool" where
  "can_remap V C L \<longleftrightarrow> good V C L \<and> no_libc_failures L \<and> has_ptrs C \<and> vmm_docs V C \<and> no_vmm_errors C"

text \<open>The frozen segments are in the blob file \<open>c\<close>, apart from each other on the device.\<close>

definition segs_frozen :: "string \<Rightarrow> owned list \<Rightarrow> bool" where
  "segs_frozen c ss \<longleftrightarrow> frozen_apart ss \<and>
    (\<forall>s \<in> set ss. ow_frozen s \<longrightarrow> ow_req s \<le> ow_padded s \<and> ow_req s \<noteq> 0 \<and>
       unat (ow_blob_off s) + unat (ROUND2M (ow_req s)) \<le> length c \<and> unat (ow_req s) \<le> unat (ROUND2M (ow_req s)) \<and>
       unat (seg_end s) = unat (ow_blob_off s) + unat (ROUND2M (ow_req s)) \<and> unat (seg_end s) < 2 ^ 63)"

lemma list_all2_sorted_wrt:
  assumes "list_all2 R xs ys" and "sorted_wrt P xs" and "\<And>x x' y y'. R x y \<Longrightarrow> R x' y' \<Longrightarrow> P x x' \<Longrightarrow> Q y y'"
  shows "sorted_wrt Q ys"
  using assms(1,2)
proof (induction rule: list_all2_induct)
  case (Cons x xs y ys)
  then show ?case using assms(3) list_all2_left [OF Cons.hyps(2)] by fastforce
qed simp

lemma blob_need_ok:
  assumes sf: "segs_frozen c ss"
  shows "unat (blob_need ss) \<le> length c" and "unat (blob_need ss) < 2 ^ 63"
    and "t \<in> set ss \<Longrightarrow> ow_frozen t \<Longrightarrow> unat (ow_blob_off t) + unat (ow_req t) \<le> unat (blob_need ss)"
    and "t \<in> set ss \<Longrightarrow> ow_frozen t \<Longrightarrow> blob_need ss \<noteq> 0"
proof -
  let ?b = "word_of_nat (min (length c) (2 ^ 63 - 1)) :: size_t"
  have ub: "unat ?b = min (length c) (2 ^ 63 - 1)" by (rule unat_of_nat_eq_small) simp
  have ends: "seg_end t \<le> ?b" if "t \<in> set ss" "ow_frozen t" for t
  proof -
    have "unat (seg_end t) \<le> min (length c) (2 ^ 63 - 1)" using sf that by (auto simp: segs_frozen_def)
    then show ?thesis by (simp only: word_le_nat_alt ub)
  qed
  note bn = blob_need_bounds [of ss ?b, OF ends]
  show "unat (blob_need ss) \<le> length c" "unat (blob_need ss) < 2 ^ 63" using bn(1) ub by (simp_all add: word_le_nat_alt)
  show fitn: "unat (ow_blob_off t) + unat (ow_req t) \<le> unat (blob_need ss)" if "t \<in> set ss" "ow_frozen t"
    using bn(2) [OF _ _ that] sf that by (fastforce simp: segs_frozen_def word_le_nat_alt)
  show "blob_need ss \<noteq> 0" if "t \<in> set ss" "ow_frozen t"
  proof -
    have "0 < unat (ow_req t)" using sf that by (simp add: segs_frozen_def unat_gt_0)
    then have "0 < unat (blob_need ss)" using fitn [OF that] by linarith
    then show ?thesis by auto
  qed
qed

text \<open>Before the copy the segments are mapped again and the blob is mapped whole.\<close>

lemma remap_prep_ok:
  fixes getenv :: "string \<Rightarrow> string option" and h :: "'d hook"
  assumes cr: "can_remap V C L" and q: "queue V h = []" and dd: "h_data_dir h \<noteq> []"
    and nb: "\<not> h_blob h" "\<not> h_blob_fd h" and stored: "h_files h (blob_path h) = Some c"
    and sf: "segs_frozen c (h_owned h)" and s: "s \<in> set (h_owned h)" "ow_frozen s"
  defines "h5 \<equiv> remap_prep C L getenv h" and "need \<equiv> blob_need (h_owned h)"
  shows "ready_in V h5" and "list_all2 rehandled (h_owned h) (h_owned h5)"
    and "h_fault h5 = h_fault h" and "h_data_dir h5 = h_data_dir h"
    and "take (unat need) (blob h5) = take (unat need) c" and "unat need \<le> length (blob h5)"
    and "\<And>t x. t \<in> set (h_owned h) \<Longrightarrow> ow_frozen t \<Longrightarrow> within (ow_va t) (ow_padded t) x \<Longrightarrow> m_dev (h_mem h5) x \<noteq> None"
proof -
  have g: "good V C L" and L: "no_libc_failures L" and vm: "vmm_docs V C" "no_vmm_errors C" and co: "control_docs V C"
    using cr by (simp_all add: can_remap_def good_def)
  define h1 where "h1 = gcr_stage_init C L h"
  note si = stage_init_ok [OF co L keeps_refl [OF q], folded h1_def]
  have k1: "queue V h1 = []" "h_owned h1 = h_owned h" "\<not> h_blob h1" "\<not> h_blob_fd h1"
    "h_files h1 = h_files h" "h_data_dir h1 = h_data_dir h" "h_fault h1 = h_fault h" "blob_path h1 = blob_path h"
    using si(1) nb by (simp_all add: keeps_state_def blob_path_def)
  note bn = blob_need_ok [OF sf, folded need_def]
  note need = bn(1,2) and fitn = bn(3) and n0 = bn(4) [OF s]
  have bc1: "blob_consistent h1" using k1 by (simp add: blob_consistent_def)
  obtain h2 where h2: "blob_map L getenv need h1 = (True, h2)" "blob_ok h2" "need \<le> h_blob_size h2"
    "h_dev h2 = h_dev h1" "h_owned h2 = h_owned h1" "h_stageA h2 = h_stageA h1" "h_fault h2 = h_fault h1"
    "h_data_dir h2 = h_data_dir h1" "take (unat need) (blob h2) = take (unat need) c"
    by (rule blob_map_ok [OF L _ bc1 sint_nonneg [OF need(2)], of getenv]) (use dd k1 stored need(1) in auto)
  define h3 where "h3 = call_opt ''rt_setdev'' (cudaSetDevice C 0) h2"
  have q2: "queue V h2 = []" using h2(4) k1(1) by (simp add: queue_def)
  have q3: "quiet V h2 h3" unfolding h3_def using co q2 by (intro quiet_call_opt) (simp_all add: control_docs_def)
  have d3: "h_data_dir h3 = h_data_dir h2" using q3 unfolding quiet_def by (metis set_gpu_keeps(3))
  obtain ss h4 where r4: "remap_segs C (h_owned h3) h3 = (ss, h4)" by fastforce
  have own3: "h_owned h3 = h_owned h" using quietD(5) [OF q3] h2(5) k1(2) by simp
  note rs = remap_segs_ok [OF vm(1) co vm(2) quietD(1) [OF q3] r4, unfolded own3]
  have h5: "h5 = h4\<lparr>h_owned := ss\<rparr>"
    using k1(2,3) n0 h2(1) r4 by (simp add: h5_def remap_prep_def h1_def [symmetric] need_def [symmetric] h3_def [symmetric])
  have e4: "h4 = set_gpu (h_mem h4) (h_dev h4) h3" using rs by blast
  have k4: "blob_ok h4" "blob h4 = blob h3" "h_stageA h4 = h_stageA h3" "h_blob_size h4 = h_blob_size h3" "h_fault h4 = h_fault h3"
    "h_data_dir h4 = h_data_dir h3"
    using quietD(3) [OF q3] h2(2) by (subst e4, simp)+
  have k5: "queue V h5 = []" "blob_ok h5" "blob h5 = blob h2" "h_stageA h5" "h_blob_size h5 = h_blob_size h2" "h_mem h5 = h_mem h4"
    using rs k4 quietD [OF q3] si(2) h2(6) by (simp_all add: h5 queue_def blob_ok_def blob_def blob_path_def)
  show la: "list_all2 rehandled (h_owned h) (h_owned h5)" using rs by (simp add: h5)
  show "h_fault h5 = h_fault h" "h_data_dir h5 = h_data_dir h" using k4 quietD(9) [OF q3] h2 k1 d3 by (simp_all add: h5)
  have nl: "unat need \<le> unat (h_blob_size h2)" using h2(3) by (simp add: word_le_nat_alt)
  then show "unat need \<le> length (blob h5)" "take (unat need) (blob h5) = take (unat need) c"
    using h2(2,9) k5(3) by (simp_all add: blob_ok_def)
  show "ready_in V h5"
    unfolding ready_in_def
  proof (intro conjI ballI impI)
    show "queue V h5 = []" "blob_ok h5" "h_stageA h5" using k5 by simp_all
    fix t assume t: "t \<in> set (h_owned h5)" "selected Remap t"
    then obtain t1 where t1: "t1 \<in> set (h_owned h)" "rehandled t1 t" using list_all2_left [OF la] by metis
    then show "seg_fits h5 t"
      using fitn [OF t1(1)] nl t(2) k5(5) rehandledD [OF t1(2)] by (simp add: seg_fits_def selected_def)
  qed
  show "m_dev (h_mem h5) x \<noteq> None" if "t \<in> set (h_owned h)" "ow_frozen t" "within (ow_va t) (ow_padded t) x" for t x
    using rs sf that k5(6) unfolding segs_frozen_def by simp
qed

lemma onload_frozen:
  assumes ap: "frozen_apart ss0" and le: "\<And>t. t \<in> set ss0 \<Longrightarrow> ow_frozen t \<Longrightarrow> ow_req t \<le> ow_padded t"
    and la: "list_all2 rehandled ss0 ss" and s: "s \<in> set ss0" "ow_frozen s" and i: "i < unat (ow_req s)"
    and fit: "unat (ow_blob_off s) + unat (ow_req s) \<le> length c"
    and mapped: "\<And>x. within (ow_va s) (ow_padded s) x \<Longrightarrow> dev x \<noteq> None"
  shows "onload c ss dev (ow_va s + of_nat i) = Some (c ! (unat (ow_blob_off s) + i))"
proof -
  let ?x = "ow_va s + of_nat i"
  have "i < 2 ^ 64" using i unsigned_less [of "ow_req s", where ?'a = nat] by simp
  then have ui: "unat (?x - ow_va s) = i" by (simp add: unat_of_nat)
  obtain s' where s': "s' \<in> set ss" "rehandled s s'" using list_all2_right [OF la s(1)] by blast
  note r' = rehandledD [OF s'(2)]
  have fa: "frozen_apart ss"
    unfolding frozen_apart_def
    by (rule list_all2_sorted_wrt [of rehandled ss0 ss, OF _ ap [unfolded frozen_apart_def]])
      (use la rehandled_apart in \<open>blast+\<close>)
  have rp: "ow_req t \<le> ow_padded t" if tin: "t \<in> set ss" "ow_frozen t" for t
  proof -
    obtain t1 where t1: "t1 \<in> set ss0" "rehandled t1 t" using list_all2_left [OF la tin(1)] by blast
    then show ?thesis using le [OF t1(1)] tin(2) unfolding rehandledD [OF t1(2)] by blast
  qed
  have "within (ow_va s) (ow_padded s) ?x" by (rule within_req) (use le s i ui in auto)
  then show ?thesis
    using onload_seg [where ss = ss and s = s' and dev = dev and x = ?x and c = c, OF fa rp s'(1)] mapped s(2) r' ui i fit
    by simp
qed

lemma restore_remap_ok:
  fixes getenv :: "string \<Rightarrow> string option" and h :: "'d hook" and i :: nat
  assumes cr: "can_remap V C L" and q: "queue V h = []" and dd: "h_data_dir h \<noteq> []"
    and nb: "\<not> h_blob h" "\<not> h_blob_fd h" and stored: "h_files h (blob_path h) = Some c"
    and sf: "segs_frozen c (h_owned h)" and s0: "s0 \<in> set (h_owned h)" "ow_frozen s0"
  defines "h' \<equiv> restore_remap C L getenv h"
  shows "\<And>s. s \<in> set (h_owned h) \<Longrightarrow> ow_frozen s \<Longrightarrow> i < unat (ow_req s) \<Longrightarrow>
      m_dev (h_mem h') (ow_va s + of_nat i) = Some (c ! (unat (ow_blob_off s) + i))"
    and "t \<in> set (h_owned h') \<Longrightarrow> \<not> ow_frozen t" and "h_fault h' = h_fault h" and "\<not> h_in_remap h'"
    and "queue V h' = []" and "h_data_dir h' = h_data_dir h" and "blob_consistent h'"
    and "list_all2 (\<lambda>s t. \<exists>u. rehandled s u \<and> t = unfreeze u) (h_owned h) (h_owned h')"
proof -
  have g: "good V C L" and ptr: "has_ptrs C" and co: "control_docs V C" using cr by (simp_all add: can_remap_def good_def)
  define h1 where "h1 = resolve_vmm_real C (resolve_rt_copy C (h\<lparr>h_in_remap := True\<rparr>))"
  have k1: "queue V h1 = []" "h_owned h1 = h_owned h" "\<not> h_blob h1" "\<not> h_blob_fd h1" "h_data_dir h1 = h_data_dir h"
    "h_files h1 (blob_path h1) = Some c" "h_fault h1 = h_fault h"
    using q nb stored by (simp_all add: h1_def resolve_vmm_real_def resolve_rt_copy_def resolve_def queue_def blob_path_def)
  define h5 where "h5 = remap_prep C L getenv h1"
  note rp = remap_prep_ok [where getenv = getenv, OF cr k1(1) _ k1(3,4,6), unfolded k1(2) k1(5) k1(7), OF dd sf s0, folded h5_def]
  define h6 where "h6 = copy_back C L h5"
  have o6: "queue V h6 = []" "frame h5 h6" "m_dev (h_mem h6) = onload (blob h5) (h_owned h5) (m_dev (h_mem h5))"
    using overlapped_in.copies_in [OF g rp(1)] by (simp_all add: onloaded_def h6_def)
  define h7 where "h7 = call_opt ''rt_sync'' (cudaDeviceSynchronize C) h6"
  have q7: "quiet V h6 h7" unfolding h7_def using co o6(1) by (intro quiet_call_opt) (simp_all add: control_docs_def)
  have "looked_up h1 p" if "p \<in> set freeze_ptrs" for p
    unfolding h1_def by (rule resolved_prep [OF ptr that])
  then have "\<not> remap_missing h1" by (simp add: remap_missing_def freeze_ptrs_def)
  then have h': "h' = h7\<lparr>h_owned := map unfreeze (h_owned h7), h_in_remap := False\<rparr>"
    by (simp add: h'_def restore_remap_eq Let_def h1_def [symmetric] h5_def [symmetric] remap_close_def h6_def h7_def)
  have bo5: "blob_ok h5" using rp(1) by (simp add: ready_in_def)
  then have bo: "blob_ok h7" using frameD(9) [OF o6(2)] quietD(3) [OF q7] by simp
  have own: "h_owned h7 = h_owned h5" using quietD(5) [OF q7] frameD(1) [OF o6(2)] by simp
  show "\<not> ow_frozen t" if "t \<in> set (h_owned h')" using that by (auto simp: h' unfreeze_def)
  show "h_fault h' = h_fault h" "\<not> h_in_remap h'"
    using quietD(9) [OF q7] frameD(2) [OF o6(2)] rp(3) by (simp_all add: h')
  show "queue V h' = []" using quietD(1) [OF q7] by (simp add: h' queue_def)
  have "h_data_dir h7 = h_data_dir h6" using q7 unfolding quiet_def by (metis set_gpu_keeps(3))
  moreover have "h_data_dir h6 = h_data_dir h5" using o6(2) unfolding frame_def by (metis set_blob_gate(1) set_gpu_keeps(3))
  ultimately show "h_data_dir h' = h_data_dir h" using rp(4) by (simp add: h')
  show "blob_consistent h'" using bo by (auto simp: h' blob_consistent_def blob_ok_def blob_def blob_path_def)
  show "list_all2 (\<lambda>s t. \<exists>u. rehandled s u \<and> t = unfreeze u) (h_owned h) (h_owned h')"
    using rp(2) by (auto simp: h' own list.rel_map elim: list_all2_mono)
  show "m_dev (h_mem h') (ow_va s + of_nat i) = Some (c ! (unat (ow_blob_off s) + i))"
    if s: "s \<in> set (h_owned h)" "ow_frozen s" and i: "i < unat (ow_req s)" for s
  proof -
    let ?need = "blob_need (h_owned h)" and ?o = "unat (ow_blob_off s)"
    have len: "?o + unat (ow_req s) \<le> unat ?need" by (rule blob_need_ok(3) [OF sf s])
    have le: "ow_req t \<le> ow_padded t" if "t \<in> set (h_owned h)" "ow_frozen t" for t
      using sf that by (simp add: segs_frozen_def)
    have "m_dev (h_mem h6) (ow_va s + of_nat i) = Some (blob h5 ! (?o + i))"
      unfolding o6(3) by (rule onload_frozen [OF _ le rp(2) s i]) (use sf len rp(6) rp(7) [OF s] in \<open>auto simp: segs_frozen_def\<close>)
    also have "blob h5 ! (?o + i) = take (unat ?need) (blob h5) ! (?o + i)" using len i by simp
    also have "\<dots> = c ! (?o + i)" using rp(5) len i by simp
    finally show ?thesis using quietD(2) [OF q7] by (simp add: h')
  qed
qed

subsection \<open>Freeze, then remap\<close>

lemma frozen_map: "ow_frozen (freeze_seg s) = (selected Freeze s \<or> ow_frozen s)"
  "ow_va (freeze_seg s) = ow_va s" "ow_req (freeze_seg s) = ow_req s" "ow_padded (freeze_seg s) = ow_padded s"
  "ow_blob_off (freeze_seg s) = ow_blob_off s" "ow_live (freeze_seg s) = ow_live s"
  by (simp_all add: freeze_seg_def)

lemma frozen_segs_frozen:
  assumes so: "segs_fit h" and s0: "s0 \<in> set (h_owned h)" "ow_live s0"
    and as: "assign_offsets 0 (h_owned h) = (ss, need)" and c: "unat need \<le> length c"
  shows "segs_frozen c (map freeze_seg ss)"
  unfolding segs_frozen_def
proof (intro conjI ballI impI)
  note off = offsets_ok [OF so s0 as]
  have live: "ow_frozen (freeze_seg s) \<longleftrightarrow> ow_live s" "ow_live s \<longleftrightarrow> selected Freeze s" if sin: "s \<in> set ss" for s
  proof -
    obtain s1 where "s1 \<in> set (h_owned h)" "placed s1 s" using list_all2_left [OF off(1) sin] by blast
    then have "\<not> ow_frozen s" using so placedD(5) unfolding segs_fit_def segs_wf_def by blast
    then show "ow_frozen (freeze_seg s) \<longleftrightarrow> ow_live s" "ow_live s \<longleftrightarrow> selected Freeze s"
      by (auto simp: frozen_map selected_def)
  qed
  have wf: "sorted_wrt (\<lambda>s t. ow_live s \<longrightarrow> ow_live t \<longrightarrow> ranges_apart s t) (h_owned h)"
    using so by (simp add: segs_fit_def segs_wf_def)
  have "sorted_wrt (\<lambda>s t. ow_live s \<longrightarrow> ow_live t \<longrightarrow> ranges_apart s t) ss"
  proof (rule list_all2_sorted_wrt [OF off(1) wf])
    fix x x' y y' assume p: "placed x y" "placed x' y'" and a: "ow_live x \<longrightarrow> ow_live x' \<longrightarrow> ranges_apart x x'"
    show "ow_live y \<longrightarrow> ow_live y' \<longrightarrow> ranges_apart y y'"
      using a unfolding ranges_apart_def placedD [OF p(1)] placedD [OF p(2)] .
  qed
  then show "frozen_apart (map freeze_seg ss)"
    unfolding frozen_apart_def sorted_wrt_map
    by (rule sorted_wrt_mono_rel [rotated]) (auto simp: live ranges_apart_def frozen_map(2-6))
  fix t assume "t \<in> set (map freeze_seg ss)" and fr: "ow_frozen t"
  then obtain s where s: "s \<in> set ss" "t = freeze_seg s" by auto
  then have sel: "selected Freeze s" "ow_live s" using fr live by auto
  obtain s1 where s1: "s1 \<in> set (h_owned h)" "placed s1 s" using list_all2_left [OF off(1) s(1)] by blast
  have "ow_req s1 \<le> ow_padded s1 \<and> ow_req s1 \<noteq> 0"
    using so s1 sel(2) placedD(4) [OF s1(2)] unfolding segs_fit_def segs_wf_def by blast
  then show "ow_req t \<le> ow_padded t" "ow_req t \<noteq> 0" using s(2) placedD [OF s1(2)] by (simp_all add: frozen_map)
  have e: "unat (ow_blob_off s) + unat (ROUND2M (ow_req s)) \<le> unat need" "unat (ow_req s) \<le> unat (ROUND2M (ow_req s))"
    using off(2) s(1) sel(1) by (auto simp: ends_between_def)
  then show "unat (ow_blob_off t) + unat (ROUND2M (ow_req t)) \<le> length c" "unat (ow_req t) \<le> unat (ROUND2M (ow_req t))"
    using c s(2) by (simp_all add: frozen_map)
  have u: "unat (seg_end t) = unat (ow_blob_off t) + unat (ROUND2M (ow_req t))"
    unfolding seg_end_def using e(1) s(2) by (intro unat_add_fits [of _ _ need]) (simp add: frozen_map)
  then show "unat (seg_end t) = unat (ow_blob_off t) + unat (ROUND2M (ow_req t))" .
  show "unat (seg_end t) < 2 ^ 63" using u e(1) off(5) s(2) by (simp add: frozen_map)
qed

text \<open>
  What is left of a frozen process in the one that is restored: the process's memory and the blob
  file. The device is another one, with nothing queued.
\<close>

definition carried :: "'d obs \<Rightarrow> 'd hook \<Rightarrow> 'd hook \<Rightarrow> bool" where
  "carried V h h' \<longleftrightarrow> queue V h' = [] \<and> h_owned h' = h_owned h \<and> h_data_dir h' = h_data_dir h \<and>
    h_blob h' = h_blob h \<and> h_blob_fd h' = h_blob_fd h \<and> h_fault h' = h_fault h \<and>
    h_files h' (blob_path h') = h_files h (blob_path h)"

definition same_seg :: "owned \<Rightarrow> owned \<Rightarrow> bool" where
  "same_seg s t \<longleftrightarrow> ow_va t = ow_va s \<and> ow_padded t = ow_padded s \<and> ow_req t = ow_req s \<and> ow_prop t = ow_prop s \<and>
    ow_live t = ow_live s \<and> \<not> ow_frozen t"

lemma same_seg_cycle:
  "placed s t \<Longrightarrow> rehandled (freeze_seg t) u \<Longrightarrow> same_seg s (unfreeze u)"
  by (cases s; cases t; cases u) (auto simp: placed_def rehandled_def freeze_seg_def unfreeze_def same_seg_def split: if_splits)

lemma freeze_remap:
  fixes getenv :: "string \<Rightarrow> string option" and h :: "'d hook" and getenv' :: "string \<Rightarrow> string option"
  assumes cf: "can_freeze V C L h" and cr: "can_remap V C L'"
    and s: "s \<in> set (h_owned h)" "ow_live s" and ca: "carried V (checkpoint_freeze C L getenv h) h2"
  defines "h' \<equiv> restore_remap C L' getenv' h2"
  shows "\<And>i t. t \<in> set (h_owned h) \<Longrightarrow> ow_live t \<Longrightarrow> i < unat (ow_req t) \<Longrightarrow>
      m_dev (h_mem h') (ow_va t + of_nat i) = m_dev (h_mem h) (ow_va t + of_nat i)"
    and "list_all2 same_seg (h_owned h) (h_owned h')" and "h_fault h' = h_fault h" and "\<not> h_in_remap h'"
    and "queue V h' = []" and "h_data_dir h' = h_data_dir h" and "blob_consistent h'"
proof -
  have so: "segs_fit h" and dd: "h_data_dir h \<noteq> []" using cf by (simp_all add: can_freeze_def)
  obtain ss need where as: "assign_offsets 0 (h_owned h) = (ss, need)" by fastforce
  obtain c h1 where h1: "checkpoint_freeze C L getenv h = h1" "h_owned h1 = map freeze_seg ss"
    "h_files h1 (blob_path h1) = Some c" "unat need \<le> length c"
    "\<And>s. s \<in> set ss \<Longrightarrow> selected Freeze s \<Longrightarrow> take (unat (ow_req s)) (drop (unat (ow_blob_off s)) c) =
        dev_bytes (m_dev (h_mem h)) (ow_va s) (unat (ow_req s))"
    "\<not> h_blob h1" "\<not> h_blob_fd h1" "h_fault h1 = h_fault h" "h_data_dir h1 = h_data_dir h"
    using freeze_ok [OF cf s as, of getenv] by metis
  note off = offsets_ok [OF so s as]
  have sel: "selected Freeze t'" if "placed t t'" "t \<in> set (h_owned h)" "ow_live t" for t t'
    using so that placedD [OF that(1)] unfolding segs_fit_def segs_wf_def selected_def by auto
  obtain s' where s': "s' \<in> set ss" "placed s s'" using list_all2_right [OF off(1) s(1)] by blast
  have h2: "queue V h2 = []" "h_data_dir h2 \<noteq> []" "\<not> h_blob h2" "\<not> h_blob_fd h2" "h_files h2 (blob_path h2) = Some c"
    "segs_frozen c (h_owned h2)" "freeze_seg s' \<in> set (h_owned h2)" "ow_frozen (freeze_seg s')"
    using ca dd h1 frozen_segs_frozen [OF so s as h1(4)] s'(1) sel [OF s'(2) s] by (simp_all add: carried_def frozen_map)
  have own2: "h_owned h2 = map freeze_seg ss" "h_fault h2 = h_fault h" "h_data_dir h2 = h_data_dir h"
    using ca h1 by (simp_all add: carried_def)
  note rr = restore_remap_ok [OF cr h2, where getenv = getenv', folded h'_def]
  show "h_fault h' = h_fault h" "\<not> h_in_remap h'" "queue V h' = []" "h_data_dir h' = h_data_dir h" "blob_consistent h'"
    using rr(3-7) own2 by simp_all
  show "list_all2 same_seg (h_owned h) (h_owned h')"
    by (rule list_all2_trans [OF _ off(1) rr(8) [unfolded own2 list.rel_map]]) (use same_seg_cycle in blast)
  show "m_dev (h_mem h') (ow_va t + of_nat i) = m_dev (h_mem h) (ow_va t + of_nat i)"
    if t: "t \<in> set (h_owned h)" "ow_live t" and i: "i < unat (ow_req t)" for t i
  proof -
    obtain u where u: "u \<in> set ss" "placed t u" using list_all2_right [OF off(1) t(1)] by blast
    note pt = placedD [OF u(2)] and su = sel [OF u(2) t]
    have fit: "unat (ow_blob_off u) + unat (ow_req u) \<le> length c"
      using off(2) u(1) su h1(4) by (auto simp: ends_between_def)
    have fz: "freeze_seg u \<in> set (h_owned h2)" "ow_frozen (freeze_seg u)" using u(1) su by (simp_all add: own2 frozen_map)
    have "m_dev (h_mem h') (ow_va t + of_nat i) = Some (c ! (unat (ow_blob_off u) + i))"
      using rr(1) [OF fz, of i] i pt by (simp add: frozen_map)
    also have "c ! (unat (ow_blob_off u) + i) = take (unat (ow_req u)) (drop (unat (ow_blob_off u)) c) ! i"
      using i pt fit by simp
    also have "\<dots> = the (m_dev (h_mem h) (ow_va t + of_nat i))"
      using h1(5) [OF u(1) su] i pt by (simp add: dev_bytes_def)
    also have "Some \<dots> = m_dev (h_mem h) (ow_va t + of_nat i)"
    proof -
      have "seg_readable (m_dev (h_mem h)) t" using so t by (auto simp: segs_fit_def segs_wf_def)
      then show ?thesis using i by (auto simp: seg_readable_def readable_def)
    qed
    finally show ?thesis .
  qed
qed

end
