(* ===== verification/Hook_Served.thy ===== *)
theory Hook_Served
  imports Hook_Restore
begin

text \<open>
  The registry the engine works on is well-formed in every state the allocator can reach, and the
  theorems on freeze and remap over these states.
\<close>

definition cuda_docs :: "'d obs \<Rightarrow> 'd cuda \<Rightarrow> bool" where
  "cuda_docs V C \<longleftrightarrow> copy_docs V C \<and> control_docs V C \<and> vmm_docs V C \<and> reserve_docs V C \<and> copies_reserve_nothing V C"

subsection \<open>The size of a mapping\<close>

text \<open>Without wrap-around the mapping is the request rounded up to the granularity.\<close>

lemma padded_size_ok:
  assumes "n \<noteq> 0" and "gran \<noteq> 0" and "unat n + unat gran \<le> 2 ^ 64"
  shows "n \<le> padded_size n gran" and "unat (padded_size n gran) < unat n + unat gran"
    and "unat gran dvd unat (padded_size n gran)"
proof -
  let ?a = "unat n + unat gran - 1"
  have n: "0 < unat n" and g: "0 < unat gran" using assms(1,2) by (simp_all add: unat_gt_0)
  have "unat (n + gran) = (unat n + unat gran) mod 2 ^ 64" by (simp add: unat_word_ariths)
  have a: "unat (n + gran - 1) = ?a"
  proof (cases "unat n + unat gran = 2 ^ 64")
    case True
    then have "unat (n + gran) = 0" by (simp add: unat_word_ariths)
    then have "n + gran = 0" by (simp add: unat_eq_0)
    then have "unat (n + gran - 1) = unat (- 1 :: size_t)" by simp
    also have "\<dots> = 2 ^ 64 - 1" by (simp add: unsigned_minus_1_eq_mask mask_eq_exp_minus_1)
    finally show ?thesis using True by simp
  next
    case False
    then have "unat (n + gran) = unat n + unat gran" using assms(3) by (simp add: unat_word_ariths)
    moreover have "(1 :: size_t) \<le> n + gran" using calculation n by (simp add: word_le_nat_alt)
    ultimately show ?thesis by (simp add: unat_sub)
  qed
  have d: "unat ((n + gran - 1) div gran) = ?a div unat gran" by (simp add: unat_div a)
  have "?a div unat gran * unat gran \<le> ?a" by simp
  also have "?a < 2 ^ 64" using assms(3) n by linarith
  finally have p: "unat (((n + gran - 1) div gran) * gran) = ?a div unat gran * unat gran"
    by (subst unat_word_ariths(2)) (simp add: unat_div a)
  have lo: "unat n \<le> ?a div unat gran * unat gran"
  proof -
    have "?a < ?a div unat gran * unat gran + unat gran"
      using g by (metis add.commute div_mult_mod_eq mod_less_divisor nat_add_left_cancel_less)
    then show ?thesis using n by linarith
  qed
  then have "((n + gran - 1) div gran) * gran \<noteq> 0" using p n by (metis unat_0 not_le)
  then have eq: "unat (padded_size n gran) = ?a div unat gran * unat gran" using p by (simp add: padded_size_def Let_def)
  show "n \<le> padded_size n gran" using lo eq by (simp add: word_le_nat_alt)
  show "unat (padded_size n gran) < unat n + unat gran"
    unfolding eq using \<open>?a div unat gran * unat gran \<le> ?a\<close> n by linarith
  show "unat gran dvd unat (padded_size n gran)" unfolding eq by simp
qed

text \<open>With wrap-around it is a single granule.\<close>

lemma padded_size_wraps:
  assumes "2 ^ 64 < unat n + unat gran"
  shows "padded_size n gran = gran"
proof -
  have "unat n < 2 ^ 64" "unat gran < 2 ^ 64" using unsigned_less [of n, where ?'a = nat] unsigned_less [of gran, where ?'a = nat] by simp_all
  then have s: "unat (n + gran) = unat n + unat gran - 2 ^ 64"
    using assms by (simp add: unat_word_ariths mod_if)
  then have "(1 :: size_t) \<le> n + gran" using assms by (simp add: word_le_nat_alt)
  then have "unat (n + gran - 1) = unat n + unat gran - 2 ^ 64 - 1" using s by (simp add: unat_sub)
  then have "unat (n + gran - 1) < unat gran" using assms \<open>unat n < 2 ^ 64\<close> by linarith
  then have "unat ((n + gran - 1) div gran) = 0" by (simp add: unat_div)
  then have "(n + gran - 1) div gran = 0" by (simp add: unat_eq_0)
  then show ?thesis by (simp add: padded_size_def Let_def)
qed

subsection \<open>Calls of the allocator\<close>

text \<open>What a call may change: the device's memory within a range, and no reservation of \<open>R\<close>.\<close>

definition touches :: "'d obs \<Rightarrow> dptr \<Rightarrow> size_t \<Rightarrow> (dptr \<times> size_t) set \<Rightarrow> 'd hook \<Rightarrow> 'd hook \<Rightarrow> bool" where
  "touches V va n R h h' \<longleftrightarrow> queue V h' = [] \<and>
    (\<forall>x. \<not> within va n x \<longrightarrow> m_dev (h_mem h') x = m_dev (h_mem h) x) \<and> R \<subseteq> ob_reserved V (h_dev h') \<and>
    h_owned h' = h_owned h \<and> h_data_dir h' = h_data_dir h \<and> h_files h' = h_files h \<and> h_blob h' = h_blob h \<and>
    h_blob_size h' = h_blob_size h \<and> h_blob_fd h' = h_blob_fd h"

lemma touches_trans: "touches V va n R h1 h2 \<Longrightarrow> touches V va n R h2 h3 \<Longrightarrow> touches V va n R h1 h3"
  by (simp add: touches_def)

lemma touches_call:
  assumes "changes_within V va n f" "\<And>m d. R \<subseteq> ob_reserved V d \<Longrightarrow> R \<subseteq> ob_reserved V (snd (snd (f m d)))"
    and "queue V h = []" "R \<subseteq> ob_reserved V (h_dev h)"
  shows "touches V va n R h (snd (gpu_call f h))" and "touches V va n R h (snd (call_ptr p dflt f h))"
    and "touches V va n R h (call_opt p f h)"
  using assms by (simp_all add: touches_def gpu_call_eq call_ptr_def call_opt_def changes_within_def queue_def)

lemma quiet_changes:
  assumes "keeps_device V (f :: ('r, 'd) cu)" "\<And>m d. R \<subseteq> ob_reserved V d \<Longrightarrow> R \<subseteq> ob_reserved V (snd (snd (f m d)))"
    and "queue V h = []" "R \<subseteq> ob_reserved V (h_dev h)"
  shows "touches V va n R h (snd (gpu_call f h))" and "touches V va n R h (snd (call_ptr p dflt f h))"
    and "touches V va n R h (call_opt p f h)"
  using assms by (simp_all add: touches_def gpu_call_eq call_ptr_def call_opt_def keeps_device_def queue_def)

definition reserves :: "'d hook \<Rightarrow> (dptr \<times> size_t) set" where
  "reserves h = (\<lambda>s. (ow_va s, ow_padded s)) ` {s \<in> set (h_owned h). ow_live s}"

definition owned_inv :: "'d obs \<Rightarrow> 'd hook \<Rightarrow> bool" where
  "owned_inv V h \<longleftrightarrow> queue V h = [] \<and> segs_wf h \<and> reserves h \<subseteq> ob_reserved V (h_dev h) \<and>
    h_data_dir h \<noteq> [] \<and> blob_consistent h"

definition apart_from :: "dptr \<Rightarrow> size_t \<Rightarrow> (dptr \<times> size_t) set \<Rightarrow> bool" where
  "apart_from va n R \<longleftrightarrow> (\<forall>(a, k) \<in> R. \<forall>x. \<not> (within a k x \<and> within va n x))"

lemma readable_mono:
  assumes "readable dev va n" and "\<And>i. i < n \<Longrightarrow> dev' (va + of_nat i) = dev (va + of_nat i)"
  shows "readable dev' va n"
  using assms by (simp add: readable_def)

lemma within_index: "i < unat (ow_req s) \<Longrightarrow> ow_req s \<le> ow_padded s \<Longrightarrow> within (ow_va s) (ow_padded s) (ow_va s + of_nat i)"
proof -
  assume i: "i < unat (ow_req s)" and le: "ow_req s \<le> ow_padded s"
  have "i < 2 ^ 64" using i unsigned_less [of "ow_req s", where ?'a = nat] by simp
  then have "unat (ow_va s + of_nat i - ow_va s) < unat (ow_req s)" using i by (simp add: unat_of_nat)
  then show ?thesis by (rule within_req [OF le])
qed

lemma seg_readable_mono:
  assumes "seg_readable (m_dev (h_mem h)) s" "ow_req s \<le> ow_padded s" "touches V va n R h h'"
    and "\<And>x. \<not> (within (ow_va s) (ow_padded s) x \<and> within va n x)"
  shows "seg_readable (m_dev (h_mem h')) s"
  unfolding seg_readable_def
proof (rule readable_mono [OF assms(1) [unfolded seg_readable_def]])
  fix i assume "i < unat (ow_req s)"
  then have "\<not> within va n (ow_va s + of_nat i)" using within_index assms(2,4) by blast
  then show "m_dev (h_mem h') (ow_va s + of_nat i) = m_dev (h_mem h) (ow_va s + of_nat i)"
    using assms(3) by (simp add: touches_def)
qed

lemma owned_inv_touches:
  assumes inv: "owned_inv V h" and t: "touches V va n (reserves h) h h'" and a: "apart_from va n (reserves h)"
  shows "owned_inv V h'"
proof -
  have eq: "h_owned h' = h_owned h" "queue V h' = []" using t by (simp_all add: touches_def)
  have "seg_readable (m_dev (h_mem h')) s" if "s \<in> set (h_owned h)" "ow_live s" for s
  proof (rule seg_readable_mono [OF _ _ t])
    show "seg_readable (m_dev (h_mem h)) s" "ow_req s \<le> ow_padded s"
      using inv that by (auto simp: owned_inv_def segs_wf_def)
    fix x show "\<not> (within (ow_va s) (ow_padded s) x \<and> within va n x)"
      using a that by (auto simp: apart_from_def reserves_def)
  qed
  then have "segs_wf h'" using inv by (auto simp: owned_inv_def segs_wf_def eq)
  moreover have "blob_consistent h'" "h_data_dir h' \<noteq> []" "reserves h' \<subseteq> ob_reserved V (h_dev h')"
    using inv t by (simp_all add: owned_inv_def touches_def blob_consistent_def blob_ok_def blob_def blob_path_def reserves_def)
  ultimately show ?thesis using eq by (simp add: owned_inv_def)
qed

lemma apart_from_none: "apart_from va 0 R"
  by (auto simp: apart_from_def within_def)

text \<open>A call that touches no memory keeps the invariant.\<close>

lemma owned_inv_quiet: "owned_inv V h \<Longrightarrow> touches V va 0 (reserves h) h h' \<Longrightarrow> owned_inv V h'"
  using owned_inv_touches [OF _ _ apart_from_none] .

lemma reserves_touches: "touches V va n R h h' \<Longrightarrow> reserves h' = reserves h"
  by (simp add: touches_def reserves_def)

lemma inv_keeps:
  assumes "keeps_device V (f :: ('r, 'd) cu)" "same_reserved V f" "owned_inv V h"
  shows "owned_inv V (snd (gpu_call f h))" "owned_inv V (snd (call_ptr p dflt f h))" "owned_inv V (call_opt p f h)"
proof -
  have q: "queue V h = []" "reserves h \<subseteq> ob_reserved V (h_dev h)" using assms(3) by (simp_all add: owned_inv_def)
  have r: "R \<subseteq> ob_reserved V (snd (snd (f m d)))" if "R \<subseteq> ob_reserved V d" for R m d
    using assms(2) that by (simp add: same_reserved_def)
  note t = quiet_changes [OF assms(1) r q]
  show "owned_inv V (snd (gpu_call f h))" by (rule owned_inv_quiet [OF assms(3) t(1)])
  show "owned_inv V (snd (call_ptr p dflt f h))" by (rule owned_inv_quiet [OF assms(3) t(2)])
  show "owned_inv V (call_opt p f h)" by (rule owned_inv_quiet [OF assms(3) t(3)])
qed

text \<open>A range that no live segment overlaps.\<close>

definition inv_beside :: "'d obs \<Rightarrow> dptr \<Rightarrow> size_t \<Rightarrow> 'd hook \<Rightarrow> bool" where
  "inv_beside V va n h \<longleftrightarrow> owned_inv V h \<and> apart_from va n (reserves h) \<and> n \<noteq> 0"

lemma beside_touches: "inv_beside V va n h \<Longrightarrow> touches V va n (reserves h) h h' \<Longrightarrow> inv_beside V va n h'"
  using owned_inv_touches reserves_touches unfolding inv_beside_def by metis

lemma beside_not_in: "inv_beside V va n h \<Longrightarrow> (va, n) \<notin> reserves h"
proof
  assume b: "inv_beside V va n h" and "(va, n) \<in> reserves h"
  then have "\<not> within va n va" unfolding inv_beside_def apart_from_def by blast
  moreover have "n \<noteq> 0" using b by (simp add: inv_beside_def)
  ultimately show False by (simp add: within_def word_gt_0)
qed

lemma beside_call:
  assumes "changes_within V va n f" "same_reserved V f" "inv_beside V va n h"
  shows "inv_beside V va n (snd (gpu_call f h))" "inv_beside V va n (snd (call_ptr p dflt f h))"
proof -
  have q: "queue V h = []" "reserves h \<subseteq> ob_reserved V (h_dev h)" using assms(3) by (simp_all add: inv_beside_def owned_inv_def)
  have r: "R \<subseteq> ob_reserved V (snd (snd (f m d)))" if "R \<subseteq> ob_reserved V d" for R m d
    using assms(2) that by (simp add: same_reserved_def)
  note t = touches_call [OF assms(1) r q]
  show "inv_beside V va n (snd (gpu_call f h))" by (rule beside_touches [OF assms(3) t(1)])
  show "inv_beside V va n (snd (call_ptr p dflt f h))" by (rule beside_touches [OF assms(3) t(2)])
qed

lemma free_docs:
  assumes "cuda_docs V C"
  shows "ob_reserved V d - {(va, n)} \<subseteq> ob_reserved V (snd (snd (cuMemAddressFree C va n m d)))"
proof -
  have "\<forall>va n m d. ob_reserved V d - {(va, n)} \<subseteq> ob_reserved V (snd (snd (cuMemAddressFree C va n m d))) \<and>
      ob_reserved V (snd (snd (cuMemAddressFree C va n m d))) \<subseteq> ob_reserved V d"
    using assms unfolding cuda_docs_def reserve_docs_def by (elim conjE)
  then show ?thesis by blast
qed

lemma beside_free:
  assumes docs: "cuda_docs V C" and b: "inv_beside V va n h"
  shows "owned_inv V (snd (call_ptr p dflt (cuMemAddressFree C va n) h))"
proof -
  have q: "queue V h = []" "reserves h \<subseteq> ob_reserved V (h_dev h)" and inv: "owned_inv V h"
    using b by (simp_all add: inv_beside_def owned_inv_def)
  have k: "keeps_device V (cuMemAddressFree C va n)" using docs by (simp add: cuda_docs_def reserve_docs_def)
  have "reserves h \<subseteq> ob_reserved V (h_dev h) - {(va, n)}" using q(2) beside_not_in [OF b] by blast
  moreover have "ob_reserved V (h_dev h) - {(va, n)} \<subseteq> ob_reserved V (snd (snd (cuMemAddressFree C va n (h_mem h) (h_dev h))))"
    using free_docs [OF docs] by blast
  ultimately have "touches V va 0 (reserves h) h (snd (call_ptr p dflt (cuMemAddressFree C va n) h))"
    using k q by (auto simp: touches_def gpu_call_eq call_ptr_def keeps_device_def queue_def)
  then show ?thesis by (rule owned_inv_quiet [OF inv])
qed

lemma docs_same:
  assumes "cuda_docs V C"
  shows "same_reserved V (cudaGetDevice C)" "same_reserved V (cuMemGetAllocationGranularity C p)"
    "same_reserved V (cuMemCreate C n q fl)" "same_reserved V (cuMemRelease C a)" "same_reserved V (cuMemMap C va n off a fl)"
    "same_reserved V (cuMemSetAccess C va n r)" "same_reserved V (cuMemUnmap C va n)"
    "keeps_device V (cudaGetDevice C)" "keeps_device V (cuMemGetAllocationGranularity C p)"
    "keeps_device V (cuMemCreate C n q fl)" "keeps_device V (cuMemRelease C a)"
    "keeps_device V (cuMemAddressReserve C n 0 0 0)"
    "changes_within V va n (cuMemMap C va n off a fl)" "changes_within V va n (cuMemSetAccess C va n r)"
    "changes_within V va n (cuMemUnmap C va n)"
  using assms by (auto simp: cuda_docs_def reserve_docs_def control_docs_def vmm_docs_def)

text \<open>Registering a mapped range.\<close>

lemma own_inv:
  assumes "inv_beside V va padded h" "(va, padded) \<in> ob_reserved V (h_dev h)" "n \<noteq> 0" "n \<le> padded"
    and "\<And>x. within va padded x \<Longrightarrow> m_dev (h_mem h) x \<noteq> None"
  shows "owned_inv V (own va padded n a prop h)"
proof (cases "length (h_owned h) < GCR_MAX_VMM")
  case True
  let ?s = "\<lparr>ow_va = va, ow_padded = padded, ow_req = n, ow_handle = a, ow_prop = prop, ow_live = True, ow_blob_off = 0, ow_frozen = False\<rparr>"
  have inv: "owned_inv V h" and ap: "apart_from va padded (reserves h)" using assms(1) by (simp_all add: inv_beside_def)
  have own: "h_owned (own va padded n a prop h) = h_owned h @ [?s]" "h_mem (own va padded n a prop h) = h_mem h"
    "h_dev (own va padded n a prop h) = h_dev h"
    using True by (simp_all add: own_def)
  have "readable (m_dev (h_mem h)) va (unat n)"
    using within_index [of _ ?s] assms(4,5) by (auto simp: readable_def)
  then have "seg_readable (m_dev (h_mem h)) ?s" by (simp add: seg_readable_def)
  moreover have "ranges_apart s ?s" if "s \<in> set (h_owned h)" "ow_live s" for s
    using ap that by (auto simp: apart_from_def reserves_def ranges_apart_def)
  ultimately have "segs_wf (own va padded n a prop h)"
    using inv assms(3,4) unfolding segs_wf_def own owned_inv_def by (auto simp: sorted_wrt_append)
  moreover have "reserves (own va padded n a prop h) = insert (va, padded) (reserves h)"
  proof -
    have "{s \<in> set (h_owned h @ [?s]). ow_live s} = insert ?s {s \<in> set (h_owned h). ow_live s}" by auto
    then show ?thesis unfolding reserves_def own by simp
  qed
  moreover have "queue V (own va padded n a prop h) = queue V h" "h_data_dir (own va padded n a prop h) = h_data_dir h"
    "blob_consistent (own va padded n a prop h) = blob_consistent h"
    using True by (simp_all add: own_def queue_def blob_consistent_def blob_ok_def blob_def blob_path_def)
  ultimately show ?thesis using inv assms(2) own by (simp add: owned_inv_def)
next
  case False
  then show ?thesis using assms(1) by (simp add: own_def inv_beside_def)
qed

subsection \<open>Allocation and release keep the registry well-formed\<close>

text \<open>From the reservation on.\<close>

lemma reserve_ok:
  assumes docs: "cuda_docs V C" and inv: "owned_inv V h" and n: "n \<noteq> 0"
    and r: "gpu_call (cuMemAddressReserve C n 0 0 0) h = ((rc, va), h')"
  shows "rc \<noteq> 0 \<Longrightarrow> owned_inv V h'" and "rc = 0 \<Longrightarrow> inv_beside V va n h' \<and> (va, n) \<in> ob_reserved V (h_dev h')"
    and "h_owned h' = h_owned h"
proof -
  obtain m d where c: "cuMemAddressReserve C n 0 0 0 (h_mem h) (h_dev h) = ((rc, va), m, d)" and h': "h' = set_gpu m d h"
    using r by (auto simp: gpu_call_eq) (metis prod.collapse)
  show "h_owned h' = h_owned h" by (simp add: h')
  have q: "queue V h = []" "reserves h \<subseteq> ob_reserved V (h_dev h)" using inv by (simp_all add: owned_inv_def)
  have rd: "\<forall>n m d va m' d'. cuMemAddressReserve C n 0 0 0 m d = ((0, va), m', d') \<longrightarrow>
       ob_reserved V d' = insert (va, n) (ob_reserved V d) \<and>
       (\<forall>(a, k) \<in> ob_reserved V d. \<forall>x. \<not> (within a k x \<and> within va n x))"
    using docs unfolding cuda_docs_def reserve_docs_def by (elim conjE)
  have rf: "\<forall>n m d. fst (fst (cuMemAddressReserve C n 0 0 0 m d)) \<noteq> 0 \<longrightarrow>
       ob_reserved V (snd (snd (cuMemAddressReserve C n 0 0 0 m d))) = ob_reserved V d"
    using docs unfolding cuda_docs_def reserve_docs_def by (elim conjE)
  have k: "m_dev m = m_dev (h_mem h)" "ob_queue V d = []"
    using docs_same(12) [OF docs, of n] c q(1) unfolding keeps_device_def queue_def by (metis fst_conv snd_conv)+
  have t: "touches V va 0 (reserves h) h h'" if "reserves h \<subseteq> ob_reserved V d"
    using that k by (simp add: touches_def h')
  show "owned_inv V h'" if "rc \<noteq> 0"
  proof -
    have "ob_reserved V d = ob_reserved V (h_dev h)" using rf c that by (metis fst_conv snd_conv)
    then show ?thesis using owned_inv_quiet [OF inv t] q by simp
  qed
  show "inv_beside V va n h' \<and> (va, n) \<in> ob_reserved V (h_dev h')" if "rc = 0"
  proof -
    have d: "ob_reserved V d = insert (va, n) (ob_reserved V (h_dev h))"
      "\<forall>(a, k) \<in> ob_reserved V (h_dev h). \<forall>x. \<not> (within a k x \<and> within va n x)"
      using rd c that by blast+
    have tt: "touches V va 0 (reserves h) h h'" using t d(1) q(2) by blast
    have "apart_from va n (reserves h')" using d(2) q(2) reserves_touches [OF tt] unfolding apart_from_def by auto
    then show ?thesis using owned_inv_quiet [OF inv tt] d(1) n by (simp add: inv_beside_def h')
  qed
qed

lemma access_granted:
  assumes "cuda_docs V C" and "gpu_call (cuMemSetAccess C va n p) h = (0, h')" and "within va n x"
  shows "m_dev (h_mem h') x \<noteq> None"
proof -
  obtain m d where c: "cuMemSetAccess C va n p (h_mem h) (h_dev h) = (0, m, d)" "h_mem h' = m"
    using assms(2) by (auto simp: gpu_call_eq) (metis prod.collapse)
  have "\<forall>va n p m d m' d' x. cuMemSetAccess C va n p m d = (0, m', d') \<longrightarrow> within va n x \<longrightarrow> m_dev m' x \<noteq> None"
    using assms(1) unfolding cuda_docs_def vmm_docs_def by (elim conjE)
  then show ?thesis using c assms(3) by blast
qed

lemma resolve_inv [simp]: "owned_inv V (resolve_vmm_real C h) = owned_inv V h"
  by (simp add: owned_inv_def resolve_vmm_real_def resolve_def queue_def segs_wf_def reserves_def blob_consistent_def
      blob_ok_def blob_def blob_path_def)

lemma granule_ok: "gran0 < 2 ^ 32 \<Longrightarrow> granule gran0 \<noteq> 0 \<and> unat (granule gran0) < 2 ^ 32"
  by (auto simp: granule_def word_less_nat_alt)

lemma map_range_inv:
  assumes docs: "cuda_docs V C" and inv: "owned_inv V h" and n: "n \<noteq> 0" "n \<le> padded"
  shows "owned_inv V (snd (map_range C n padded a prop dev h))"
proof -
  note ds = docs_same [OF docs]
  obtain rc1 va h1 where r1: "gpu_call (cuMemAddressReserve C padded 0 0 0) h = ((rc1, va), h1)" by (metis prod.collapse)
  obtain rc2 h2 where r2: "gpu_call (cuMemMap C va padded 0 a 0) h1 = (rc2, h2)" by fastforce
  obtain rc3 h3 where r3: "gpu_call (cuMemSetAccess C va padded (rw_access dev)) h2 = (rc3, h3)" by fastforce
  have p0: "padded \<noteq> 0" using n by (auto simp: word_le_nat_alt unat_eq_0)
  note rs = reserve_ok [OF docs inv p0 r1]
  have rel: "owned_inv V (snd (call_ptr ''r_cuMemRelease2'' 0 (cuMemRelease C a) h'))" if "owned_inv V h'" for h'
    by (rule inv_keeps(2) [OF ds(11) ds(4) that])
  show ?thesis
  proof (cases "rc1 = 0")
    case False
    then show ?thesis using rel [OF rs(1)] by (simp add: map_range_def r1)
  next
    case ok1: True
    have b1: "inv_beside V va padded h1" "(va, padded) \<in> ob_reserved V (h_dev h1)" using rs(2) [OF ok1] by simp_all
    have b2: "inv_beside V va padded h2" using beside_call(1) [OF ds(13) ds(5) b1(1), of 0 a 0] r2 by simp
    have b3: "inv_beside V va padded h3" using beside_call(1) [OF ds(14) ds(6) b2, of "rw_access dev"] r3 by simp
    note fr = beside_free [OF docs]
    consider "rc2 \<noteq> 0" | "rc2 = 0" "rc3 \<noteq> 0" | "rc2 = 0" "rc3 = 0" by blast
    then show ?thesis
    proof cases
      case 1
      then show ?thesis using rel [OF fr [OF b2]] by (simp add: map_range_def r1 ok1 r2)
    next
      case 2
      have "inv_beside V va padded (snd (call_ptr ''r_cuMemUnmap2'' 0 (cuMemUnmap C va padded) h3))"
        by (rule beside_call(2) [OF ds(15) ds(7) b3])
      then show ?thesis using rel [OF fr] 2 by (simp add: map_range_def r1 ok1 r2 r3)
    next
      case 3
      have "h_dev h3 = h_dev (snd (gpu_call (cuMemSetAccess C va padded (rw_access dev)) h2))"
        "h_dev h2 = h_dev (snd (gpu_call (cuMemMap C va padded 0 a 0) h1))" using r2 r3 by simp_all
      then have "(va, padded) \<in> ob_reserved V (h_dev h3)"
        using same_reserved_call [OF ds(6)] same_reserved_call [OF ds(5)] b1(2) by metis
      then have "owned_inv V (own va padded n a prop h3)"
        using own_inv [OF b3 _ n] access_granted [OF docs] r3 3 by blast
      then show ?thesis using 3 by (simp add: map_range_def r1 ok1 r2 r3)
    qed
  qed
qed

lemma gcr_vmm_alloc_inv:
  assumes docs: "cuda_docs V C" and inv: "owned_inv V h" and n: "n \<noteq> 0" "unat n + 2 ^ 32 \<le> 2 ^ 64"
  shows "owned_inv V (snd (gcr_vmm_alloc C n h))"
proof -
  note ds = docs_same [OF docs]
  define h0 where "h0 = resolve_vmm_real C h"
  obtain dev h1 where r1: "current_device C h0 = (dev, h1)" by fastforce
  obtain rg gran0 h2 where r2: "gpu_call (cuMemGetAllocationGranularity C (device_prop dev)) h1 = ((rg, gran0), h2)" by (metis prod.collapse)
  define padded where "padded = padded_size n (granule gran0)"
  obtain rc a h3 where r3: "gpu_call (cuMemCreate C padded (Some (device_prop dev)) 0) h2 = ((rc, a), h3)" by (metis prod.collapse)
  have i0: "owned_inv V h0" using inv by (simp add: h0_def)
  have i1: "owned_inv V h1"
    using r1 i0 inv_keeps(1) [OF ds(8) ds(1) i0] by (auto simp: current_device_def split: if_splits prod.splits)
  have i2: "owned_inv V h2" using inv_keeps(1) [OF ds(9) ds(2) i1, of "device_prop dev"] r2 by simp
  have i3: "owned_inv V h3" using inv_keeps(1) [OF ds(10) ds(3) i2, of padded "Some (device_prop dev)" 0] r3 by simp
  have "\<forall>p m d. snd (fst (cuMemGetAllocationGranularity C p m d)) < 2 ^ 32"
    using docs unfolding cuda_docs_def reserve_docs_def by (elim conjE)
  then have "gran0 < 2 ^ 32" using r2 unfolding gpu_call_eq by (metis fst_conv snd_conv)
  note g = granule_ok [OF this]
  have "n \<le> padded" unfolding padded_def using g n by (intro padded_size_ok(1)) simp_all
  note fin = map_range_inv [OF docs i3 n(1) this, of a "device_prop dev" dev]
  show ?thesis
    using i0 i3 fin unfolding gcr_vmm_alloc_def h0_def [symmetric] Let_def
    by (simp add: r1 r2 padded_def [symmetric] r3)
qed

subsection \<open>Release\<close>

lemma update_first_split:
  "find P xs = Some x \<Longrightarrow> \<exists>ys zs. xs = ys @ x # zs \<and> P x \<and> update_first P f xs = ys @ f x # zs \<and> (\<forall>y \<in> set ys. \<not> P y)"
proof (induction xs)
  case (Cons y xs)
  show ?case
  proof (cases "P y")
    case True
    then show ?thesis using Cons.prems by (intro exI [of _ "[]"] exI [of _ xs]) simp
  next
    case False
    then obtain ys zs where "xs = ys @ x # zs" "P x" "update_first P f xs = ys @ f x # zs" "\<forall>y \<in> set ys. \<not> P y"
      using Cons by auto
    then show ?thesis using False by (intro exI [of _ "y # ys"] exI [of _ zs]) simp
  qed
qed simp

text \<open>Taking a segment off the registry leaves room beside the others.\<close>

definition unlist :: "dptr \<Rightarrow> 'd hook \<Rightarrow> 'd hook" where
  "unlist va h = h\<lparr>h_owned := update_first (\<lambda>s. ow_live s \<and> ow_va s = va) (ow_live_update (\<lambda>_. False)) (h_owned h)\<rparr>"

lemma unlist_inv:
  assumes inv: "owned_inv V h" and f: "find (\<lambda>s. ow_live s \<and> ow_va s = va) (h_owned h) = Some s"
  shows "inv_beside V (ow_va s) (ow_padded s) (unlist va h)" and "reserves (unlist va h) \<subseteq> reserves h"
proof -
  let ?s = "s\<lparr>ow_live := False\<rparr>"
  obtain ys zs where sp: "h_owned h = ys @ s # zs" "ow_live s" "h_owned (unlist va h) = ys @ ?s # zs"
    using update_first_split [OF f, of "ow_live_update (\<lambda>_. False)"] by (auto simp: unlist_def)
  have sub: "reserves (unlist va h) = (\<lambda>s. (ow_va s, ow_padded s)) ` {t \<in> set (ys @ zs). ow_live t}"
    by (auto simp: reserves_def sp(3))
  show "reserves (unlist va h) \<subseteq> reserves h" by (auto simp: sub) (auto simp: reserves_def sp(1))
  have wf: "segs_wf h" using inv by (simp add: owned_inv_def)
  have "h_mem (unlist va h) = h_mem h" by (simp add: unlist_def)
  then have "segs_wf (unlist va h)"
    using wf unfolding segs_wf_def sp(1,3) by (auto simp: sorted_wrt_append)
  moreover have "queue V (unlist va h) = queue V h" "h_data_dir (unlist va h) = h_data_dir h" "h_dev (unlist va h) = h_dev h"
    "blob_consistent (unlist va h) = blob_consistent h"
    by (simp_all add: unlist_def queue_def blob_consistent_def blob_ok_def blob_def blob_path_def)
  ultimately have "owned_inv V (unlist va h)"
    using inv \<open>reserves (unlist va h) \<subseteq> reserves h\<close> by (auto simp: owned_inv_def)
  moreover have "apart_from (ow_va s) (ow_padded s) (reserves (unlist va h))"
    using wf sp(2) unfolding segs_wf_def sp(1) by (auto simp: apart_from_def sub sorted_wrt_append ranges_apart_def)
  moreover have "ow_padded s \<noteq> 0"
    using wf sp(1,2) by (auto simp: segs_wf_def word_le_nat_alt unat_eq_0)
  ultimately show "inv_beside V (ow_va s) (ow_padded s) (unlist va h)" by (simp add: inv_beside_def)
qed

lemma unlist_call_opt: "call_opt p f (unlist va h) = unlist va (call_opt p f h)"
  by (simp add: call_opt_def unlist_def gpu_call_def split: prod.splits)

lemma opt_as_ptr: "looked_up h p \<Longrightarrow> call_opt p f h = snd (call_ptr p dflt f h)"
  by (simp add: call_opt_def call_ptr_def)

lemma gcr_vmm_free_inv:
  assumes docs: "cuda_docs V C" and inv: "owned_inv V h"
  shows "owned_inv V (snd (gcr_vmm_free C va h))"
proof (cases "find (\<lambda>s. ow_live s \<and> ow_va s = va) (h_owned h)")
  case None
  then show ?thesis using inv by (simp add: gcr_vmm_free_def)
next
  case (Some s)
  note ds = docs_same [OF docs]
  let ?va = "ow_va s" and ?n = "ow_padded s"
  define h0 where "h0 = unlist va h"
  define h1 where "h1 = call_opt ''r_cuMemUnmap2'' (cuMemUnmap C ?va ?n) h0"
  define h2 where "h2 = call_opt ''r_cuMemRelease2'' (cuMemRelease C (ow_handle s)) h1"
  define h3 where "h3 = call_opt ''r_cuMemAddressFree2'' (cuMemAddressFree C ?va ?n) h2"
  have run: "snd (gcr_vmm_free C va h) = h3"
    by (simp add: gcr_vmm_free_def Some Let_def h0_def h1_def h2_def h3_def unlist_call_opt)
      (simp add: unlist_def call_opt_def gpu_call_def split: prod.splits)
  have b0: "inv_beside V ?va ?n h0" unfolding h0_def by (rule unlist_inv(1) [OF inv Some])
  have b1: "inv_beside V ?va ?n h1"
    using beside_call(2) [OF ds(15) ds(7) b0, of "''r_cuMemUnmap2''" 0] b0 opt_as_ptr
    by (cases "looked_up h0 ''r_cuMemUnmap2''") (simp_all add: h1_def call_opt_def call_ptr_def)
  have b2: "inv_beside V ?va ?n h2"
  proof -
    have q: "queue V h1 = []" "reserves h1 \<subseteq> ob_reserved V (h_dev h1)" using b1 by (simp_all add: inv_beside_def owned_inv_def)
    have r: "R \<subseteq> ob_reserved V (snd (snd (cuMemRelease C (ow_handle s) m d)))" if "R \<subseteq> ob_reserved V d" for R m d
      using ds(4) that by (simp add: same_reserved_def)
    show ?thesis unfolding h2_def by (rule beside_touches [OF b1 quiet_changes(3) [OF ds(11) r q]])
  qed
  have "owned_inv V h3"
    using beside_free [OF docs b2, of "''r_cuMemAddressFree2''" 0] b2 opt_as_ptr
    by (cases "looked_up h2 ''r_cuMemAddressFree2''") (simp_all add: h3_def call_opt_def call_ptr_def inv_beside_def)
  then show ?thesis by (simp add: run)
qed

subsection \<open>The states between two checkpoints\<close>

text \<open>A device that follows the documentation and reports no errors, and a libc that always succeeds.\<close>

definition device_ok :: "'d obs \<Rightarrow> 'd cuda \<Rightarrow> bool" where
  "device_ok V C \<longleftrightarrow> cuda_docs V C \<and> no_copy_errors C \<and> no_vmm_errors C \<and> has_ptrs C"

definition libc_ok :: "libc \<Rightarrow> bool" where
  "libc_ok L \<longleftrightarrow> any_order L \<and> no_libc_failures L"

text \<open>States that differ in what the engine does not look at.\<close>

definition same_engine :: "'d hook \<Rightarrow> 'd hook \<Rightarrow> bool" where
  "same_engine h h' \<longleftrightarrow> h_mem h' = h_mem h \<and> h_dev h' = h_dev h \<and> h_owned h' = h_owned h \<and>
    h_data_dir h' = h_data_dir h \<and> h_blob h' = h_blob h \<and> h_blob_size h' = h_blob_size h \<and> h_blob_fd h' = h_blob_fd h \<and>
    h_files h' (blob_path h) = h_files h (blob_path h)"

text \<open>
  What happens to a process whose buffers the interceptor serves: it allocates through the
  interceptor, frees, and computes, which may change any byte it can reach; it is frozen and,
  on a device that kept the address reservations, remapped.
\<close>

inductive served :: "'d obs \<Rightarrow> 'd cuda \<Rightarrow> 'd hook \<Rightarrow> bool" for V :: "'d obs" and C :: "'d cuda" where
  start: "\<lbrakk>queue V h = []; h_owned h = []; h_data_dir h \<noteq> []; \<not> h_blob h; \<not> h_blob_fd h\<rbrakk> \<Longrightarrow> served V C h"
| malloc: "\<lbrakk>served V C h; n \<noteq> 0; unat n + 2 ^ 32 \<le> 2 ^ 64; gcr_vmm_alloc C n h = (r, h')\<rbrakk> \<Longrightarrow> served V C h'"
| free: "\<lbrakk>served V C h; gcr_vmm_free C va h = (r, h')\<rbrakk> \<Longrightarrow> served V C h'"
| compute: "\<lbrakk>served V C h; \<And>x. m_dev m x = None \<longleftrightarrow> m_dev (h_mem h) x = None\<rbrakk> \<Longrightarrow> served V C (h\<lparr>h_mem := m\<rparr>)"
| other: "\<lbrakk>served V C h; same_engine h h'\<rbrakk> \<Longrightarrow> served V C h'"
| cycle: "\<lbrakk>served V C h; s \<in> set (h_owned h); ow_live s; blob_room (h_owned h) < 2 ^ 63; libc_ok L; libc_ok L';
    carried V (checkpoint_freeze C L getenv h) h2;
    ob_reserved V (h_dev (checkpoint_freeze C L getenv h)) \<subseteq> ob_reserved V (h_dev h2)\<rbrakk> \<Longrightarrow>
    served V C (restore_remap C L' getenv' h2)"

inductive_cases servedE: "served V C h"

lemma same_engine_inv: "same_engine h h' \<Longrightarrow> owned_inv V h \<Longrightarrow> owned_inv V h'"
  by (simp add: same_engine_def owned_inv_def queue_def reserves_def segs_wf_def blob_consistent_def blob_ok_def blob_def
      blob_path_def)

lemma inv_can_freeze:
  assumes "device_ok V C" and "libc_ok L" and "owned_inv V h" and "blob_room (h_owned h) < 2 ^ 63"
  shows "can_freeze V C L h" and "can_remap V C L"
  using assms
  by (auto simp: device_ok_def libc_ok_def can_freeze_def can_remap_def cuda_docs_def good_def owned_inv_def segs_fit_def)

lemma reserve_nothing:
  assumes "device_ok V C"
  shows "ob_reserved V (h_dev (checkpoint_freeze C L getenv h)) = ob_reserved V (h_dev h)"
    and "ob_reserved V (h_dev (restore_remap C L getenv h)) = ob_reserved V (h_dev h)"
proof -
  have "copies_reserve_nothing V C" "maps_reserve_nothing V C"
    using assms by (auto simp: device_ok_def cuda_docs_def reserve_docs_def maps_reserve_nothing_def)
  then show "ob_reserved V (h_dev (checkpoint_freeze C L getenv h)) = ob_reserved V (h_dev h)"
    "ob_reserved V (h_dev (restore_remap C L getenv h)) = ob_reserved V (h_dev h)"
    using ranges.run_freeze [of V C h L getenv] ranges.run_remap [of V C h L getenv] by (simp_all add: same_ranges_def)
qed

lemma reserves_same_seg: "list_all2 same_seg (h_owned h) (h_owned h') \<Longrightarrow> reserves h' \<subseteq> reserves h"
proof
  fix r assume l: "list_all2 same_seg (h_owned h) (h_owned h')" and "r \<in> reserves h'"
  then obtain t where t: "t \<in> set (h_owned h')" "ow_live t" "r = (ow_va t, ow_padded t)" by (auto simp: reserves_def)
  then obtain s where "s \<in> set (h_owned h)" "same_seg s t" using list_all2_left [OF l] by blast
  then show "r \<in> reserves h" using t unfolding reserves_def by (auto simp: same_seg_def)
qed

lemma cycle_inv:
  assumes dev: "device_ok V C" and L: "libc_ok L" "libc_ok L'" and inv: "owned_inv V h" and room: "blob_room (h_owned h) < 2 ^ 63"
    and s: "s \<in> set (h_owned h)" "ow_live s" and ca: "carried V (checkpoint_freeze C L getenv h) h2"
    and res: "ob_reserved V (h_dev (checkpoint_freeze C L getenv h)) \<subseteq> ob_reserved V (h_dev h2)"
  shows "owned_inv V (restore_remap C L' getenv' h2)"
proof -
  let ?h' = "restore_remap C L' getenv' h2"
  note fr = freeze_remap [OF inv_can_freeze(1) [OF dev L(1) inv room] inv_can_freeze(2) [OF dev L(2) inv room] s ca, where getenv' = getenv']
  have wf: "segs_wf h" and dd: "h_data_dir h \<noteq> []" and rs: "reserves h \<subseteq> ob_reserved V (h_dev h)"
    using inv by (simp_all add: owned_inv_def)
  have "segs_wf ?h'"
    unfolding segs_wf_def
  proof (intro conjI ballI impI)
    fix t assume t: "t \<in> set (h_owned ?h')"
    then obtain s where s: "s \<in> set (h_owned h)" "same_seg s t" using list_all2_left [OF fr(2)] by blast
    show "\<not> ow_frozen t" using s(2) by (simp add: same_seg_def)
    assume l: "ow_live t"
    show "ow_req t \<noteq> 0" "ow_req t \<le> ow_padded t" using wf s l by (auto simp: segs_wf_def same_seg_def)
    have "seg_readable (m_dev (h_mem h)) s" using wf s l by (auto simp: segs_wf_def same_seg_def)
    then show "seg_readable (m_dev (h_mem ?h')) t"
      using fr(1) [OF s(1)] s(2) l unfolding seg_readable_def readable_def same_seg_def by simp
  next
    have w: "sorted_wrt (\<lambda>s t. ow_live s \<longrightarrow> ow_live t \<longrightarrow> ranges_apart s t) (h_owned h)" using wf by (simp add: segs_wf_def)
    show "sorted_wrt (\<lambda>s t. ow_live s \<longrightarrow> ow_live t \<longrightarrow> ranges_apart s t) (h_owned ?h')"
      by (rule list_all2_sorted_wrt [OF fr(2) w]) (simp add: same_seg_def ranges_apart_def)
  qed
  moreover have "reserves ?h' \<subseteq> ob_reserved V (h_dev ?h')"
    using reserves_same_seg [OF fr(2)] rs res reserve_nothing [OF dev] by blast
  ultimately show ?thesis using fr(5-7) dd by (simp add: owned_inv_def)
qed

lemma served_inv:
  assumes dev: "device_ok V C"
  shows "served V C h \<Longrightarrow> owned_inv V h"
proof (induction rule: served.induct)
  case (start h)
  then show ?case by (simp add: owned_inv_def segs_wf_def reserves_def blob_consistent_def)
next
  case (malloc h n r h')
  have "cuda_docs V C" using dev by (simp add: device_ok_def)
  then show ?case using gcr_vmm_alloc_inv [OF _ malloc.IH malloc.hyps(2,3)] malloc.hyps(4) by (metis snd_conv)
next
  case (free h va r h')
  have "cuda_docs V C" using dev by (simp add: device_ok_def)
  then show ?case using gcr_vmm_free_inv [OF _ free.IH, of C va] free.hyps(2) by simp
next
  case (compute h m)
  have "seg_readable (m_dev m) s = seg_readable (m_dev (h_mem h)) s" for s
    using compute.hyps(2) by (auto simp: seg_readable_def readable_def)
  then have "segs_wf (h\<lparr>h_mem := m\<rparr>) = segs_wf h" by (simp add: segs_wf_def)
  then show ?case using compute.IH
    by (simp add: owned_inv_def queue_def reserves_def blob_consistent_def blob_ok_def blob_def blob_path_def)
next
  case (other h h')
  then show ?case using same_engine_inv by blast
next
  case (cycle h s L L' getenv h2 getenv')
  then show ?case using cycle_inv [OF dev] by blast
qed

lemma served_can_freeze:
  assumes "device_ok V C" and "libc_ok L" and "served V C h" and "blob_room (h_owned h) < 2 ^ 63"
  shows "can_freeze V C L h" and "can_remap V C L"
  using inv_can_freeze [OF assms(1,2) served_inv [OF assms(1,3)] assms(4)] by simp_all

end
