(* ===== verification/Hook_Watch.thy ===== *)
theory Hook_Watch
  imports Hook_Served
begin

text \<open>
  The watcher thread of \<^verbatim>\<open>interceptor/preload.c\<close>: the control file, the restore gate, and one turn
  of the loop that serves the agent's signals.
\<close>

definition GCR_IDLE :: int where "GCR_IDLE = 0"
definition GCR_CKPT :: int where "GCR_CKPT = 1"
definition GCR_RESTORE :: int where "GCR_RESTORE = 2"
definition GCR_GATING :: int where "GCR_GATING = 3"

lemmas hook_signals = GCR_IDLE_def GCR_CKPT_def GCR_RESTORE_def GCR_GATING_def

subsection \<open>The control file\<close>

definition c_isspace :: "char \<Rightarrow> bool" where
  "c_isspace c \<longleftrightarrow> c \<in> {CHR '' '', CHR 0x09, CHR 0x0A, CHR 0x0B, CHR 0x0C, CHR 0x0D}"

definition c_isdigit :: "char \<Rightarrow> bool" where
  "c_isdigit c \<longleftrightarrow> of_char (CHR ''0'') \<le> (of_char c :: nat) \<and> (of_char c :: nat) \<le> of_char (CHR ''9'')"

definition digits_value :: "string \<Rightarrow> int" where
  "digits_value ds = foldl (\<lambda>v c. 10 * v + (of_char c - of_char (CHR ''0''))) 0 ds"

text \<open>\<^verbatim>\<open>fscanf\<close> with \<^verbatim>\<open>%d\<close>: white space, a sign, digits. The value is the integer written.\<close>

definition scan_d :: "string \<Rightarrow> int option" where
  "scan_d s =
    (let t = dropWhile c_isspace s;
         neg = (case t of c # _ \<Rightarrow> c = CHR ''-'' | [] \<Rightarrow> False);
         u = (case t of c # r \<Rightarrow> if c = CHR ''-'' \<or> c = CHR ''+'' then r else t | [] \<Rightarrow> []);
         ds = takeWhile c_isdigit u
     in if ds = [] then None else Some (if neg then - digits_value ds else digits_value ds))"

text \<open>\<^verbatim>\<open>fopen\<close> for reading fails without the file.\<close>

definition read_signal :: "libc \<Rightarrow> 'd hook \<Rightarrow> int \<times> 'd hook" where
  "read_signal L h =
    (case libc_call L h of
       (False, h) \<Rightarrow> (-1, h)
     | (True, h) \<Rightarrow> (case h_files h (h_ctrl_path h) of
         None \<Rightarrow> (-1, h)
       | Some c \<Rightarrow> (case scan_d c of None \<Rightarrow> (-1, h) | Some v \<Rightarrow> (v, h))))"

definition write_file_c :: "libc \<Rightarrow> string \<Rightarrow> string \<Rightarrow> 'd hook \<Rightarrow> 'd hook" where
  "write_file_c L p c h =
    (case libc_call L h of
       (False, h) \<Rightarrow> h
     | (True, h) \<Rightarrow> h\<lparr>h_files := (h_files h)(p \<mapsto> c)\<rparr>)"

definition write_signal :: "libc \<Rightarrow> int \<Rightarrow> 'd hook \<Rightarrow> 'd hook" where
  "write_signal L v h = write_file_c L (h_ctrl_path h) (fmt_d v) h"

text \<open>What \<^verbatim>\<open>intercepted-info\<close> counts: live entries and their bytes, in 64-bit arithmetic.\<close>

definition live_of :: "('a \<Rightarrow> bool) \<Rightarrow> ('a \<Rightarrow> size_t) \<Rightarrow> 'a list \<Rightarrow> nat \<times> size_t" where
  "live_of live size_of xs = (length (filter live xs), sum_list (map size_of (filter live xs)))"

definition newline :: string where "newline = [CHR 0x0A]"

definition info_text :: "int \<Rightarrow> 'd hook \<Rightarrow> string" where
  "info_text pid h =
    (case live_of al_live al_size (h_allocs h) of (live, bytes) \<Rightarrow>
     case live_of sg_live sg_size (h_seg h) of (vlive, vbytes) \<Rightarrow>
       ''# GCR intercepted (pid='' @ fmt_d pid @ '')'' @ newline @
       ''legacy_live_buffers='' @ fmt_d (int live) @ '' legacy_live_bytes='' @ fmt_d (uint bytes) @ newline @
       ''vmm_live_segments='' @ fmt_d (int vlive) @ '' vmm_live_bytes='' @ fmt_d (uint vbytes) @ newline)"

definition dump_intercepted_info :: "libc \<Rightarrow> int \<Rightarrow> 'd hook \<Rightarrow> 'd hook" where
  "dump_intercepted_info L pid h = write_file_c L (h_info_path h) (info_text pid h) h"

subsection \<open>The gate\<close>

text \<open>
  Whether a call of \<^verbatim>\<open>gcr_gate_wait\<close> returns: on the thread that remaps always, on an application
  thread when the gate is open. A call that does not return sleeps until the gate is opened.
\<close>

definition gcr_gate_wait :: "bool \<Rightarrow> 'd hook \<Rightarrow> bool" where
  "gcr_gate_wait remap_thread h \<longleftrightarrow> remap_thread \<or> \<not> h_gate h"

subsection \<open>The watcher\<close>

definition engaged :: "(string \<Rightarrow> string option) \<Rightarrow> 'd hook \<Rightarrow> bool" where
  "engaged getenv h \<longleftrightarrow> gcr_vmm_enabled getenv \<and> 0 < gcr_owned_count h"

definition serve_ckpt :: "'d cuda \<Rightarrow> libc \<Rightarrow> (string \<Rightarrow> string option) \<Rightarrow> int \<Rightarrow> 'd hook \<Rightarrow> 'd hook" where
  "serve_ckpt C L getenv pid h =
    (let h = (if engaged getenv h then checkpoint_freeze C L getenv h else h);
         h = dump_intercepted_info L pid h
     in write_signal L GCR_IDLE h)"

definition serve_restore :: "'d cuda \<Rightarrow> libc \<Rightarrow> (string \<Rightarrow> string option) \<Rightarrow> 'd hook \<Rightarrow> 'd hook" where
  "serve_restore C L getenv h =
    (let h = (if engaged getenv h
           then gcr_gate_set False (restore_remap C L getenv (write_signal L GCR_GATING (gcr_gate_set True h))) else h)
     in write_signal L GCR_IDLE h)"

text \<open>One turn of the loop; between two turns it sleeps 50 ms.\<close>

definition watch_step :: "'d cuda \<Rightarrow> libc \<Rightarrow> (string \<Rightarrow> string option) \<Rightarrow> int \<Rightarrow> 'd hook \<Rightarrow> 'd hook" where
  "watch_step C L getenv pid h =
    (case read_signal L h of
       (sig, h) \<Rightarrow>
         if sig = GCR_CKPT then serve_ckpt C L getenv pid h
         else if sig = GCR_RESTORE then serve_restore C L getenv h
         else h)"

text \<open>The constructor: the paths; the watcher starts with no signal served.\<close>

definition gcr_init :: "(string \<Rightarrow> string option) \<Rightarrow> 'd hook \<Rightarrow> 'd hook" where
  "gcr_init getenv h = build_paths getenv h"

end
