(* ===== verification/Hook_Sim.thy ===== *)
theory Hook_Sim
  imports Hook_Watch
begin

text \<open>
  A device on which the hypotheses of the interceptor's theorems hold: it queues transfers and does
  them when it is waited for, maps and unmaps address ranges, and hands out address ranges in
  increasing order. The witnesses run on it.
\<close>

text \<open>\<open>sd_back\<close> is, for each event, the number of transfers queued since it was recorded.\<close>

record sim_dev =
  sd_queue :: "dma list"
  sd_done :: nat
  sd_back :: "bool \<Rightarrow> nat"
  sd_ranges :: "(dptr \<times> size_t) list"
  sd_next :: dptr

definition sim_obs :: "sim_dev obs" where
  "sim_obs = \<lparr>ob_queue = sd_queue, ob_done = sd_done,
     ob_event = (\<lambda>d b. sd_done d + length (sd_queue d) - sd_back d b), ob_reserved = (\<lambda>d. set (sd_ranges d))\<rparr>"

definition ok_call :: "(int, sim_dev) cu" where
  "ok_call m d = (0, m, d)"

definition flush :: "(int, sim_dev) cu" where
  "flush m d = (0, run_dmas (sd_queue d) m, d\<lparr>sd_queue := [], sd_done := sd_done d + length (sd_queue d)\<rparr>)"

definition enqueue :: "dma \<Rightarrow> (int, sim_dev) cu" where
  "enqueue op m d = (0, m, d\<lparr>sd_queue := sd_queue d @ [op], sd_back := (\<lambda>b. Suc (sd_back d b))\<rparr>)"

definition below_next :: "sim_dev \<Rightarrow> dptr \<times> size_t \<Rightarrow> bool" where
  "below_next d = (\<lambda>(a, k). unat a + unat k \<le> unat (sd_next d))"

definition sim_reserve :: "size_t \<Rightarrow> (int \<times> dptr, sim_dev) cu" where
  "sim_reserve n m d =
    (if list_all (below_next d) (sd_ranges d) \<and> unat (sd_next d) + unat n < 2 ^ 64
     then ((0, sd_next d), m, d\<lparr>sd_ranges := (sd_next d, n) # sd_ranges d, sd_next := sd_next d + n\<rparr>)
     else ((2, 0), m, d))"

definition map_bytes :: "dptr \<Rightarrow> size_t \<Rightarrow> (char option \<Rightarrow> char option) \<Rightarrow> gpu_mem \<Rightarrow> gpu_mem" where
  "map_bytes va n f m = m\<lparr>m_dev := (\<lambda>x. if within va n x then f (m_dev m x) else m_dev m x)\<rparr>"

definition fill :: "char option \<Rightarrow> char option" where
  "fill b = (case b of None \<Rightarrow> Some (CHR 0x00) | Some c \<Rightarrow> Some c)"

definition sim :: "sim_dev cuda" where
  "sim = \<lparr>cu_has = (\<lambda>d p. True),
    cuMemGetAllocationGranularity = (\<lambda>p m d. ((0, 2097152), m, d)),
    cuMemAddressReserve = (\<lambda>n al va fl. sim_reserve n),
    cuMemCreate = (\<lambda>n p fl m d. ((0, 1), m, d)),
    cuMemMap = (\<lambda>va n off a fl. ok_call),
    cuMemSetAccess = (\<lambda>va n p m d. (0, map_bytes va n fill m, d)),
    cuMemUnmap = (\<lambda>va n m d. (0, map_bytes va n (\<lambda>b. None) m, d)),
    cuMemRelease = (\<lambda>a. ok_call),
    cuMemAddressFree = (\<lambda>va n m d. (0, m, d\<lparr>sd_ranges := filter (\<lambda>r. r \<noteq> (va, n)) (sd_ranges d)\<rparr>)),
    cudaGetDevice = (\<lambda>m d. ((0, 0), m, d)),
    cudaSetDevice = (\<lambda>n. ok_call),
    cudaDeviceSynchronize = flush,
    cudaMemcpy = (\<lambda>op m d. (0, run_dma op (run_dmas (sd_queue d) m), d\<lparr>sd_queue := [], sd_done := sd_done d + length (sd_queue d)\<rparr>)),
    cudaHostAlloc = (\<lambda>b n. ok_call),
    cudaMemcpyAsync = enqueue,
    cudaStreamCreate = (\<lambda>m d. ((0, True), m, d)),
    cudaStreamDestroy = ok_call,
    cudaStreamSynchronize = flush,
    cudaEventCreate = (\<lambda>b. ok_call),
    cudaEventDestroy = (\<lambda>b. ok_call),
    cudaEventRecord = (\<lambda>b m d. (0, m, d\<lparr>sd_back := (sd_back d)(b := 0)\<rparr>)),
    cudaEventSynchronize = (\<lambda>b. flush),
    real_malloc = (\<lambda>p n stream m d. ((2, 0), m, d)),
    real_free = (\<lambda>p a stream. ok_call)\<rparr>"

lemmas sim_defs = sim_def sim_obs_def ok_call_def flush_def enqueue_def map_bytes_def

subsection \<open>It is as documented\<close>

lemma sim_copy_docs: "copy_docs sim_obs sim"
proof -
  have none: "progress sim_obs q m d m d'" if "sd_queue d' = q" "sd_done d' = sd_done d" for q m d d'
    unfolding progress_def using that by (intro exI [of _ 0]) (simp add: sim_obs_def run_dmas_def)
  have all: "progress sim_obs (sd_queue d) m d (run_dmas (sd_queue d) m) (d\<lparr>sd_queue := [], sd_done := sd_done d + length (sd_queue d)\<rparr>)" for m d
    unfolding progress_def by (intro exI [of _ "length (sd_queue d)"]) (simp add: sim_obs_def)
  show ?thesis
    unfolding copy_docs_def using none all by (auto simp: sim_defs run_dmas_def)
qed

lemma sim_control_docs: "control_docs sim_obs sim"
  by (simp add: control_docs_def keeps_device_def sim_defs run_dmas_def)

lemma sim_vmm_docs: "vmm_docs sim_obs sim"
  by (auto simp: vmm_docs_def changes_within_def sim_defs fill_def split: option.splits)

lemma below_apart:
  fixes a k va n x :: "64 word"
  assumes "unat a + unat k \<le> unat va" and "unat va + unat n < 2 ^ 64"
  shows "\<not> (within a k x \<and> within va n x)"
proof
  assume w: "within a k x \<and> within va n x"
  have r: "unat b + unat (x - b) = unat x" if "unat b + unat j < 2 ^ 64" "within b j x" for b j :: "64 word"
  proof -
    have "unat (x - b) < unat j" using that(2) by (simp add: within_def word_less_nat_alt)
    then have "unat (b + (x - b)) = unat b + unat (x - b)" using that(1) by (subst unat_word_ariths(1)) simp
    then show ?thesis by simp
  qed
  have "unat x < unat va"
    using r [of a k] w assms by (auto simp: within_def word_less_nat_alt)
  moreover have "unat va \<le> unat x" using r [of va n] w assms by simp
  ultimately show False by simp
qed

lemma sim_reserve_docs: "reserve_docs sim_obs sim"
proof -
  have "\<not> (within a k x \<and> within (sd_next d) n x)"
    if "list_all (below_next d) (sd_ranges d)" "unat (sd_next d) + unat n < 2 ^ 64" "(a, k) \<in> set (sd_ranges d)" for a k x n d
    using that by (intro below_apart) (auto simp: list_all_iff below_next_def)
  then show ?thesis
    unfolding reserve_docs_def
    by (auto simp: keeps_device_def same_reserved_def sim_defs sim_reserve_def)
qed

lemma sim_ok: "device_ok sim_obs sim"
  unfolding device_ok_def cuda_docs_def
proof (intro conjI)
  show "copy_docs sim_obs sim" by (rule sim_copy_docs)
  show "control_docs sim_obs sim" by (rule sim_control_docs)
  show "vmm_docs sim_obs sim" by (rule sim_vmm_docs)
  show "reserve_docs sim_obs sim" by (rule sim_reserve_docs)
  show "copies_reserve_nothing sim_obs sim" by (simp add: copies_reserve_nothing_def same_reserved_def sim_defs)
  show "no_copy_errors sim" by (simp add: no_copy_errors_def succeeds_def sim_defs)
  show "no_vmm_errors sim" by (simp add: no_vmm_errors_def succeeds_def sim_defs)
  show "has_ptrs sim" by (simp add: has_ptrs_def sim_def)
qed

definition good_libc :: libc where
  "good_libc = \<lparr>lc_fails = (\<lambda>k. False), lc_order = rev\<rparr>"

lemma good_libc_ok: "libc_ok good_libc"
  by (simp add: libc_ok_def any_order_def no_libc_failures_def good_libc_def)

end
