(* ===== verification/Hook_Cycle.thy ===== *)
theory Hook_Cycle
  imports Hook_Watch
begin

text \<open>
  The watcher serving a checkpoint and a restore: what one turn of the loop does when libc does
  not fail, and the whole cycle from the checkpoint signal to the acknowledged restore.
\<close>

subsection \<open>One turn of the loop\<close>

definition ticked :: "'d hook \<Rightarrow> 'd hook" where
  "ticked h = h\<lparr>h_calls := Suc (h_calls h)\<rparr>"

lemma libc_call_ok: "no_libc_failures L \<Longrightarrow> libc_call L h = (True, ticked h)"
  by (simp add: libc_call_def no_libc_failures_def ticked_def)

lemma write_file_ok:
  "no_libc_failures L \<Longrightarrow> write_file_c L p c h = (ticked h)\<lparr>h_files := (h_files h)(p \<mapsto> c)\<rparr>"
  by (simp add: write_file_c_def libc_call_ok) (simp add: ticked_def)

lemma signal_texts:
  "scan_d (fmt_d GCR_CKPT) = Some GCR_CKPT" "scan_d (fmt_d GCR_RESTORE) = Some GCR_RESTORE" "scan_d (fmt_d GCR_IDLE) = Some GCR_IDLE"
  by code_simp+

lemma ticked_simps [simp]:
  "h_ctrl_path (ticked h) = h_ctrl_path h" "h_info_path (ticked h) = h_info_path h" "h_owned (ticked h) = h_owned h"
  "h_files (ticked h) = h_files h" "h_mem (ticked h) = h_mem h" "h_dev (ticked h) = h_dev h" "h_data_dir (ticked h) = h_data_dir h"
  "h_fault (ticked h) = h_fault h" "h_gate (ticked h) = h_gate h" "blob_path (ticked h) = blob_path h"
  "h_blob (ticked h) = h_blob h" "h_blob_fd (ticked h) = h_blob_fd h" "h_blob_size (ticked h) = h_blob_size h"
  "queue V (ticked h) = queue V h" "engaged getenv (ticked h) = engaged getenv h"
  by (simp_all add: ticked_def blob_path_def queue_def engaged_def gcr_owned_count_def)

lemma read_signal_ok:
  "no_libc_failures L \<Longrightarrow> h_files h (h_ctrl_path h) = Some (fmt_d v) \<Longrightarrow> scan_d (fmt_d v) = Some v \<Longrightarrow>
    read_signal L h = (v, ticked h)"
  by (simp add: read_signal_def libc_call_ok)

definition after_ckpt :: "int \<Rightarrow> 'd hook \<Rightarrow> 'd hook" where
  "after_ckpt pid h = h\<lparr>h_calls := h_calls h + 2,
     h_files := (h_files h)(h_info_path h \<mapsto> info_text pid h, h_ctrl_path h \<mapsto> fmt_d GCR_IDLE)\<rparr>"

lemma turn_ckpt:
  assumes "no_libc_failures L" and "engaged getenv h" and "h_files h (h_ctrl_path h) = Some (fmt_d GCR_CKPT)"
  shows "watch_step C L getenv pid h = after_ckpt pid (checkpoint_freeze C L getenv (ticked h))"
  using assms read_signal_ok [OF assms(1,3) signal_texts(1)]
  by (simp add: watch_step_def serve_ckpt_def after_ckpt_def write_signal_def dump_intercepted_info_def write_file_ok Let_def)
    (simp add: ticked_def)

definition before_remap :: "'d hook \<Rightarrow> 'd hook" where
  "before_remap h = (ticked (h\<lparr>h_gate := True\<rparr>))\<lparr>h_files := (h_files h)(h_ctrl_path h \<mapsto> fmt_d GCR_GATING)\<rparr>"

definition after_remap :: "'d hook \<Rightarrow> 'd hook" where
  "after_remap h = (ticked (h\<lparr>h_gate := False\<rparr>))\<lparr>h_files := (h_files h)(h_ctrl_path h \<mapsto> fmt_d GCR_IDLE)\<rparr>"

lemma turn_restore:
  assumes "no_libc_failures L" and "engaged getenv h" and "h_files h (h_ctrl_path h) = Some (fmt_d GCR_RESTORE)"
  shows "watch_step C L getenv pid h = after_remap (restore_remap C L getenv (before_remap (ticked h)))"
  using assms read_signal_ok [OF assms(1,3) signal_texts(2)]
  by (simp add: watch_step_def serve_restore_def GCR_CKPT_def GCR_RESTORE_def before_remap_def after_remap_def write_signal_def
      write_file_ok gcr_gate_set_def Let_def)

lemma ctl_file_simps [simp]:
  "h_files (after_ckpt pid h) (h_ctrl_path h) = Some (fmt_d GCR_IDLE)" "h_gate (after_ckpt pid h) = h_gate h"
  "h_owned (after_ckpt pid h) = h_owned h" "h_ctrl_path (after_ckpt pid h) = h_ctrl_path h"
  "h_info_path (after_ckpt pid h) = h_info_path h" "h_data_dir (after_ckpt pid h) = h_data_dir h"
  "blob_path (after_ckpt pid h) = blob_path h" "h_fault (after_ckpt pid h) = h_fault h" "h_dev (after_ckpt pid h) = h_dev h"
  "h_blob (after_ckpt pid h) = h_blob h" "h_blob_fd (after_ckpt pid h) = h_blob_fd h"
  "h_owned (before_remap h) = h_owned h" "h_ctrl_path (before_remap h) = h_ctrl_path h" "blob_path (before_remap h) = blob_path h"
  "h_data_dir (before_remap h) = h_data_dir h" "h_fault (before_remap h) = h_fault h" "h_blob (before_remap h) = h_blob h"
  "h_blob_fd (before_remap h) = h_blob_fd h" "h_dev (before_remap h) = h_dev h" "h_mem (before_remap h) = h_mem h"
  "h_files (after_remap h) (h_ctrl_path h) = Some (fmt_d GCR_IDLE)" "\<not> h_gate (after_remap h)"
  "h_owned (after_remap h) = h_owned h" "h_mem (after_remap h) = h_mem h" "h_fault (after_remap h) = h_fault h"
  by (simp_all add: after_ckpt_def before_remap_def after_remap_def blob_path_def)

subsection \<open>The cycle\<close>

definition names_apart :: "'d hook \<Rightarrow> bool" where
  "names_apart h \<longleftrightarrow> blob_path h \<noteq> h_ctrl_path h \<and> blob_path h \<noteq> h_info_path h"

lemma freeze_keeps_paths:
  assumes "h_data_dir h \<noteq> []"
  shows "h_ctrl_path (checkpoint_freeze C L getenv h) = h_ctrl_path h" "h_info_path (checkpoint_freeze C L getenv h) = h_info_path h"
    "h_data_dir (checkpoint_freeze C L getenv h) = h_data_dir h" "blob_path (checkpoint_freeze C L getenv h) = blob_path h"
  using paths.run_freeze [of h C L getenv] assms by (simp_all add: same_paths_def blob_path_def)

lemma remap_keeps_paths:
  assumes "h_data_dir h \<noteq> []"
  shows "h_ctrl_path (restore_remap C L getenv h) = h_ctrl_path h" "h_data_dir (restore_remap C L getenv h) = h_data_dir h"
    "blob_path (restore_remap C L getenv h) = blob_path h"
  using paths.run_remap [of h C L getenv] assms by (simp_all add: same_paths_def blob_path_def)

lemma served_ticked: "served V C h \<Longrightarrow> served V C (ticked h)"
  by (rule served.other) (simp_all add: same_engine_def)

lemma freeze_gate:
  assumes "can_freeze V C L h" "s \<in> set (h_owned h)" "ow_live s"
  shows "h_gate (checkpoint_freeze C L getenv h)" "h_owned (checkpoint_freeze C L getenv h) \<noteq> []"
proof -
  obtain ss need where as: "assign_offsets 0 (h_owned h) = (ss, need)" by fastforce
  have "segs_fit h" using assms(1) by (simp add: can_freeze_def)
  then have "ss \<noteq> []" using offsets_ok(1) [OF _ assms(2,3) as] assms(2) by auto
  then show "h_gate (checkpoint_freeze C L getenv h)" "h_owned (checkpoint_freeze C L getenv h) \<noteq> []"
    using freeze_ok [OF assms as, of getenv] by (metis, metis Nil_is_map_conv)
qed

lemma freeze_all_frozen:
  assumes "can_freeze V C L h" "s \<in> set (h_owned h)" "ow_live s"
  shows "\<exists>t \<in> set (h_owned (checkpoint_freeze C L getenv h)). ow_frozen t"
proof -
  obtain ss need where as: "assign_offsets 0 (h_owned h) = (ss, need)" by fastforce
  have so: "segs_fit h" using assms(1) by (simp add: can_freeze_def)
  obtain t where t: "t \<in> set ss" "placed s t" using list_all2_right [OF offsets_ok(1) [OF so assms(2,3) as] assms(2)] by blast
  have "selected Freeze t" using so assms(2,3) placedD [OF t(2)] by (auto simp: segs_fit_def segs_wf_def selected_def)
  then have "ow_frozen (freeze_seg t)" by (simp add: frozen_map)
  moreover have "h_owned (checkpoint_freeze C L getenv h) = map freeze_seg ss"
    by (rule freeze_ok [OF assms as, of getenv]) simp
  ultimately show ?thesis using t(1) by auto
qed

text \<open>
  Between the two turns the process is dumped and restored: its memory is what it was, its device
  is another, and the agent has written the restore signal.
\<close>

definition resumed :: "gpu_mem \<Rightarrow> 'd \<Rightarrow> 'd hook \<Rightarrow> 'd hook" where
  "resumed m d h = h\<lparr>h_mem := m, h_dev := d, h_files := (h_files h)(h_ctrl_path h \<mapsto> fmt_d GCR_RESTORE)\<rparr>"

lemma resumed_carried:
  assumes "names_apart h" "ob_queue V d = []"
  shows "carried V h (before_remap (ticked (resumed m d (after_ckpt pid h))))"
  using assms
  by (simp add: carried_def resumed_def names_apart_def queue_def ticked_def blob_path_def before_remap_def after_ckpt_def)

text \<open>C1: A whole checkpoint and restore keeps the GPU data. The interceptor serves a process on a
  device that works as documented; the agent writes the checkpoint signal, the watcher makes a
  turn, the process is dumped and restored onto a device of which only the address reservations
  are what they were, the restore signal is written and the watcher makes a turn. Then every
  byte of every live buffer is at its old address, the control file says idle after both turns,
  the gate is closed in between and open at the end, no access was out of bounds, and the
  process is again in a served state, so that the next cycle is covered too.\<close>

theorem checkpoint_cycle:
  assumes dev: "device_ok V C" and L: "libc_ok L" "libc_ok L'" and sv: "served V C h"
    and room: "blob_room (h_owned h) < 2 ^ 63" and on: "gcr_vmm_enabled getenv" and names: "names_apart h"
    and sig: "h_files h (h_ctrl_path h) = Some (fmt_d GCR_CKPT)" and s: "s \<in> set (h_owned h)" "ow_live s"
    and ckpt: "ckpt = watch_step C L getenv pid h"
    and d: "ob_queue V d = []" "ob_reserved V (h_dev ckpt) \<subseteq> ob_reserved V d"
    and rest: "rest = watch_step C L' getenv pid' (resumed m d ckpt)"
  shows "(i < unat (ow_req s) \<longrightarrow> m_dev (h_mem rest) (ow_va s + of_nat i) = m_dev (h_mem h) (ow_va s + of_nat i)) \<and>
    h_files ckpt (h_ctrl_path h) = Some (fmt_d GCR_IDLE) \<and> h_files rest (h_ctrl_path h) = Some (fmt_d GCR_IDLE) \<and>
    h_gate ckpt \<and> \<not> h_gate rest \<and> h_fault rest = h_fault h \<and> served V C rest"
proof -
  define hf where "hf = checkpoint_freeze C L getenv (ticked h)"
  define hr where "hr = before_remap (ticked (resumed m d (after_ckpt pid hf)))"
  have sv': "served V C (ticked h)" by (rule served_ticked [OF sv])
  have dd: "h_data_dir h \<noteq> []" using served_inv [OF dev sv] by (simp add: owned_inv_def)
  have nl: "no_libc_failures L" "no_libc_failures L'" using L by (simp_all add: libc_ok_def)
  have en: "engaged getenv h" using on s(1) by (cases "h_owned h") (auto simp: engaged_def gcr_owned_count_def)
  have e1: "ckpt = after_ckpt pid hf" by (simp add: ckpt hf_def turn_ckpt [OF nl(1) en sig])
  note kp = freeze_keeps_paths [of "ticked h" C L getenv, folded hf_def, simplified, OF dd]
  have cf: "can_freeze V C L (ticked h)" "can_remap V C L'"
    using served_can_freeze(1) [OF dev L(1) sv'] served_can_freeze(2) [OF dev L(2) sv'] room by simp_all
  have sig2: "h_files (resumed m d ckpt) (h_ctrl_path (resumed m d ckpt)) = Some (fmt_d GCR_RESTORE)" by (simp add: resumed_def)
  have ca: "carried V hf hr" unfolding hr_def using names d(1) kp by (intro resumed_carried) (simp_all add: names_apart_def)
  note fr = freeze_remap [OF cf _ s(2) ca [unfolded hf_def], where getenv' = getenv, unfolded ticked_simps, OF s(1)]
  have "h_owned hf \<noteq> []" unfolding hf_def by (rule freeze_gate(2) [OF cf(1) _ s(2)]) (simp add: s(1))
  then have en2: "engaged getenv (resumed m d ckpt)" using on by (simp add: resumed_def e1 engaged_def gcr_owned_count_def)
  have e2: "rest = after_remap (restore_remap C L' getenv hr)"
    unfolding rest turn_restore [OF nl(2) en2 sig2] by (simp add: e1 hr_def)
  have pr: "h_data_dir hr = h_data_dir h" "h_ctrl_path hr = h_ctrl_path h" "blob_path hr = blob_path h"
    using kp by (simp_all add: hr_def resumed_def blob_path_def)
  note kr = remap_keeps_paths [of hr C L' getenv, unfolded pr, OF dd]
  have "ob_reserved V (h_dev hf) \<subseteq> ob_reserved V (h_dev hr)"
    using d(2) by (simp add: e1 hr_def resumed_def)
  then have "served V C (restore_remap C L' getenv hr)"
    using served.cycle [OF sv' _ s(2) _ L] s room ca unfolding hf_def by simp
  then have "served V C rest" unfolding e2
    by (rule served.other) (use kr names in \<open>simp add: same_engine_def after_remap_def names_apart_def ticked_def blob_path_def\<close>)
  then show ?thesis
    using fr s freeze_gate [OF cf(1) _ s(2), of getenv] kp kr unfolding e1 e2
    by (simp add: hf_def) (metis ctl_file_simps)
qed

end
