(* ===== verification/Hook_Gate.thy ===== *)
theory Hook_Gate
  imports Hook_Watch
begin

text \<open>
  The restore gate over every run of the interceptor, whatever the driver, libc and the file
  system answer: launches are held as long as a buffer has no physical memory behind it.
\<close>

subsection \<open>Runs\<close>

text \<open>A call of the application into one of the interposed entry points.\<close>

inductive app_step :: "'d cuda \<Rightarrow> (string \<Rightarrow> string option) \<Rightarrow> 'd hook \<Rightarrow> 'd hook \<Rightarrow> bool"
  for C :: "'d cuda" and getenv :: "string \<Rightarrow> string option" where
  "app_step C getenv h (snd (cudaMalloc C getenv out n h))"
| "app_step C getenv h (snd (cudaFree C ptr h))"
| "app_step C getenv h (snd (cuMemAlloc_v2 C out n h))"
| "app_step C getenv h (snd (cuMemFree_v2 C ptr h))"
| "app_step C getenv h (snd (cudaMallocAsync C out n stream h))"
| "app_step C getenv h (snd (cudaFreeAsync C ptr stream h))"
| "app_step C getenv h (snd (hook_cuMemCreate C out n pr fl h))"
| "app_step C getenv h (snd (hook_cuMemMap C va n off a fl h))"
| "app_step C getenv h (snd (hook_cuMemUnmap C va n h))"
| "app_step C getenv h (snd (hook_cuMemRelease C a h))"
| "app_step C getenv h (snd (hook_cuMemAddressReserve C n al va fl h))"
| "app_step C getenv h (snd (hook_cuMemAddressFree C va n h))"

text \<open>
  A run: the constructor, then calls of the application, turns of the watcher, and anything
  outside the process, a dump and restore included.
\<close>

inductive runs :: "'d cuda \<Rightarrow> (string \<Rightarrow> string option) \<Rightarrow> 'd hook \<Rightarrow> bool"
  for C :: "'d cuda" and getenv :: "string \<Rightarrow> string option" where
  load: "h_owned h = [] \<Longrightarrow> runs C getenv (gcr_init getenv h)"
| app: "runs C getenv h \<Longrightarrow> app_step C getenv h h' \<Longrightarrow> runs C getenv h'"
| turn: "runs C getenv h \<Longrightarrow> runs C getenv (watch_step C L getenv pid h)"
| outside: "runs C getenv h \<Longrightarrow> runs C getenv (h\<lparr>h_mem := m, h_dev := d, h_files := f\<rparr>)"

inductive_cases app_stepE: "app_step C getenv h h'"

subsection \<open>The invariant\<close>

definition some_frozen :: "'d hook \<Rightarrow> bool" where
  "some_frozen h \<longleftrightarrow> (\<exists>s \<in> set (h_owned h). ow_frozen s)"

definition gate_inv :: "'d hook \<Rightarrow> bool" where
  "gate_inv h \<longleftrightarrow>
    (some_frozen h \<longrightarrow> h_gate h \<and> looked_up h ''rt_memcpy'') \<and>
    (h_owned h \<noteq> [] \<longrightarrow> looked_up h ''r_cuMemCreate'' \<and> looked_up h ''r_cuMemMap'' \<and> looked_up h ''r_cuMemSetAccess'')"

lemmas gate_ptrs = stage_ptrs_def keeps_pointers_def

lemma gate_inv_same:
  assumes "gate_inv h" "h_owned h' = h_owned h" "h_gate h' = h_gate h" "keeps_pointers h h'"
  shows "gate_inv h'"
  using assms by (simp add: gate_inv_def some_frozen_def gate_ptrs)

subsection \<open>Calls of the application\<close>

definition app_frame :: "'d hook \<Rightarrow> 'd hook \<Rightarrow> bool" where
  "app_frame h h' \<longleftrightarrow> h_owned h' = h_owned h \<and> h_gate h' = h_gate h \<and> keeps_pointers h h'"

lemma app_frame_simps [simp]:
  "app_frame h h" "app_frame h (snd (gpu_call f h'')) = app_frame h h''" "app_frame h (reg_add p n h'') = app_frame h h''"
  "app_frame h (reg_del p h'') = app_frame h h''" "app_frame h (vmm_phys_add a n pr h'') = app_frame h h''"
  "app_frame h (vmm_seg_add va n off a h'') = app_frame h h''" "app_frame h (vmm_seg_del va h'') = app_frame h h''"
  "app_frame h (vmm_phys_del a h'') = app_frame h h''"
  by (simp_all add: app_frame_def keeps_pointers_def gpu_call_def reg_add_def reg_del_def vmm_phys_add_def vmm_seg_add_def
      vmm_seg_del_def vmm_phys_del_def split: prod.split)

lemma app_frame_call: "app_frame h h'' \<Longrightarrow> app_frame h (snd (call_ptr p dflt f h''))" "app_frame h h'' \<Longrightarrow> app_frame h (call_opt p f h'')"
  by (simp_all add: call_ptr_def call_opt_def) (simp add: app_frame_def keeps_pointers_def)

lemma app_frame_resolve: "app_frame h h'' \<Longrightarrow> app_frame h (resolve C ps h'')"
  by (auto simp: app_frame_def keeps_pointers_def resolve_def)

lemma app_frame_inv: "gate_inv h \<Longrightarrow> app_frame h h' \<Longrightarrow> gate_inv h'"
  by (rule gate_inv_same [of h]) (simp_all add: app_frame_def)

lemma real_frame:
  "app_frame h (snd (real_alloc C p out n stream h))" "app_frame h (snd (real_dealloc C p ptr stream h))"
proof -
  obtain rc ptr' h' where c: "call_ptr p (1, 0) (real_malloc C p n stream) (resolve C [p] h) = ((rc, ptr'), h')" by (metis prod.collapse)
  have "app_frame h h'" using app_frame_call(1) [OF app_frame_resolve, of h h p "(1, 0)" "real_malloc C p n stream" C "[p]"] c by simp
  then show "app_frame h (snd (real_alloc C p out n stream h))" by (simp add: real_alloc_def c)
  show "app_frame h (snd (real_dealloc C p ptr stream h))"
    unfolding real_dealloc_def by (intro app_frame_call) (simp add: app_frame_resolve)
qed

lemma app_frame_trans: "app_frame h1 h2 \<Longrightarrow> app_frame h2 h3 \<Longrightarrow> app_frame h1 h3"
  by (simp add: app_frame_def keeps_pointers_def)

lemma app_frame_gpu: "gpu_call f h = (r, h') \<Longrightarrow> app_frame h h'"
  using app_frame_simps(2) [of h f h] by simp

lemma map_range_frame:
  "\<exists>g. app_frame h g \<and> (snd (map_range C n padded a prop dev h) = g \<or> (\<exists>va. snd (map_range C n padded a prop dev h) = own va padded n a prop g))"
proof -
  obtain rc1 va h1 where 1: "gpu_call (cuMemAddressReserve C padded 0 0 0) h = ((rc1, va), h1)" by (metis prod.collapse)
  obtain rc2 h2 where 2: "gpu_call (cuMemMap C va padded 0 a 0) h1 = (rc2, h2)" by fastforce
  obtain rc3 h3 where 3: "gpu_call (cuMemSetAccess C va padded (rw_access dev)) h2 = (rc3, h3)" by fastforce
  have f1: "app_frame h h1" by (rule app_frame_gpu [OF 1])
  have f2: "app_frame h h2" by (rule app_frame_trans [OF f1 app_frame_gpu [OF 2]])
  have f3: "app_frame h h3" by (rule app_frame_trans [OF f2 app_frame_gpu [OF 3]])
  show ?thesis
  proof (cases "rc1 = 0 \<and> rc2 = 0 \<and> rc3 = 0")
    case True
    then show ?thesis using f3 by (auto simp: map_range_def 1 2 3)
  next
    case False
    then have "app_frame h (snd (map_range C n padded a prop dev h))"
      by (auto simp: map_range_def 1 2 3 intro!: app_frame_call(1) f1 f2 f3)
    then show ?thesis by blast
  qed
qed

lemma map_range_Some:
  assumes "map_range C n padded a prop dev h = (Some va, h')"
  shows "\<exists>g. app_frame h g \<and> h' = own va padded n a prop g"
proof -
  obtain rc1 va1 h1 where 1: "gpu_call (cuMemAddressReserve C padded 0 0 0) h = ((rc1, va1), h1)" by (metis prod.collapse)
  obtain rc2 h2 where 2: "gpu_call (cuMemMap C va1 padded 0 a 0) h1 = (rc2, h2)" by fastforce
  obtain rc3 h3 where 3: "gpu_call (cuMemSetAccess C va1 padded (rw_access dev)) h2 = (rc3, h3)" by fastforce
  have "app_frame h h3" using app_frame_gpu [OF 1] app_frame_gpu [OF 2] app_frame_gpu [OF 3] app_frame_trans by blast
  then show ?thesis using assms by (auto simp: map_range_def 1 2 3 split: if_splits)
qed

lemma own_gate:
  assumes "gate_inv g" "looked_up g ''r_cuMemCreate''" "looked_up g ''r_cuMemMap''" "looked_up g ''r_cuMemSetAccess''"
  shows "gate_inv (own va padded n a prop g)"
  using assms by (auto simp: own_def gate_inv_def some_frozen_def)

lemma vmm_alloc_gate:
  assumes "gate_inv h"
  shows "gate_inv (snd (gcr_vmm_alloc C n h))"
proof -
  define h0 where "h0 = resolve_vmm_real C h"
  obtain dev h1 where 1: "current_device C h0 = (dev, h1)" by fastforce
  obtain rg gran0 h2 where 2: "gpu_call (cuMemGetAllocationGranularity C (device_prop dev)) h1 = ((rg, gran0), h2)" by (metis prod.collapse)
  obtain rc a h3 where 3: "gpu_call (cuMemCreate C (padded_size n (granule gran0)) (Some (device_prop dev)) 0) h2 = ((rc, a), h3)"
    by (metis prod.collapse)
  have f0: "app_frame h h0" by (simp add: h0_def resolve_vmm_real_def app_frame_resolve)
  have "app_frame h0 h1"
    using 1 app_frame_gpu [of "cudaGetDevice C" h0] by (auto simp: current_device_def split: if_splits prod.splits)
  then have f3: "app_frame h0 h3" using app_frame_gpu [OF 2] app_frame_gpu [OF 3] app_frame_trans by blast
  have i0: "gate_inv h0" "gate_inv h3" using app_frame_inv assms f0 f3 app_frame_trans by blast+
  show ?thesis
  proof (cases "looked_up h0 ''r_cuMemCreate'' \<and> looked_up h0 ''r_cuMemMap'' \<and> looked_up h0 ''r_cuMemSetAccess''")
    case False
    then show ?thesis using i0 by (auto simp: gcr_vmm_alloc_def h0_def [symmetric] Let_def)
  next
    case True
    obtain g where g: "app_frame h3 g" "snd (map_range C n (padded_size n (granule gran0)) a (device_prop dev) dev h3) = g \<or>
      (\<exists>va. snd (map_range C n (padded_size n (granule gran0)) a (device_prop dev) dev h3) = own va (padded_size n (granule gran0)) n a (device_prop dev) g)"
      using map_range_frame by blast
    have "gate_inv g" using app_frame_inv i0(2) g(1) by blast
    moreover have "looked_up g ''r_cuMemCreate''" "looked_up g ''r_cuMemMap''" "looked_up g ''r_cuMemSetAccess''"
      using True app_frame_trans [OF f3 g(1)] by (simp_all add: app_frame_def gate_ptrs)
    ultimately have "gate_inv (snd (map_range C n (padded_size n (granule gran0)) a (device_prop dev) dev h3))"
      using g(2) own_gate by metis
    then show ?thesis using i0 by (simp add: gcr_vmm_alloc_def h0_def [symmetric] Let_def 1 2 3)
  qed
qed

lemma update_first_frozen:
  "(\<exists>s \<in> set (update_first P (ow_live_update f) ss). ow_frozen s) = (\<exists>s \<in> set ss. ow_frozen s)"
  "update_first P g ss = [] \<longleftrightarrow> ss = []"
  by (induction ss) auto

lemma vmm_free_gate:
  assumes "gate_inv h"
  shows "gate_inv (snd (gcr_vmm_free C va h))"
proof (cases "find (\<lambda>s. ow_live s \<and> ow_va s = va) (h_owned h)")
  case None
  then show ?thesis using assms by (simp add: gcr_vmm_free_def)
next
  case (Some s)
  define g where "g = call_opt ''r_cuMemAddressFree2'' (cuMemAddressFree C (ow_va s) (ow_padded s))
    (call_opt ''r_cuMemRelease2'' (cuMemRelease C (ow_handle s)) (call_opt ''r_cuMemUnmap2'' (cuMemUnmap C (ow_va s) (ow_padded s)) h))"
  have "gate_inv g" by (rule app_frame_inv [OF assms]) (simp add: g_def app_frame_call(2))
  then show ?thesis
    by (simp add: gcr_vmm_free_def Some Let_def g_def [symmetric] gate_inv_def some_frozen_def update_first_frozen)
qed

lemma app_step_gate: "app_step C getenv h h' \<Longrightarrow> gate_inv h \<Longrightarrow> gate_inv h'"
proof (induction rule: app_step.induct)
  case (1 h out n)
  obtain r h1 where a: "gcr_vmm_alloc C n h = (r, h1)" by fastforce
  have "gate_inv h1" using vmm_alloc_gate [OF "1.prems", of C n] a by simp
  then show ?case
    using app_frame_inv [OF _ real_frame(1)] "1.prems" a by (auto simp: cudaMalloc_def split: option.split)
next
  case (2 h ptr)
  obtain r h1 where a: "gcr_vmm_free C ptr h = (r, h1)" by fastforce
  have "gate_inv h1" using vmm_free_gate [OF "2.prems", of C ptr] a by simp
  then show ?case
    using app_frame_inv [OF _ real_frame(2)] "2.prems" a by (auto simp: cudaFree_def split: bool.split)
next
  case (7 h out n pr fl)
  obtain rc a h1 where c: "call_ptr ''real_cuMemCreate'' (1, 0) (cuMemCreate C n pr fl) (resolve C [''real_cuMemCreate''] h) = ((rc, a), h1)"
    by (metis prod.collapse)
  have "app_frame h h1" using c app_frame_call(1) [OF app_frame_resolve, of h h] by (metis app_frame_simps(1) snd_conv)
  then show ?case using app_frame_inv [OF "7.prems"] by (simp add: hook_cuMemCreate_def c)
next
  case (8 h va n off a fl)
  obtain rc h1 where c: "call_ptr ''real_cuMemMap'' 1 (cuMemMap C va n off a fl) (resolve C [''real_cuMemMap''] h) = (rc, h1)" by fastforce
  have "app_frame h h1" using c app_frame_call(1) [OF app_frame_resolve, of h h] by (metis app_frame_simps(1) snd_conv)
  then show ?case using app_frame_inv [OF "8.prems"] by (simp add: hook_cuMemMap_def c)
qed (auto simp: cuMemAlloc_v2_def cuMemFree_v2_def cudaMallocAsync_def cudaFreeAsync_def hook_cuMemUnmap_def hook_cuMemRelease_def
  hook_cuMemAddressReserve_def hook_cuMemAddressFree_def elim!: app_frame_inv
  intro!: real_frame app_frame_call app_frame_resolve)

subsection \<open>Turns of the watcher\<close>

lemma stage_init_frame: "h_owned (gcr_stage_init C L h) = h_owned h" "h_gate (gcr_stage_init C L h) = h_gate h"
proof -
  define h1 where "h1 = reassign C stage_ptrs (resolve C [''rt_hostalloc'', ''rt_hostfree''] h)"
  obtain ok h2 where p: "pinned_stage C h1 = (ok, h2)" by fastforce
  have "h_owned h2 = h_owned h1 \<and> h_gate h2 = h_gate h1"
    using p by (auto simp: pinned_stage_def gpu_call_def split: if_splits prod.splits)
  then show "h_owned (gcr_stage_init C L h) = h_owned h" "h_gate (gcr_stage_init C L h) = h_gate h"
    using p by (cases ok; simp add: gcr_stage_init_def h1_def [symmetric] Let_def libc_call_def; simp add: h1_def reassign_def resolve_def)+
qed

lemma engine_init_frame: "h_owned (engine_init C L h) = h_owned h" "h_gate (engine_init C L h) = h_gate h"
  by (simp_all add: engine_init_def stage_init_frame resolve_vmm_real_def resolve_rt_copy_def resolve_def)

lemma call_opt_frame: "h_owned (call_opt p f h) = h_owned h" "h_gate (call_opt p f h) = h_gate h"
  by (simp_all add: call_opt_def gpu_call_def split: prod.split)

lemma freeze_prep_frame: "h_owned (freeze_prep C L h) = h_owned h" "h_gate (freeze_prep C L h)"
  by (simp_all add: freeze_prep_def Let_def call_opt_frame gcr_gate_set_def engine_init_frame)

lemma blob_map_frame: "blob_map L getenv need h = (ok, h') \<Longrightarrow> h_owned h' = h_owned h \<and> h_gate h' = h_gate h"
proof -
  assume m: "blob_map L getenv need h = (ok, h')"
  define h1 where "h1 = (if h_data_dir h = [] then build_paths getenv h else h)"
  have "h_owned h1 = h_owned h" "h_gate h1 = h_gate h" by (simp_all add: h1_def build_paths_def Let_def)
  then show ?thesis
    using m unfolding blob_map_def h1_def [symmetric] Let_def by (auto simp: libc_call_def split: if_splits bool.splits)
qed

lemma assign_offsets_length: "assign_offsets n ss = (ss', n') \<Longrightarrow> length ss' = length ss"
  by (induction n ss arbitrary: ss' n' rule: assign_offsets.induct) (auto split: if_splits prod.splits)

lemma freeze_close_frame:
  "h_gate (freeze_close C h) = h_gate h" "h_owned (freeze_close C h) = [] \<longleftrightarrow> h_owned h = []"
proof -
  obtain ss h' where r: "release_segs C (h_owned h) h = (ss, h')" by fastforce
  note e = release_segs_eq [OF r]
  have "h_gate h' = h_gate h" using e by (metis set_gpu_keeps(4))
  then show "h_gate (freeze_close C h) = h_gate h" "h_owned (freeze_close C h) = [] \<longleftrightarrow> h_owned h = []"
    using e by (simp_all add: freeze_close_def r)
qed

lemma freeze_cases:
  shows "freeze_missing (engine_init C L h) \<and> checkpoint_freeze C L getenv h = engine_init C L h \<or>
    looked_up (engine_init C L h) ''rt_memcpy'' \<and> h_gate (checkpoint_freeze C L getenv h)"
    and "h_owned (checkpoint_freeze C L getenv h) = [] \<longleftrightarrow> h_owned h = []"
proof -
  obtain ss need where a: "assign_offsets 0 (h_owned h) = (ss, need)" by fastforce
  obtain ok h3 where m: "blob_map L getenv need ((freeze_prep C L h)\<lparr>h_owned := ss\<rparr>) = (ok, h3)" by fastforce
  have l: "ss = [] \<longleftrightarrow> h_owned h = []" using assign_offsets_length [OF a] by (metis length_0_conv)
  have c: "h_gate h3" "h_owned h3 = ss" using blob_map_frame [OF m] by (simp_all add: freeze_prep_frame)
  have "same_ctl h3 (copy_out C L h3)" by (rule ctl.kept_copies)
  then have f: "h_gate (freeze_close C (copy_out C L h3))" "h_owned (freeze_close C (copy_out C L h3)) = [] \<longleftrightarrow> h_owned h = []"
    using c l by (simp_all add: freeze_close_frame same_ctl_def)
  show "freeze_missing (engine_init C L h) \<and> checkpoint_freeze C L getenv h = engine_init C L h \<or>
    looked_up (engine_init C L h) ''rt_memcpy'' \<and> h_gate (checkpoint_freeze C L getenv h)"
    using f c by (cases ok) (auto simp: checkpoint_freeze_eq a m freeze_prep_frame freeze_missing_def)
  show "h_owned (checkpoint_freeze C L getenv h) = [] \<longleftrightarrow> h_owned h = []"
    using f c l by (cases ok) (auto simp: checkpoint_freeze_eq freeze_prep_frame a m engine_init_frame)
qed

lemma freeze_gate_inv: "gate_inv h \<Longrightarrow> gate_inv (checkpoint_freeze C L getenv h)"
proof -
  assume g: "gate_inv h"
  have kp: "keeps_pointers h (engine_init C L h)" "keeps_pointers (engine_init C L h) (checkpoint_freeze C L getenv h)"
    "keeps_pointers h (checkpoint_freeze C L getenv h)"
    by (rule pointers.run_init pointers.run_freeze_init pointers.run_freeze)+
  from freeze_cases(1) [of C L h getenv] show ?thesis
  proof
    assume "freeze_missing (engine_init C L h) \<and> checkpoint_freeze C L getenv h = engine_init C L h"
    then show ?thesis using gate_inv_same [OF g engine_init_frame kp(1)] by simp
  next
    assume "looked_up (engine_init C L h) ''rt_memcpy'' \<and> h_gate (checkpoint_freeze C L getenv h)"
    moreover have "''rt_memcpy'' \<notin> set stage_ptrs" "''r_cuMemCreate'' \<notin> set stage_ptrs" "''r_cuMemMap'' \<notin> set stage_ptrs"
      "''r_cuMemSetAccess'' \<notin> set stage_ptrs" by (simp_all add: stage_ptrs_def)
    ultimately show ?thesis
      using g kp freeze_cases(2) [of C L getenv h] unfolding gate_inv_def keeps_pointers_def by blast
  qed
qed

lemma remap_segs_length: "remap_segs C ss h = (ss', h') \<Longrightarrow> length ss' = length ss"
  by (induction ss arbitrary: h ss' h') (auto simp: Let_def split: if_splits prod.splits)

lemma remap_thaws:
  assumes g: "gate_inv h"
  shows "\<not> some_frozen (restore_remap C L getenv h)" and "h_owned (restore_remap C L getenv h) = [] \<longleftrightarrow> h_owned h = []"
proof -
  define h1 where "h1 = resolve_vmm_real C (resolve_rt_copy C (h\<lparr>h_in_remap := True\<rparr>))"
  have k1: "keeps_pointers h h1" "h_owned h1 = h_owned h"
    by (auto simp: h1_def keeps_pointers_def resolve_vmm_real_def resolve_rt_copy_def resolve_def)
  define h3 where "h3 = remap_prep C L getenv h1"
  have "same_ctl h3 (copy_back C L h3)" by (rule ctl.kept_copies)
  then have own: "h_owned (remap_close C (copy_back C L h3)) = map unfreeze (h_owned h3)"
    by (simp add: remap_close_def Let_def call_opt_frame same_ctl_def)
  have len: "h_owned h3 = [] \<longleftrightarrow> h_owned h = []"
  proof -
    define g1 where "g1 = gcr_stage_init C L h1"
    define g2 where "g2 = (if \<not> h_blob g1 \<and> blob_need (h_owned g1) \<noteq> 0 then snd (blob_map L getenv (blob_need (h_owned g1)) g1) else g1)"
    define g3 where "g3 = call_opt ''rt_setdev'' (cudaSetDevice C 0) g2"
    obtain ss g4 where r: "remap_segs C (h_owned g3) g3 = (ss, g4)" by fastforce
    have "h_owned g2 = h_owned g1"
      using blob_map_frame [of L getenv "blob_need (h_owned g1)" g1] by (simp add: g2_def prod_eq_iff)
    then have "h_owned g3 = h_owned h" by (simp add: g3_def call_opt_frame g1_def stage_init_frame k1)
    moreover have "h_owned h3 = ss"
      by (simp add: h3_def remap_prep_def Let_def g1_def [symmetric] g2_def [symmetric] g3_def [symmetric] r)
    ultimately show ?thesis using remap_segs_length [OF r] by (metis length_0_conv)
  qed
  have eq: "restore_remap C L getenv h = (if remap_missing h1 then h1 else remap_close C (copy_back C L h3))"
    by (simp add: restore_remap_eq Let_def h1_def [symmetric] h3_def)
  have "\<not> remap_missing h1" if f: "some_frozen h"
  proof -
    have "h_owned h \<noteq> []" using f by (auto simp: some_frozen_def)
    then show ?thesis using g f k1(1) by (simp add: gate_inv_def remap_missing_def gate_ptrs)
  qed
  then show "\<not> some_frozen (restore_remap C L getenv h)"
    using k1(2) by (auto simp: eq own some_frozen_def unfreeze_def)
  show "h_owned (restore_remap C L getenv h) = [] \<longleftrightarrow> h_owned h = []" using k1(2) len by (simp add: eq own)
qed

definition ctl_frame :: "'d hook \<Rightarrow> 'd hook \<Rightarrow> bool" where
  "ctl_frame h h' \<longleftrightarrow> h_owned h' = h_owned h \<and> h_gate h' = h_gate h \<and> h_ptrs h' = h_ptrs h"

lemma ctl_frame_inv: "ctl_frame h h' \<Longrightarrow> gate_inv h' = gate_inv h"
  by (simp add: ctl_frame_def gate_inv_def some_frozen_def)

lemma write_file_frame: "ctl_frame h (write_file_c L p c h)"
  by (simp add: ctl_frame_def write_file_c_def libc_call_def split: bool.split)

lemma read_signal_frame: "read_signal L h = (v, h') \<Longrightarrow> ctl_frame h h'"
  by (auto simp: read_signal_def libc_call_def ctl_frame_def split: bool.splits option.splits)

lemma serve_ckpt_gate: "gate_inv h \<Longrightarrow> gate_inv (serve_ckpt C L getenv pid h)"
  by (simp add: serve_ckpt_def Let_def write_signal_def dump_intercepted_info_def ctl_frame_inv [OF write_file_frame] freeze_gate_inv)

lemma serve_restore_gate:
  assumes "gate_inv h"
  shows "gate_inv (serve_restore C L getenv h)"
proof (cases "engaged getenv h")
  case False
  then show ?thesis
    using assms by (simp add: serve_restore_def write_signal_def ctl_frame_inv [OF write_file_frame])
next
  case True
  define h1 where "h1 = write_signal L GCR_GATING (gcr_gate_set True h)"
  have "gate_inv (gcr_gate_set True h)" using assms by (auto simp: gate_inv_def some_frozen_def gcr_gate_set_def)
  then have g1: "gate_inv h1" unfolding h1_def write_signal_def by (simp only: ctl_frame_inv [OF write_file_frame])
  have kp: "keeps_pointers h1 (restore_remap C L getenv h1)" by (rule pointers.run_remap)
  have "gate_inv (gcr_gate_set False (restore_remap C L getenv h1))"
    using remap_thaws [OF g1, of C L getenv] g1 kp
    by (simp add: gate_inv_def some_frozen_def gcr_gate_set_def gate_ptrs)
  then show ?thesis
    using True by (simp add: serve_restore_def h1_def [symmetric] write_signal_def [of L GCR_IDLE]
        ctl_frame_inv [OF write_file_frame] Let_def)
qed

lemma turn_gate: "gate_inv h \<Longrightarrow> gate_inv (watch_step C L getenv pid h)"
proof -
  assume g: "gate_inv h"
  obtain v h1 where r: "read_signal L h = (v, h1)" by fastforce
  have "gate_inv h1" using g ctl_frame_inv [OF read_signal_frame [OF r]] by simp
  then show ?thesis by (simp add: watch_step_def r serve_ckpt_gate serve_restore_gate)
qed

lemma runs_gate: "runs C getenv h \<Longrightarrow> gate_inv h"
proof (induction rule: runs.induct)
  case (load h)
  then show ?case by (simp add: gate_inv_def some_frozen_def gcr_init_def build_paths_def Let_def)
next
  case (app h h')
  then show ?case using app_step_gate by blast
next
  case (turn h L pid)
  then show ?case using turn_gate by blast
next
  case (outside h m d f)
  then show ?case by (simp add: gate_inv_def some_frozen_def)
qed

subsection \<open>Launches are held while buffers are frozen\<close>


end
