(* ===== verification/Hook_Example.thy ===== *)
theory Hook_Example
  imports Hook_Sim Hook_Cycle Hook_Gate
begin

text \<open>
  A process with one buffer on the simulated device, from the constructor to the checkpoint
  signal: the concrete input of the witnesses for the interceptor.
\<close>

definition ex_env :: "string \<Rightarrow> string option" where
  "ex_env = [''GCR_VMM_ALLOC'' \<mapsto> ''1'', ''GCR_CONTROL_DIR'' \<mapsto> ''/var/lib/gpu-cr/run'', ''GCR_DATA_DIR'' \<mapsto> ''/var/lib/gcr-data'', ''GCR_POD_UID'' \<mapsto> ''u1'']"

definition no_mem :: gpu_mem where
  "no_mem = \<lparr>m_dev = (\<lambda>x. None), m_stage = (\<lambda>b i. CHR 0x00)\<rparr>"

definition fresh_dev :: sim_dev where
  "fresh_dev = \<lparr>sd_queue = [], sd_done = 0, sd_back = (\<lambda>b. 0), sd_ranges = [], sd_next = 2097152\<rparr>"

definition fresh :: "sim_dev hook" where
  "fresh = \<lparr>h_ctrl_path = [], h_info_path = [], h_data_dir = [], h_allocs = [], h_phys = [], h_seg = [], h_owned = [],
    h_gate = False, h_in_remap = False, h_ptrs = [], h_stageA = False, h_stageB = False, h_blob = False, h_blob_size = 0,
    h_blob_fd = False, h_files = (\<lambda>p. None), h_calls = 0, h_fault = False, h_mem = no_mem, h_dev = fresh_dev\<rparr>"

definition ex_start :: "sim_dev hook" where "ex_start = gcr_init ex_env fresh"

definition ex_alloc :: "sim_dev hook" where "ex_alloc = snd (gcr_vmm_alloc sim 5 ex_start)"

text \<open>The application fills what it can reach with the letter A; then the agent asks for a checkpoint.\<close>

definition letters :: gpu_mem where
  "letters = (h_mem ex_alloc)\<lparr>m_dev := (\<lambda>x. map_option (\<lambda>c. CHR ''A'') (m_dev (h_mem ex_alloc) x))\<rparr>"

definition ex_ask :: "sim_dev hook" where
  "ex_ask = ex_alloc\<lparr>h_mem := letters, h_files := (\<lambda>p. None)(h_ctrl_path ex_alloc \<mapsto> fmt_d GCR_CKPT)\<rparr>"

definition ex_seg :: owned where
  "ex_seg = \<lparr>ow_va = 2097152, ow_padded = 2097152, ow_req = 5, ow_handle = 1, ow_prop = device_prop 0, ow_live = True,
     ow_blob_off = 0, ow_frozen = False\<rparr>"

lemma ex_start_simps:
  "h_ctrl_path ex_start = ''/var/lib/gpu-cr/run/u1/control''" "h_info_path ex_start = ''/var/lib/gpu-cr/run/u1/intercepted-info''"
  "h_data_dir ex_start = ''/var/lib/gcr-data/u1''" "h_owned ex_start = []" "h_blob ex_start = False" "h_blob_fd ex_start = False"
  "h_mem ex_start = no_mem" "h_dev ex_start = fresh_dev" "h_ptrs ex_start = []" "h_files ex_start = (\<lambda>p. None)"
  by (simp_all add: ex_start_def gcr_init_def build_paths_def fresh_def env_or_def ex_env_def snprintf1024_def Let_def)

lemma ex_padded: "padded_size 5 (granule 2097152) = 2097152"
  by code_simp

lemma ex_ptrs: "resolve_vmm_real sim ex_start = ex_start\<lparr>h_ptrs := vmm_ptrs\<rparr>"
  by (simp add: resolve_vmm_real_def resolve_def sim_def ex_start_simps)

lemma ex_alloc_eq:
  "gcr_vmm_alloc sim 5 ex_start = (Some 2097152, ex_start\<lparr>h_ptrs := vmm_ptrs, h_mem := map_bytes 2097152 2097152 fill no_mem,
     h_dev := fresh_dev\<lparr>sd_ranges := [(2097152, 2097152)], sd_next := 4194304\<rparr>, h_owned := [ex_seg]\<rparr>)"
  unfolding gcr_vmm_alloc_def ex_ptrs
  by (simp add: vmm_ptrs_def Let_def current_device_def sim_def gpu_call_def ex_padded map_range_def sim_reserve_def ok_call_def
      ex_start_simps fresh_dev_def own_def GCR_MAX_VMM_def ex_seg_def)

lemma ex_ask_simps:
  "h_owned ex_ask = [ex_seg]" "h_ctrl_path ex_ask = ''/var/lib/gpu-cr/run/u1/control''" "h_info_path ex_ask = ''/var/lib/gpu-cr/run/u1/intercepted-info''"
  "h_data_dir ex_ask = ''/var/lib/gcr-data/u1''" "h_files ex_ask (h_ctrl_path ex_ask) = Some (fmt_d GCR_CKPT)"
  "h_blob ex_ask = False" "h_blob_fd ex_ask = False" "h_mem ex_ask = letters"
  by (simp_all add: ex_ask_def ex_alloc_def ex_alloc_eq ex_start_simps)

lemma ex_served: "served sim_obs sim ex_ask"
proof -
  have "served sim_obs sim ex_start"
    by (rule served.start) (simp_all add: ex_start_simps queue_def sim_obs_def fresh_dev_def)
  then have a: "served sim_obs sim ex_alloc"
    unfolding ex_alloc_def by (rule served.malloc [where n = 5 and r = "fst (gcr_vmm_alloc sim 5 ex_start)"]) simp_all
  have "served sim_obs sim (ex_alloc\<lparr>h_mem := letters\<rparr>)"
    by (rule served.compute [OF a]) (simp add: letters_def)
  then show ?thesis
    by (rule served.other) (simp add: same_engine_def ex_ask_def blob_path_def ex_alloc_def ex_alloc_eq ex_start_simps)
qed

lemma ex_room: "blob_room [ex_seg] < 2 ^ 63"
  by (simp add: ex_seg_def selected_def blob_room_def)

lemma ex_enabled: "gcr_vmm_enabled ex_env"
  by (simp add: gcr_vmm_enabled_def ex_env_def)

lemma ex_names: "names_apart ex_ask"
  by (simp add: names_apart_def blob_path_def ex_ask_simps)

lemma ex_letter: "m_dev letters (2097152 + of_nat 4) = Some (CHR ''A'')"
  by (simp add: letters_def ex_alloc_def ex_alloc_eq map_bytes_def no_mem_def within_def fill_def)

text \<open>The turn that takes the checkpoint, and the process restored onto a device with no memory.\<close>

definition ex_ckpt :: "sim_dev hook" where "ex_ckpt = watch_step sim good_libc ex_env 1 ex_ask"

definition ex_back :: "sim_dev hook" where
  "ex_back = resumed no_mem ((h_dev ex_ckpt)\<lparr>sd_queue := []\<rparr>) ex_ckpt"

theorem checkpoint_cycle_witness:
  "m_dev (h_mem (watch_step sim good_libc ex_env 1 ex_back)) 2097156 = Some (CHR ''A'')"
proof -
  let ?d = "(h_dev ex_ckpt)\<lparr>sd_queue := []\<rparr>"
  have "blob_room (h_owned ex_ask) < 2 ^ 63" "ex_seg \<in> set (h_owned ex_ask)" "ow_live ex_seg"
    using ex_room by (simp_all add: ex_ask_simps ex_seg_def)
  note c = checkpoint_cycle [OF sim_ok good_libc_ok good_libc_ok ex_served this(1) ex_enabled ex_names ex_ask_simps(5) this(2,3)
      ex_ckpt_def, where d = ?d and rest = "watch_step sim good_libc ex_env 1 ex_back" and pid' = 1 and m = no_mem and i = 4]
  have "ob_queue sim_obs ?d = []" "ob_reserved sim_obs (h_dev ex_ckpt) \<subseteq> ob_reserved sim_obs ?d" by (simp_all add: sim_obs_def)
  from c [OF this] show ?thesis
    using ex_letter by (simp add: ex_back_def ex_ask_simps ex_seg_def)
qed

end
