(* ===== verification/Hook_Props.thy ===== *)
theory Hook_Props
  imports Hook_Example
begin

text \<open>
  Properties of the engine's parts: the allocator's registry, its arithmetic, the two copy routines
  against each other, what a freeze leaves in the blob, and what it does when copies fail.
\<close>

subsection \<open>The registry\<close>


definition ex_two :: "sim_dev hook" where "ex_two = snd (gcr_vmm_alloc sim 5 ex_ask)"

definition ex_seg2 :: owned where "ex_seg2 = ex_seg\<lparr>ow_va := 4194304\<rparr>"

lemma ex_two_eq:
  "ex_two = ex_ask\<lparr>h_mem := map_bytes 4194304 2097152 fill letters, h_owned := [ex_seg, ex_seg2],
     h_dev := fresh_dev\<lparr>sd_ranges := [(4194304, 2097152), (2097152, 2097152)], sd_next := 6291456\<rparr>\<rparr>"
proof -
  have d: "h_dev ex_ask = fresh_dev\<lparr>sd_ranges := [(2097152, 2097152)], sd_next := 4194304\<rparr>" "h_ptrs ex_ask = vmm_ptrs"
    by (simp_all add: ex_ask_def ex_alloc_def ex_alloc_eq)
  have "resolve_vmm_real sim ex_ask = ex_ask"
    by (simp add: resolve_vmm_real_def resolve_def d)
  then show ?thesis
    unfolding ex_two_def gcr_vmm_alloc_def
    by (simp add: vmm_ptrs_def Let_def current_device_def sim_def gpu_call_def ex_padded map_range_def sim_reserve_def ok_call_def
        d fresh_dev_def own_def GCR_MAX_VMM_def ex_ask_simps ex_seg_def ex_seg2_def below_next_def)
qed

lemma ex_two_served: "served sim_obs sim ex_two"
  unfolding ex_two_def
  by (rule served.malloc [OF ex_served, where n = 5 and r = "fst (gcr_vmm_alloc sim 5 ex_ask)"]) simp_all



lemma ex_huge_eq:
  "gcr_vmm_alloc sim (- 1) ex_start = (Some 2097152, ex_start\<lparr>h_ptrs := vmm_ptrs, h_mem := map_bytes 2097152 2097152 fill no_mem,
     h_dev := fresh_dev\<lparr>sd_ranges := [(2097152, 2097152)], sd_next := 4194304\<rparr>, h_owned := [ex_seg\<lparr>ow_req := - 1\<rparr>]\<rparr>)"
proof -
  have "padded_size (- 1) (granule 2097152) = 2097152" by code_simp
  then show ?thesis
    unfolding gcr_vmm_alloc_def ex_ptrs
    by (simp add: vmm_ptrs_def Let_def current_device_def sim_def gpu_call_def map_range_def sim_reserve_def ok_call_def
        ex_start_simps fresh_dev_def own_def GCR_MAX_VMM_def ex_seg_def)
qed


subsection \<open>The overlapped copy against the serial one\<close>

text \<open>C15: The overlapped copy is equivalent to the serial one. When it starts at all it ends with
  success, and the blob it writes (two staging buffers, one transfer in flight, the host copy of
  the previous chunk in four threads in any order) is the blob the chunk-by-chunk loop writes;
  the same holds of the device memory it restores.\<close>

theorem overlapped_equals_serial:
  assumes g: "good V C L" "good V C L'" and out: "ready_out V h" and inn: "ready_in V k"
    and p: "pipe_copy Freeze C L h = (r, h')" "r \<noteq> -2" and q: "pipe_copy Remap C L k = (r', k')" "r' \<noteq> -2"
  shows "r = 0 \<and> blob h' = blob (serial_freeze C L' (h_owned h) h) \<and>
    r' = 0 \<and> m_dev (h_mem k') = m_dev (h_mem (serial_remap C L' (h_owned k) k))"
proof -
  have "r = 0 \<and> offloaded V h h'" using p by (rule_tac pipe_copy_out [OF g(1) out]) auto
  moreover have "r' = 0 \<and> onloaded V k k'" using q by (rule_tac pipe_copy_in [OF g(1) inn]) auto
  ultimately show ?thesis
    using serial_out.copies_out [OF g(2) out] serial_in.copies_in [OF g(2) inn] by (simp add: offloaded_def onloaded_def)
qed

definition ex_out :: "sim_dev hook" where
  "ex_out = ex_ask\<lparr>h_stageA := True, h_stageB := True, h_ptrs := stage_ptrs, h_blob := True, h_blob_size := 5,
     h_files := (\<lambda>p. None)(''/var/lib/gcr-data/u1/data.blob'' \<mapsto> replicate 5 (CHR 0x00))\<rparr>"

definition ex_in :: "sim_dev hook" where "ex_in = ex_out\<lparr>h_owned := [ex_seg\<lparr>ow_frozen := True\<rparr>]\<rparr>"

lemma ex_out_ready: "ready_out sim_obs ex_out" "ready_in sim_obs ex_in"
  using served_inv [OF sim_ok ex_served]
  by (auto simp: ready_out_def ready_in_def ex_in_def ex_out_def owned_inv_def segs_wf_def ex_ask_simps queue_def blob_ok_def
      blob_def blob_path_def seg_fits_def ex_seg_def)

lemma sim_starts: "fst (pipe_copy mode sim good_libc ex_out) \<noteq> -2" "fst (pipe_copy mode sim good_libc ex_in) \<noteq> -2"
  by (auto simp: pipe_copy_def ex_in_def ex_out_def stage_ptrs_def gpu_call_def sim_def ok_call_def split: prod.split option.split)

lemma sim_good: "good sim_obs sim good_libc"
  using sim_ok good_libc_ok by (simp add: good_def device_ok_def cuda_docs_def libc_ok_def)

theorem overlapped_equals_serial_witness:
  "blob (snd (pipe_copy Freeze sim good_libc ex_out)) = blob (serial_freeze sim good_libc (h_owned ex_out) ex_out)"
  using overlapped_equals_serial [OF sim_good sim_good ex_out_ready surjective_pairing sim_starts(1) surjective_pairing sim_starts(2)]
  by blast

subsection \<open>What a freeze leaves in the blob\<close>

text \<open>C7: After a freeze nothing of the GPU data is left in the process or on the device, and all of it
  is in the blob file: every live buffer is frozen, its bytes stand in the file at its own
  offset, the places of any two buffers do not overlap, the blob is neither mapped nor open (so
  that the dump of the process does not contain it), no access was out of bounds, and the gate
  is closed.\<close>

theorem freeze_saves_everything:
  assumes dev: "device_ok V C" and L: "libc_ok L" and sv: "served V C h" and room: "blob_room (h_owned h) < 2 ^ 63"
    and s: "s \<in> set (h_owned h)" "ow_live s" and h': "checkpoint_freeze C L getenv h = h'"
  shows "(\<exists>c. h_files h' (blob_path h) = Some c \<and>
      list_all2 (\<lambda>s t. ow_va t = ow_va s \<and> ow_req t = ow_req s \<and> (ow_live s \<longrightarrow> ow_frozen t \<and>
        take (unat (ow_req s)) (drop (unat (ow_blob_off t)) c) = dev_bytes (m_dev (h_mem h)) (ow_va s) (unat (ow_req s))))
        (h_owned h) (h_owned h')) \<and>
    sorted_wrt (\<lambda>s t. ow_frozen s \<longrightarrow> ow_frozen t \<longrightarrow> unat (ow_blob_off s) + unat (ow_req s) \<le> unat (ow_blob_off t)) (h_owned h') \<and>
    \<not> h_blob h' \<and> \<not> h_blob_fd h' \<and> h_fault h' = h_fault h \<and> h_gate h'"
proof -
  note cf = served_can_freeze(1) [OF dev L sv room]
  have so: "segs_fit h" using cf by (simp add: can_freeze_def)
  obtain ss need where as: "assign_offsets 0 (h_owned h) = (ss, need)" by fastforce
  note off = offsets_ok [OF so s as]
  obtain c where c: "h_owned h' = map freeze_seg ss" "h_files h' (blob_path h') = Some c" "blob_path h' = blob_path h"
    "\<And>s. s \<in> set ss \<Longrightarrow> selected Freeze s \<Longrightarrow> take (unat (ow_req s)) (drop (unat (ow_blob_off s)) c) =
        dev_bytes (m_dev (h_mem h)) (ow_va s) (unat (ow_req s))"
    "\<not> h_blob h'" "\<not> h_blob_fd h'" "h_gate h'" "h_fault h' = h_fault h"
    using freeze_ok [OF cf s as, of getenv] h' by (metis blob_path_def)
  have live: "selected Freeze t \<longleftrightarrow> ow_live t" "ow_frozen (freeze_seg t) \<longleftrightarrow> ow_live t" if "s \<in> set (h_owned h)" "placed s t" for s t
    using so that placedD [OF that(2)] by (auto simp: segs_fit_def segs_wf_def selected_def frozen_map)
  have live': "ow_frozen (freeze_seg t) \<longleftrightarrow> selected Freeze t" if "t \<in> set ss" for t
    using list_all2_left [OF off(1) that] live by blast
  have "list_all2 (\<lambda>s t. ow_va t = ow_va s \<and> ow_req t = ow_req s \<and> (ow_live s \<longrightarrow> ow_frozen t \<and>
      take (unat (ow_req s)) (drop (unat (ow_blob_off t)) c) = dev_bytes (m_dev (h_mem h)) (ow_va s) (unat (ow_req s))))
      (h_owned h) (h_owned h')"
    unfolding c(1) list.rel_map
  proof (rule list.rel_mono_strong [OF off(1)])
    fix s t assume st: "s \<in> set (h_owned h)" "t \<in> set ss" "placed s t"
    note p = placedD [OF st(3)]
    show "ow_va (freeze_seg t) = ow_va s \<and> ow_req (freeze_seg t) = ow_req s \<and> (ow_live s \<longrightarrow> ow_frozen (freeze_seg t) \<and>
        take (unat (ow_req s)) (drop (unat (ow_blob_off (freeze_seg t))) c) = dev_bytes (m_dev (h_mem h)) (ow_va s) (unat (ow_req s)))"
      using live [OF st(1,3)] c(4) [OF st(2)] p by (simp add: frozen_map)
  qed
  moreover have "sorted_wrt (\<lambda>s t. ow_frozen s \<longrightarrow> ow_frozen t \<longrightarrow> unat (ow_blob_off s) + unat (ow_req s) \<le> unat (ow_blob_off t)) (h_owned h')"
    using off(3) unfolding c(1) sorted_wrt_map blob_apart_def
    by (rule sorted_wrt_mono_rel [rotated]) (simp add: frozen_map(2-6) live')
  ultimately show ?thesis using c by auto
qed

theorem freeze_saves_everything_witness:
  "\<exists>c s. h_files (checkpoint_freeze sim good_libc ex_env ex_ask) ''/var/lib/gcr-data/u1/data.blob'' = Some c \<and>
    h_owned (checkpoint_freeze sim good_libc ex_env ex_ask) = [s] \<and> ow_frozen s \<and>
    take 5 (drop (unat (ow_blob_off s)) c) = dev_bytes (m_dev letters) 2097152 5"
proof -
  have "blob_room (h_owned ex_ask) < 2 ^ 63" "ex_seg \<in> set (h_owned ex_ask)" "ow_live ex_seg"
    using ex_room by (simp_all add: ex_ask_simps ex_seg_def)
  from freeze_saves_everything [OF sim_ok good_libc_ok ex_served this refl, of ex_env]
  show ?thesis by (auto simp: ex_ask_simps blob_path_def list_all2_Cons1 ex_seg_def)
qed

end
