(* ===== verification/Hook_Errors.thy ===== *)
theory Hook_Errors
  imports Hook_Props
begin

text \<open>
  The interceptor when things go wrong: what a checkpoint leaves behind when the driver refuses the
  copies, and the acknowledgement the agent waits for.
\<close>

subsection \<open>Copies that fail write nothing\<close>

definition copies_fail :: "'d cuda \<Rightarrow> bool" where
  "copies_fail C \<longleftrightarrow> (\<forall>op m d. fst (cudaMemcpyAsync C op m d) \<noteq> 0 \<and> fst (cudaMemcpy C op m d) \<noteq> 0)"

lemma files_gpu_call: "h_files (snd (gpu_call f h)) = h_files h"
  by (simp add: gpu_call_def split: prod.split)

lemma files_gpu: "gpu_call f h = (r, h') \<Longrightarrow> h_files h' = h_files h"
  using files_gpu_call by (metis snd_conv)

lemma files_call_opt: "h_files (call_opt p f h) = h_files h"
  by (simp add: call_opt_def files_gpu_call)

lemma fail_call:
  assumes "copies_fail C"
  shows "gpu_call (cudaMemcpyAsync C op) h = (rc, h') \<Longrightarrow> rc \<noteq> 0" "gpu_call (cudaMemcpy C op) h = (rc, h') \<Longrightarrow> rc \<noteq> 0"
  using assms by (auto simp: copies_fail_def gpu_call_eq)

lemma fail_seg:
  assumes "copies_fail C" and "pipe_seg Freeze C L s rem coff p h = (r, h')"
  shows "h_files h' = h_files h \<and> (r = None \<or> r = Some p)"
proof (cases "rem = 0")
  case True
  then show ?thesis using assms(2) by (subst (asm) pipe_seg.simps) simp
next
  case False
  obtain rc h1 where c: "gpu_call (cudaMemcpyAsync C (D2H (odd (pp_j p)) (ow_va s + coff) (unat (chunk_of rem)))) h = (rc, h1)" by fastforce
  then have "rc \<noteq> 0" using fail_call(1) [OF assms(1)] by blast
  then have "pipe_chunk Freeze C L (ow_va s + coff) (ow_blob_off s + coff) (chunk_of rem) p h = (None, h1)"
    using c by (simp add: pipe_chunk_def Let_def)
  then show ?thesis using assms(2) False files_gpu [OF c] by (subst (asm) pipe_seg.simps) (simp add: Let_def)
qed

lemma fail_segs:
  assumes f: "copies_fail C"
  shows "pipe_segs Freeze C L ss p h = (r, h') \<Longrightarrow> h_files h' = h_files h \<and> (r = None \<or> r = Some p)"
proof (induction ss arbitrary: h)
  case (Cons s ss)
  obtain q h1 where c: "pipe_seg Freeze C L s (ow_req s) 0 p h = (q, h1)" by fastforce
  show ?case using Cons fail_seg [OF f c] c by (auto split: if_splits option.splits)
qed simp

lemma files_fin: "h_files (pipe_fin C h) = h_files h"
  by (simp add: pipe_fin_def Let_def files_call_opt)

lemma no_drain: "drain_prev mode C L pipe_start h = h"
  by (simp add: drain_prev_def pipe_start_def)

lemma fail_pipe_copy:
  assumes f: "copies_fail C" and r: "pipe_copy Freeze C L h = (rc, h')"
  shows "h_files h' = h_files h"
proof -
  obtain r1 st h1 where 1: "gpu_call (cudaStreamCreate C) h = ((r1, st), h1)" by (metis prod.collapse)
  obtain r2 h2 where 2: "gpu_call (cudaEventCreate C False) h1 = (r2, h2)" by fastforce
  obtain r3 h3 where 3: "gpu_call (cudaEventCreate C True) h2 = (r3, h3)" by fastforce
  obtain q h4 where 4: "pipe_segs Freeze C L (h_owned h3) pipe_start h3 = (q, h4)" by fastforce
  have "h_files h1 = h_files h" "h_files h2 = h_files h" "h_files h3 = h_files h" "h_files h4 = h_files h" "q = None \<or> q = Some pipe_start"
    using files_gpu [OF 1] files_gpu [OF 2] files_gpu [OF 3] fail_segs [OF f 4] by simp_all
  then show ?thesis
    using r unfolding pipe_copy_def by (auto simp: 1 2 3 4 files_call_opt files_fin no_drain split: if_splits)
qed

lemma fail_serial:
  assumes f: "copies_fail C"
  shows "h_files (serial_freeze C L ss h) = h_files h"
proof (induction ss arbitrary: h)
  case (Cons s ss)
  have "h_files (serial_freeze_seg C L s (ow_req s) 0 h) = h_files h"
  proof -
    obtain rc h1 where c: "gpu_call (cudaMemcpy C (D2H False (ow_va s + 0) (unat (chunk_of (ow_req s))))) h = (rc, h1)" by fastforce
    then have "rc \<noteq> 0" using fail_call(2) [OF f] by blast
    then show ?thesis using c files_gpu [OF c] by (subst serial_freeze_seg.simps) (simp add: Let_def)
  qed
  then show ?case using Cons by simp
qed simp

lemma fail_copy_out: "copies_fail C \<Longrightarrow> h_files (copy_out C L h) = h_files h"
  using fail_pipe_copy [of C L h] by (auto simp: copy_out_def fail_serial split: prod.split)

lemma blob_map_fresh:
  assumes "no_libc_failures L" "h_data_dir h \<noteq> []" "\<not> h_blob h" "\<not> h_blob_fd h" "0 \<le> sint need"
  shows "\<exists>h'. blob_map L getenv need h = (True, h') \<and> h_owned h' = h_owned h \<and> h_data_dir h' = h_data_dir h \<and>
    h_files h' (blob_path h) = Some (resize (unat need) (case h_files h (blob_path h) of None \<Rightarrow> [] | Some c \<Rightarrow> c))"
  using assms by (auto simp: blob_map_def libc_call_def no_libc_failures_def Let_def blob_path_def)

lemma fail_freeze:
  assumes f: "copies_fail C" and docs: "control_docs V C" "has_ptrs C" and L: "no_libc_failures L" and q: "queue V h = []"
    and so: "segs_fit h" and dd: "h_data_dir h \<noteq> []" "\<not> h_blob h" "\<not> h_blob_fd h" and s: "s \<in> set (h_owned h)" "ow_live s"
  shows "\<exists>n. h_files (checkpoint_freeze C L getenv h) (blob_path h) =
      Some (resize n (case h_files h (blob_path h) of None \<Rightarrow> [] | Some c \<Rightarrow> c))"
    and "\<forall>t \<in> set (h_owned (checkpoint_freeze C L getenv h)). ow_live t \<longrightarrow> ow_frozen t"
proof -
  obtain ss need where as: "assign_offsets 0 (h_owned h) = (ss, need)" by fastforce
  note off = offsets_ok [OF so s as]
  define h2 where "h2 = (freeze_prep C L h)\<lparr>h_owned := ss\<rparr>"
  note fp = freeze_prep_ok [OF docs(1) L q docs(2)]
  have k: "h_data_dir h2 = h_data_dir h" "\<not> h_blob h2" "\<not> h_blob_fd h2" "h_files h2 = h_files h" "blob_path h2 = blob_path h"
    using fp(1) dd by (simp_all add: h2_def keeps_state_def blob_path_def)
  have "h_data_dir h2 \<noteq> []" using k dd by simp
  from blob_map_fresh [OF L this k(2,3) sint_nonneg [OF off(5)], of getenv]
  obtain h3 where h3: "blob_map L getenv need h2 = (True, h3)" "h_owned h3 = ss" "h_data_dir h3 = h_data_dir h"
    "h_files h3 (blob_path h) = Some (resize (unat need) (case h_files h (blob_path h) of None \<Rightarrow> [] | Some c \<Rightarrow> c))"
    using k by (auto simp: h2_def)
  have run: "checkpoint_freeze C L getenv h = freeze_close C (copy_out C L h3)"
    by (rule freeze_unfold [OF docs(1) L q docs(2) as off(4) h3(1) [unfolded h2_def]])
  have "same_ctl h3 (copy_out C L h3)" by (rule ctl.kept_copies)
  then have own: "h_owned (copy_out C L h3) = ss" using h3(2) by (simp add: same_ctl_def)
  obtain tt h5 where r: "release_segs C (h_owned (copy_out C L h3)) (copy_out C L h3) = (tt, h5)" by fastforce
  note rel = release_segs_eq [OF r]
  have "h_files h5 = h_files (copy_out C L h3)" using rel by (metis set_gpu_keeps(2))
  then have "h_files (freeze_close C (copy_out C L h3)) = h_files h3" by (simp add: freeze_close_def r fail_copy_out [OF f])
  then show "\<exists>n. h_files (checkpoint_freeze C L getenv h) (blob_path h) =
      Some (resize n (case h_files h (blob_path h) of None \<Rightarrow> [] | Some c \<Rightarrow> c))"
    using h3(4) run by auto
  have "h_owned (freeze_close C (copy_out C L h3)) = map freeze_seg ss" using rel own r by (simp add: freeze_close_def)
  moreover have "ow_frozen (freeze_seg t)" if t: "t \<in> set ss" "ow_live (freeze_seg t)" for t
  proof -
    obtain u where "u \<in> set (h_owned h)" "placed u t" using list_all2_left [OF off(1) t(1)] by blast
    then show ?thesis using so t(2) placedD [of u t] by (auto simp: segs_fit_def segs_wf_def selected_def frozen_map)
  qed
  ultimately show "\<forall>t \<in> set (h_owned (checkpoint_freeze C L getenv h)). ow_live t \<longrightarrow> ow_frozen t"
    using run by simp
qed


definition bad_sim :: "sim_dev cuda" where
  "bad_sim = sim\<lparr>cudaMemcpyAsync := (\<lambda>op m d. (700, m, d)), cudaMemcpy := (\<lambda>op m d. (700, m, d))\<rparr>"


subsection \<open>A second freeze\<close>



subsection \<open>The acknowledgement\<close>

text \<open>The environment the Pod's manifest gives the interceptor, for an agent with the manager \<open>m\<close>.\<close>

definition pod_env :: "(string \<Rightarrow> string option) \<Rightarrow> InterceptorManager \<Rightarrow> string \<Rightarrow> bool" where
  "pod_env getenv m key \<longleftrightarrow> getenv ''GCR_CONTROL_DIR'' = Some (im_HostRunDir m) \<and> getenv ''GCR_POD_UID'' = Some key \<and>
    is_abs (im_HostRunDir m) \<and> Clean (im_HostRunDir m) = im_HostRunDir m \<and> elems (im_HostRunDir m) \<noteq> [] \<and> path_elem key \<and>
    length (im_HostRunDir m) + length key + 9 \<le> 1023"

lemma join_slash_append: "xs \<noteq> [] \<Longrightarrow> join_slash (xs @ [k, c]) = join_slash xs @ slash # k @ slash # c"
  by (induction xs rule: join_slash.induct) auto

lemma pod_ctrl_path:
  assumes "pod_env getenv m key"
  shows "h_ctrl_path (gcr_init getenv h) = ctrl_path m key"
proof -
  let ?d = "im_HostRunDir m"
  have d: "is_abs ?d" "Clean ?d = ?d" "elems ?d \<noteq> []" "path_elem key" and l: "length ?d + length key + 9 \<le> 1023"
    and e: "getenv ''GCR_CONTROL_DIR'' = Some ?d" "getenv ''GCR_POD_UID'' = Some key"
    using assms by (simp_all add: pod_env_def)
  have "?d \<noteq> []" "key \<noteq> []" using d(1,4) by (auto simp: is_abs_def path_elem_def)
  then have "h_ctrl_path (gcr_init getenv h) = take 1023 (?d @ ''/'' @ key @ ''/control'')"
    by (simp add: gcr_init_def build_paths_def env_or_def e snprintf1024_def Let_def)
  also have "\<dots> = ?d @ ''/'' @ key @ ''/control''" using l by simp
  also have "\<dots> = abs_path (elems ?d) @ slash # key @ slash # ''control''"
    using Clean_abs [OF d(1)] d(2) by (simp add: slash_def)
  also have "\<dots> = abs_path (elems ?d @ [key, ''control''])" using d(3) by (simp add: abs_path_def join_slash_append)
  also have "\<dots> = ctrl_path m key" unfolding ctrl_path_def using d(1,4) by (simp add: Join_abs)
  finally show ?thesis .
qed

lemma write_signal_ok:
  "no_libc_failures L \<Longrightarrow> h_files (write_signal L v h) (h_ctrl_path h) = Some (fmt_d v)"
  "no_libc_failures L \<Longrightarrow> h_gate (write_signal L v h) = h_gate h" "no_libc_failures L \<Longrightarrow> h_ctrl_path (write_signal L v h) = h_ctrl_path h"
  "no_libc_failures L \<Longrightarrow> h_data_dir (write_signal L v h) = h_data_dir h"
  by (simp_all add: write_signal_def write_file_ok)

lemma serve_acks:
  assumes L: "no_libc_failures L" and dd: "h_data_dir h \<noteq> []"
  shows "h_files (serve_ckpt C L getenv pid h) (h_ctrl_path h) = Some (fmt_d GCR_IDLE)"
    and "h_files (serve_restore C L getenv h) (h_ctrl_path h) = Some (fmt_d GCR_IDLE)"
    and "engaged getenv h \<Longrightarrow> \<not> h_gate (serve_restore C L getenv h)"
proof -
  define h1 where "h1 = dump_intercepted_info L pid (if engaged getenv h then checkpoint_freeze C L getenv h else h)"
  have "h_ctrl_path h1 = h_ctrl_path h"
    using freeze_keeps_paths(1) [OF dd] by (simp add: h1_def dump_intercepted_info_def write_file_ok [OF L])
  then show "h_files (serve_ckpt C L getenv pid h) (h_ctrl_path h) = Some (fmt_d GCR_IDLE)"
    using write_signal_ok(1) [OF L, of GCR_IDLE h1] by (simp add: serve_ckpt_def Let_def h1_def)
  define h2 where "h2 = (if engaged getenv h
    then gcr_gate_set False (restore_remap C L getenv (write_signal L GCR_GATING (gcr_gate_set True h))) else h)"
  have "h_ctrl_path h2 = h_ctrl_path h"
    using remap_keeps_paths(1) [of "write_signal L GCR_GATING (gcr_gate_set True h)" C L getenv] dd
    by (simp add: h2_def gcr_gate_set_def write_signal_ok [OF L])
  then show "h_files (serve_restore C L getenv h) (h_ctrl_path h) = Some (fmt_d GCR_IDLE)"
    "engaged getenv h \<Longrightarrow> \<not> h_gate (serve_restore C L getenv h)"
    using write_signal_ok [OF L, of GCR_IDLE h2] by (simp_all add: serve_restore_def h2_def gcr_gate_set_def)
qed



text \<open>The paths of the constructor are apart, unless they are cut.\<close>

lemma constructor_names_apart:
  assumes "length (env_or getenv ''GCR_CONTROL_DIR'' ''/var/lib/gpu-cr/run'') + length (env_or getenv ''GCR_POD_UID'' ''default'') + 18 \<le> 1023"
  shows "names_apart (gcr_init getenv h)"
proof -
  let ?h = "gcr_init getenv h" and ?c = "env_or getenv ''GCR_CONTROL_DIR'' ''/var/lib/gpu-cr/run''" and ?u = "env_or getenv ''GCR_POD_UID'' ''default''"
  have "h_ctrl_path ?h = ?c @ ''/'' @ ?u @ ''/control''" "h_info_path ?h = ?c @ ''/'' @ ?u @ ''/intercepted-info''"
    using assms by (simp_all add: gcr_init_def build_paths_def snprintf1024_def Let_def)
  then have "last (h_ctrl_path ?h) = CHR ''l''" "last (h_info_path ?h) = CHR ''o''" by simp_all
  moreover have "last (blob_path ?h) = CHR ''b''" by (simp add: blob_path_def)
  ultimately show ?thesis unfolding names_apart_def by auto
qed

subsection \<open>A run with a frozen buffer\<close>


end
