(* ===== verification/Spec2Isabelle.thy ===== *)
theory Spec2Isabelle
  imports Agent_Main Agent_Lifecycle Orch_Main Orch_Reconcile Wc_Deepcopy Hook_Errors
begin

text \<open>
  A verification of a checkpoint/restore system for GPU workloads on Kubernetes. The system has two
  programs written in Go and a library in C. The \<^bold>\<open>Node Agent\<close> (one per node) watches GPUCheckpoint resources; for one whose
  Pod runs on its node it freezes the GPU data through a hook library in the Pod, has the
  kubelet dump the container, resumes the workload, stores the archive and reports in the
  resource's status. The \<^bold>\<open>workload orchestrator\<close> (one per cluster) watches WorkloadCheckpoint
  resources; it resolves a workload to its Pods, creates one GPUCheckpoint child per Pod and
  sums up the children's status. The two only meet in the API server. The \<^bold>\<open>interceptor\<close> is a library preloaded
  into the workload (\<^verbatim>\<open>interceptor/preload.c\<close>): it backs the workload's GPU allocations, and on the
  agent's signal in a control file copies them to a file and releases them, or brings them back.

  \<^bold>\<open>How the model is built.\<close> Stateful code is in the state monad over an explicit world. The world of the agent
  (\<^verbatim>\<open>Os_World\<close>) holds file contents, a clock and the history of calls; everything outside the
  program is an environment \<open>env\<close>, a family of functions of the history that decides which call
  fails, what is returned, what other processes do to files between two calls, how much time
  passes. The orchestrator's world is the analogue for API calls (\<open>oenv\<close>). A statement about an
  arbitrary environment thus covers every failure and every interleaving at the granularity of
  calls. Errors are values of one datatype per operation, with the code's messages; machine
  integers keep their width (int32 counters are 32-bit words, the checkpoint count a 64-bit
  word); Go's nil is \<open>None\<close>. There is no fuel: every loop of the code ends and its model is a
  total function, with a termination proof where the recursion is not structural (the polling
  loop of \<^verbatim>\<open>WaitForAck\<close> ends because each round sleeps 50 ms of the time left). Third-party code is
  a parameter: the cron parser, label selectors, \<^verbatim>\<open>SetControllerReference\<close>, the deep copies of Kubernetes'
  own types, the X.509 and JSON decoders, controller-runtime. Go's standard library is modelled
  where the code uses it: \<^verbatim>\<open>strings\<close>, \<^verbatim>\<open>path/filepath\<close>, \<^verbatim>\<open>time\<close>, \<^verbatim>\<open>flag\<close>, SHA-1.

  The interceptor is a state-passing model over a record of its globals (\<open>hook\<close>), with \<^verbatim>\<open>size_t\<close> and
  device pointers as 64-bit words. The CUDA driver and runtime are a parameter (\<open>cuda\<close>, one function
  per entry point over an opaque device and the memory shared with it); what the theorems need of
  them is stated after NVIDIA's documentation (\<open>copy_docs\<close>, \<open>control_docs\<close>, \<open>vmm_docs\<close>, \<open>reserve_docs\<close>): queued
  transfers may be done at any time in their order, an event is waited for, mapping changes only
  the range named. libc is a parameter that says which call fails and in which order the threads
  of a copy run. Reads through null pointers and outside the mapped file set a fault flag, so
  that their absence is part of the theorems. \<open>Hook_Sim\<close> is a device that meets the documented
  behaviour, on which the witnesses run.

  \<^bold>\<open>Theories and the sources they model\<close> (under \<^verbatim>\<open>src/\<close>):

  \<^item> \<^verbatim>\<open>Prelude\<close>: collections of rewrite rules and generic facts. \<^verbatim>\<open>Go_Strings\<close>, \<^verbatim>\<open>Go_Path\<close>, \<^verbatim>\<open>Go_Time\<close>,
    \<^verbatim>\<open>Go_Flag\<close>, \<^verbatim>\<open>Sha1\<close>: the standard library, with the laws the components use (cleaning a path is idempotent,
    a joined path stays inside, printed durations and command lines parse back).
  \<^item> \<^verbatim>\<open>Api_Types\<close>, \<^verbatim>\<open>Workload_Types\<close>: the custom resources of \<^verbatim>\<open>api/v1alpha1\<close> and \<^verbatim>\<open>orchestrator/api/v1alpha1\<close>.
  \<^item> \<^verbatim>\<open>Go_Heap\<close>, \<^verbatim>\<open>Gpu_Deepcopy\<close>, \<^verbatim>\<open>Wc_Deepcopy\<close>: both \<^verbatim>\<open>zz_generated.deepcopy.go\<close> over an explicit heap. The
    locale \<open>deep_copier\<close> is the contract of a deep copy; combinators for pointers, optional
    pointers, slices and structs keep it, so that each type's copy is one step.
  \<^item> \<^verbatim>\<open>Schedule\<close>: \<^verbatim>\<open>internal/agent/schedule.go\<close>. The locale \<open>schedule_law\<close> states what the reconciler relies on.
  \<^item> \<^verbatim>\<open>Os_World\<close>: system calls, and the locale \<open>world_rel\<close> of relations that compose along a program,
    interpreted for the calls made, files kept and time passed.
  \<^item> \<^verbatim>\<open>Interceptor_Mgr\<close>: \<^verbatim>\<open>internal/agent/interceptor.go\<close>; the locale \<open>hook_channel\<close> is the control-file protocol.
    \<^verbatim>\<open>Kubelet\<close>: \<^verbatim>\<open>internal/agent/kubelet.go\<close>.
  \<^item> \<^verbatim>\<open>Mounts\<close>, \<^verbatim>\<open>Storage\<close>, \<^verbatim>\<open>Pipeline\<close>: \<^verbatim>\<open>internal/agent/checkpoint.go\<close>, from the mount table to
    \<^verbatim>\<open>Checkpointer.Checkpoint\<close> (\<open>Checkpointer_Checkpoint\<close>, in its steps freeze, produce, resume, store).
  \<^item> \<^verbatim>\<open>Agent_Reconciler\<close>: \<^verbatim>\<open>internal/agent/reconciler.go\<close>; the locale \<open>condition_store\<close> is the map view of conditions.
    \<^verbatim>\<open>Agent_Lifecycle\<close>: the reconciler as a step relation on a resource, with its invariant.
  \<^item> \<^verbatim>\<open>Orchestrator\<close>, \<^verbatim>\<open>Orch_Reconcile\<close>: \<^verbatim>\<open>orchestrator/controllers/workloadcheckpoint_controller.go\<close>, its operations and
    its whole passes.
  \<^item> \<^verbatim>\<open>Startup\<close>, \<^verbatim>\<open>Agent_Main\<close>, \<^verbatim>\<open>Orch_Main\<close>: \<^verbatim>\<open>cmd/node-agent/main.go\<close>, \<^verbatim>\<open>orchestrator/cmd/main.go\<close> and both
    \<^verbatim>\<open>groupversion_info.go\<close>.
  \<^item> \<^verbatim>\<open>Hook_State\<close>, \<^verbatim>\<open>Hook_Alloc\<close>, \<^verbatim>\<open>Hook_Engine\<close>, \<^verbatim>\<open>Hook_Watch\<close>: the code of \<^verbatim>\<open>interceptor/preload.c\<close>: its state and
    the driver, the registries, allocator and interposed entry points, the checkpoint engine, the
    watcher with control file and gate.
  \<^item> \<^verbatim>\<open>Hook_Copy\<close>, \<^verbatim>\<open>Hook_Pipe\<close>, \<^verbatim>\<open>Hook_Freeze\<close>: the copies. A copy out of and into device memory is an interface (the
    locales \<open>offloader\<close> and \<open>onloader\<close>), met by the overlapped copy with two staging buffers and by
    the serial loop. \<^verbatim>\<open>Hook_Frames\<close>: what they leave alone whatever the driver does (the locales
    \<open>engine_frame\<close> and \<open>engine_run\<close>). \<^verbatim>\<open>Hook_Roundtrip\<close>, \<^verbatim>\<open>Hook_Restore\<close>: freeze, remap, and one after the other.
  \<^item> \<^verbatim>\<open>Hook_Served\<close>: the states a process can be in between and across checkpoints, as an inductive
    relation with its invariant. \<^verbatim>\<open>Hook_Cycle\<close>: the watcher's two turns around a dump. \<^verbatim>\<open>Hook_Gate\<close>: the gate over
    every run of the library. \<^verbatim>\<open>Hook_Props\<close>, \<^verbatim>\<open>Hook_Errors\<close>: further properties, and what happens on errors.
    \<^verbatim>\<open>Hook_Sim\<close>, \<^verbatim>\<open>Hook_Example\<close>: the device and the process of the witnesses.
  \<^item> This theory: properties that span the two Go programs.

  \<^bold>\<open>What is shown.\<close> \<^emph>\<open>Pipeline and storage\<close>: a successful checkpoint freezes, dumps, resumes and then stores, in that
  order, and completes when nothing fails; when the dump fails nothing is stored and the
  workload is told to resume; storing never loses the archive and a stored checkpoint is
  complete; dry runs are harmless; directories stay inside their backend. \<^emph>\<open>Hook and mounts\<close>:
  the handshake writes what was asked and sees an answer that comes in time, waiting ends; the
  library is installed bytewise; the kernel's mount table is read back exactly, the overlay
  root is recognised by path elements. \<^emph>\<open>Agent\<close>: the reconciler implements an abstract decision
  (fail, finish, wait, run), reports each outcome, keeps schedules, takes one-shot checkpoints
  once, and only the agent of the Pod's node acts; over its whole life, with agents killed at
  any call and updates refused, a resource's status stays well formed. \<^emph>\<open>Orchestrator\<close>: Pods are
  filtered exactly, the fan-out covers every Pod or respects its limit, counters and phase are
  exact, passes poll as long as and only as long as they must. \<^emph>\<open>Together\<close>: a child is run by
  exactly the agent started on its Pod's node, replicas are stored apart, and children reported
  stored make the workload Completed. \<^emph>\<open>Deep copies\<close> read the same and share nothing. \<^emph>\<open>Start-up\<close>:
  flags beat variables beat defaults, and an agent that runs has installed its library. \<^emph>\<open>Interceptor\<close>: a
  checkpoint, dump and restore bring every byte of every live buffer back to its address, any
  number of times; buffers are mapped, large enough and disjoint; a freeze leaves all data in the
  file, each buffer at its own place, and nothing mapped; the overlapped copy is equivalent to the
  serial one; launches are held while buffers are frozen, in every run and with every error; the
  agent's signals reach the watcher and are acknowledged.

  Some theorems pin down behaviour that departs from the comments or is likely unwanted: a freeze
  that times out is never resumed; two mount sources can share a directory; the concurrency
  limit does not bound what runs at once; a resource whose Pod is gone, and a workload whose
  Pods are gone, are reported Failed even after they completed; the interceptor acknowledges a
  checkpoint of which every copy failed; a second freeze discards the data of the first; a request
  near the size of the address space is granted with one granule.

  \<^bold>\<open>Not modelled.\<close> Calls of the application into the interceptor while a freeze or a remap is running are not
  interleaved with its steps (between turns they are, in any order); two application threads in
  the allocator at once are not either. A kernel launch is the gate (\<open>gcr_gate_wait\<close>) followed by the
  real entry point, which is not modelled; how \<^verbatim>\<open>dlsym\<close> finds a symbol is part of the driver
  parameter. What CRIU does to a process is the assumption that its memory is what it was. Log
  lines and the timers that feed them have no effect on behaviour. Directories are not tracked
  in the file world, only the calls that create them. The precision of stored times and refused
  updates are the only effects of the API server on a status that are considered.
\<close>

subsection \<open>Children and their agents\<close>

lemma child_simps:
  assumes "gc_Spec cr = gc_Spec (buildChild wc pod name)"
  shows "pod_key cr = (pod_Namespace pod, pod_Name pod)"
    and "wr_Kind (gs_WorkloadRef (gc_Spec cr)) = ''Pod''"
    and "gs_Schedule (gc_Spec cr) = ws_Schedule (wc_Spec wc)"
    and "gs_Storage (gc_Spec cr) = perPodStorage (ws_Storage (wc_Spec wc)) (pod_Name pod)"
    and "pod_NodeName pod \<noteq> [] \<Longrightarrow> target_node cr pod' = pod_NodeName pod"
  using assms by (simp_all add: buildChild_def target_node_def)

lemma decide_fresh: "NextRun L s t = Inr (n, recurring) \<Longrightarrow> decide L s None t = RunNow recurring"
  by (simp add: decide_def)

text \<open>C10: A child the orchestrator created for a Pod is run by exactly the Node Agent of the Pod's node: an agent
  that was started with that node's name checks the Pod and runs the pipeline for it at
  once, recurring or not as the workload's schedule says; every other agent leaves it alone
  after its two reads.\<close>

theorem child_taken_by_its_node:
  assumes "run_state (agent_main E0 P) w0 = ((ex, Some r), w0')"
    and "gc_Spec cr = gc_Spec (buildChild wc pod name)" and "gc_Status cr = gc_Status (buildChild wc pod name)"
    and "pod_NodeName pod \<noteq> []"
    and "e_getcr E (w_hist w @ [EvGetCR req]) = Inr cr"
    and "e_getpod E (w_hist w @ [EvGetCR req, EvGetPod (pod_Namespace pod, pod_Name pod)]) = Inr pod'"
    and "NextRun (e_sched E) (ws_Schedule (wc_Spec wc)) (w_now (resolved E req cr w)) = Inr (n, recurring)"
  shows "run_state (Reconcile E r req) w =
    (if ps_getenv P ''NODE_NAME'' = pod_NodeName pod
     then run_state (run_checkpoint E r cr pod' recurring) (resolved E req cr w)
     else ((no_requeue, None), resolved E req cr w))"
proof -
  have started: "run_state (agent_setup E0 P) w0 = (Inr r, w0')"
    using assms(1) by (auto simp: agent_main_def split: prod.splits sum.splits option.splits)
  have node: "rc_NodeName r = ps_getenv P ''NODE_NAME''"
    by (rule agent_setup_ok [OF started]) simp
  have served: "serves E w req cr pod'"
    using assms(5,6) child_simps(1,2) [OF assms(2)] by (simp add: serves_def)
  have target: "target_node cr pod' = pod_NodeName pod" by (rule child_simps(5) [OF assms(2,4)])
  have new: "st_LastCheckpointTime (gc_Status cr) = None"
    using assms(3) by (simp add: buildChild_def empty_status_def)
  show ?thesis
  proof (cases "ps_getenv P ''NODE_NAME'' = pod_NodeName pod")
    case True
    then have own: "target_node cr pod' = rc_NodeName r" using target node by simp
    show ?thesis
      unfolding Reconcile_decides [OF served own] child_simps(3) [OF assms(2)] new decide_fresh [OF assms(7)]
      using True by (simp add: act_def)
  next
    case False
    with target node have "target_node cr pod' \<noteq> rc_NodeName r" by simp
    from Reconcile_other_node [OF served this] False show ?thesis by simp
  qed
qed

definition child_of_a :: GPUCheckpoint where
  "child_of_a = buildChild some_wc (gpu_pod ''a'' ''n1'') ''wc-a''"

definition child_env :: env where
  "child_env = train_env\<lparr>e_getcr := (\<lambda>h. Inr child_of_a), e_getpod := (\<lambda>h. Inr (gpu_pod ''a'' ''n1''))\<rparr>"

theorem child_taken_by_its_node_witness:
  "\<exists>r w0'. run_state (agent_main quiet_env start_process) empty_world = ((None, Some r), w0') \<and>
    run_state (Reconcile child_env r (''ml'', ''wc-a'')) empty_world =
      ((no_requeue, None), resolved child_env (''ml'', ''wc-a'') child_of_a empty_world)"
proof -
  obtain r w0' where run: "run_state (agent_main quiet_env start_process) empty_world = ((None, Some r), w0')"
    by (rule start_main)
  have "NextRun (e_sched child_env) (ws_Schedule (wc_Spec some_wc)) t = Inr (zero_time, False)" for t
    by (simp add: NextRun_def TrimSpace_ws_free some_wc_def)
  from child_taken_by_its_node [OF run _ _ _ _ _ this, where cr = child_of_a and pod = "gpu_pod ''a'' ''n1''"
      and name = "''wc-a''" and w = empty_world and req = "(''ml'', ''wc-a'')" and pod' = "gpu_pod ''a'' ''n1''"] run
  show ?thesis by (simp add: child_of_a_def child_env_def gpu_pod_def start_process_def)
qed

subsection \<open>Where replicas are stored\<close>

lemma storeToDir_result:
  assumes "run_state (storeToDir E c t produced dir) w = (Inr path, w')"
  shows "\<exists>at. path = Join [dir, archive_name t at]"
  using assms
  by (auto simp: storeToDir_def Let_def split: prod.splits option.splits list.splits if_splits)

lemma hostPath_result:
  assumes "run_state (Checkpointer_Checkpoint E c t) w = (Inr rs, w')"
    and "ss_Type (tg_Storage t) \<in> {StorageHostPath, []}"
  shows "\<exists>at. rs_ArchivePath rs = Join [ss_Path (tg_Storage t), archive_name t at]"
  using assms(1)
proof (cases rule: Checkpoint_cases)
  case (store produced s w1 w2 w3)
  obtain p where p: "s = Inr p" "rs_ArchivePath rs = p" using store(5) by (cases s) auto
  have type: "ss_Type (tg_Storage t) \<noteq> StorageMount" "ss_Type (tg_Storage t) \<noteq> StorageNFS"
    using assms(2) by (auto simp: storage_types)
  obtain v where "run_state (storeToDir E c t produced (ss_Path (tg_Storage t))) v = (Inr p, w')"
    using store(4) assms(2) type p(1)
    by (auto simp: store_def Let_def split: prod.splits option.splits if_splits)
  with storeToDir_result p(2) show ?thesis by blast
qed simp_all

lemma archive_elem:
  assumes "slash \<notin> set (tg_Pod t)" and "slash \<notin> set (tg_Namespace t)" and "slash \<notin> set (tg_Container t)"
  shows "path_elem (archive_name t at)"
proof -
  have digits: "slash \<notin> set (fmt_d i)" for i
    using fmt_nat_digits [of slash] by (auto simp: fmt_d_def slash_def is_digit_def)
  then show ?thesis using assms by (auto simp: path_elem_def archive_name_def slash_def)
qed

text \<open>C22: The checkpoints of the replicas of a workload stored under one directory of the nodes do not mix: the
  archive of each replica ends up in the sub-directory of that directory named after its
  Pod, so that replicas of different names have different archive paths.\<close>

theorem replicas_stored_apart:
  assumes "gc_Spec cr1 = gc_Spec (buildChild wc pod1 name1)" and "gc_Spec cr2 = gc_Spec (buildChild wc pod2 name2)"
    and "ss_Type (ws_Storage (wc_Spec wc)) \<in> {StorageHostPath, []}" and "base = ss_Path (ws_Storage (wc_Spec wc))"
    and "is_abs base" and "TrimRightByte base slash \<noteq> []"
    and "path_elem (pod_Name pod1)" and "path_elem (pod_Name pod2)" and "pod_Name pod1 \<noteq> pod_Name pod2"
    and "slash \<notin> set (pod_Namespace pod1 @ ctr1)" and "slash \<notin> set (pod_Namespace pod2 @ ctr2)"
    and "run_state (Checkpointer_Checkpoint E1 c1 (cr_target cr1 p1 ctr1)) w1 = (Inr rs1, w1')"
    and "run_state (Checkpointer_Checkpoint E2 c2 (cr_target cr2 p2 ctr2)) w2 = (Inr rs2, w2')"
  shows "(\<exists>file. rs_ArchivePath rs1 = abs_path (elems base @ [pod_Name pod1, file])) \<and>
    (\<exists>file. rs_ArchivePath rs2 = abs_path (elems base @ [pod_Name pod2, file])) \<and>
    rs_ArchivePath rs1 \<noteq> rs_ArchivePath rs2"
proof -
  have below: "\<exists>file. path_elem file \<and> rs_ArchivePath rs = abs_path (elems base @ [pod_Name pod, file])"
    if cr: "gc_Spec cr = gc_Spec (buildChild wc pod name)" and pod: "path_elem (pod_Name pod)"
      and ctr: "slash \<notin> set (pod_Namespace pod @ ctr)"
      and run: "run_state (Checkpointer_Checkpoint E c (cr_target cr p ctr)) w = (Inr rs, w')"
    for cr pod name ctr E c p w rs w'
  proof -
    let ?t = "cr_target cr p ctr"
    have st: "ss_Type (tg_Storage ?t) = ss_Type (ws_Storage (wc_Spec wc))" "ss_Path (tg_Storage ?t) = joinPath base (pod_Name pod)"
      using child_simps(4) [OF cr] assms(3,4) by (auto simp: cr_target_def perPodStorage_def storage_types)
    obtain at where path: "rs_ArchivePath rs = Join [joinPath base (pod_Name pod), archive_name ?t at]"
      using hostPath_result [OF run] assms(3) st by auto
    have tg: "tg_Pod ?t = pod_Name pod" "tg_Namespace ?t = pod_Namespace pod" "tg_Container ?t = ctr"
      using child_simps(1) [OF cr] by (simp_all add: cr_target_def)
    have arch: "path_elem (archive_name ?t at)"
      by (rule archive_elem) (use tg ctr pod in \<open>auto simp: path_elem_def\<close>)
    have "rs_ArchivePath rs = abs_path (elems (joinPath base (pod_Name pod)) @ [archive_name ?t at])"
      unfolding path by (rule Join_abs) (use arch elems_joinPath(2) [OF assms(6) pod] assms(5) in auto)
    with arch show ?thesis by (auto simp: elems_joinPath(1) [OF assms(6) pod])
  qed
  obtain f1 where f1: "path_elem f1" "rs_ArchivePath rs1 = abs_path (elems base @ [pod_Name pod1, f1])"
    using below [OF assms(1,7,10,12)] by blast
  obtain f2 where f2: "path_elem f2" "rs_ArchivePath rs2 = abs_path (elems base @ [pod_Name pod2, f2])"
    using below [OF assms(2,8,11,13)] by blast
  have "elems (rs_ArchivePath rs1) = elems base @ [pod_Name pod1, f1]" "elems (rs_ArchivePath rs2) = elems base @ [pod_Name pod2, f2]"
    unfolding f1(2) f2(2)
    by (rule elems_abs_path; use elems_abs_proper [OF assms(5)] assms(7,8) f1(1) f2(1) in auto)+
  with assms(9) have "rs_ArchivePath rs1 \<noteq> rs_ArchivePath rs2" by auto
  with f1(2) f2(2) show ?thesis by blast
qed

definition dry_checkpointer :: Checkpointer where
  "dry_checkpointer = node_checkpointer\<lparr>cp_DryRun := True, cp_GCRInterception := False\<rparr>"

definition replica :: "string \<Rightarrow> GPUCheckpoint" where
  "replica n = buildChild some_wc (gpu_pod n ''n1'') (''wc-'' @ n)"

lemma dry_replica:
  obtains rs w' where "run_state (Checkpointer_Checkpoint quiet_env dry_checkpointer (cr_target (replica n) p ctr)) w = (Inr rs, w')"
proof -
  have "tg_Storage (cr_target (replica n) p ctr) = empty_storage\<lparr>ss_Type := ''hostPath'', ss_Path := joinPath ''/ckpt'' n\<rparr>"
    by (simp add: cr_target_def replica_def buildChild_def perPodStorage_def some_wc_def storage_types gpu_pod_def)
  then show ?thesis
    by (intro that)
       (simp add: Checkpointer_Checkpoint_def freeze_step_def produce_step_def resume_step_def store_def storeToDir_def
        dry_checkpointer_def storage_types write_file_def mkdir_all_def Let_def)
qed

theorem replicas_stored_apart_witness:
  "\<exists>rs1 rs2 w1' w2'.
    run_state (Checkpointer_Checkpoint quiet_env dry_checkpointer (cr_target (replica ''a'') train_pod ''main'')) empty_world = (Inr rs1, w1') \<and>
    run_state (Checkpointer_Checkpoint quiet_env dry_checkpointer (cr_target (replica ''b'') train_pod ''main'')) empty_world = (Inr rs2, w2') \<and>
    rs_ArchivePath rs1 \<noteq> rs_ArchivePath rs2"
proof -
  obtain rs1 w1' where 1: "run_state (Checkpointer_Checkpoint quiet_env dry_checkpointer (cr_target (replica ''a'') train_pod ''main'')) empty_world = (Inr rs1, w1')"
    by (rule dry_replica)
  obtain rs2 w2' where 2: "run_state (Checkpointer_Checkpoint quiet_env dry_checkpointer (cr_target (replica ''b'') train_pod ''main'')) empty_world = (Inr rs2, w2')"
    by (rule dry_replica)
  have base: "is_abs ''/ckpt''" "TrimRightByte ''/ckpt'' slash \<noteq> []" "ss_Path (ws_Storage (wc_Spec some_wc)) = ''/ckpt''"
    "ss_Type (ws_Storage (wc_Spec some_wc)) \<in> {StorageHostPath, []}"
    by (simp_all add: is_abs_def TrimRightByte_def slash_def some_wc_def storage_types)
  have pods: "path_elem (pod_Name (gpu_pod ''a'' ''n1''))" "path_elem (pod_Name (gpu_pod ''b'' ''n1''))"
    "pod_Name (gpu_pod ''a'' ''n1'') \<noteq> pod_Name (gpu_pod ''b'' ''n1'')"
    "slash \<notin> set (pod_Namespace (gpu_pod ''a'' ''n1'') @ ''main'')" "slash \<notin> set (pod_Namespace (gpu_pod ''b'' ''n1'') @ ''main'')"
    by (simp_all add: gpu_pod_def path_elem_def slash_def)
  have "gc_Spec (replica n) = gc_Spec (buildChild some_wc (gpu_pod n ''n1'') (''wc-'' @ n))" for n
    by (simp add: replica_def)
  from replicas_stored_apart [OF this this base(4) base(3) [symmetric] base(1,2) pods 1 2] 1 2 show ?thesis by blast
qed

subsection \<open>From the agents' reports to the workload's status\<close>

text \<open>C21: When the agents have reported a stored checkpoint for the child of every Pod of a workload, the
  orchestrator's summary of these children is Completed, with every Pod counted as completed,
  none as failed or active, and a completion time.\<close>

theorem all_stored_completes:
  assumes "list_all (\<lambda>pod. \<exists>cr c path taken. by_name children (childName parent (pod_Name pod)) = Some c \<and>
      reports_stored cr c path taken) pods" and "length pods < 2 ^ 31"
    and "st' = aggregate_status st (tally_pods parent (by_name children) pods zero_tally) t"
  shows "wt_Phase st' = WCPhaseCompleted \<and> unat (wt_Completed st') = length pods \<and> unat (wt_Failed st') = 0 \<and>
    unat (wt_Active st') = 0 \<and> wt_CompletionTime st' \<noteq> None"
proof -
  let ?T = "tally_pods parent (by_name children) pods zero_tally"
  have "child_phase parent (by_name children) pod = Some PhaseCompleted" if "pod \<in> set pods" for pod
    using assms(1) that by (fastforce simp: list_all_iff child_phase_def reports_stored_def)
  then have n: "n_with completed_child parent (by_name children) pods = length pods"
    "n_with failed_child parent (by_name children) pods = 0" "n_with active_child parent (by_name children) pods = 0"
    by (auto simp: n_with_def filter_True filter_empty_conv)
  have T: "ta_total ?T = word_of_nat (length pods)" "ta_done ?T = word_of_nat (length pods)" "ta_failed ?T = word_of_nat 0"
    "ta_active ?T = 0"
    using n by (simp_all add: tally_pods_counts zero_tally_def)
  have "length pods + 0 + 0 = length pods" by simp
  from aggregate_phase [OF this assms(2) T(1-3), of st t] show ?thesis
    using assms(2) int32_unat [OF assms(2)] by (auto simp: assms(3) phase_of_def aggregate_counts T)
qed

definition stored_child :: GPUCheckpoint where
  "stored_child = child_of_a\<lparr>gc_Status := stored_status empty_status \<lparr>rs_ArchivePath = ''/ckpt/a/x.tar'', rs_TakenAt = 5\<rparr> 9\<rparr>"

theorem all_stored_completes_witness:
  "wt_Phase (aggregate_status (wc_Status some_wc)
    (tally_pods ''wc'' (by_name [stored_child]) [gpu_pod ''a'' ''n1''] zero_tally) 7) = WCPhaseCompleted"
proof -
  have "reports_stored child_of_a stored_child ''/ckpt/a/x.tar'' 5"
    by (simp add: reports_stored_def stored_child_def child_of_a_def buildChild_def stored_status_def setCondition_def
        empty_status_def find_condition_def)
  moreover have "by_name [stored_child] (childName ''wc'' (pod_Name (gpu_pod ''a'' ''n1''))) = Some stored_child"
    by (simp add: by_name_def stored_child_def child_of_a_def buildChild_def childName_def gpu_pod_def)
  ultimately have "list_all (\<lambda>pod. \<exists>cr c path taken. by_name [stored_child] (childName ''wc'' (pod_Name pod)) = Some c \<and>
      reports_stored cr c path taken) [gpu_pod ''a'' ''n1'']" by auto
  from all_stored_completes [OF this _ refl, of "wc_Status some_wc" 7] show ?thesis by simp
qed

end
